theory Spec2Isabelle
  imports Main "HOL-Library.AList"
begin

section \<open>Python strings\<close>

text \<open>
  The orchestrator (\<^verbatim>\<open>src/app/orchestrator.py\<close>) works on Python \<^verbatim>\<open>str\<close> values.
  They are modelled as \<^typ>\<open>string\<close>; the helpers below are the \<^verbatim>\<open>str\<close> methods the
  source calls, on ASCII text (the whitespace of \<^verbatim>\<open>str.isspace\<close> below code point 128).
\<close>

definition is_space :: "char \<Rightarrow> bool" where
  "is_space c = (c \<in> set [CHR 0x09, CHR 0x0A, CHR 0x0B, CHR 0x0C, CHR 0x0D,
                            CHR 0x1C, CHR 0x1D, CHR 0x1E, CHR 0x1F, CHR 0x20])"

definition is_digit :: "char \<Rightarrow> bool" where
  "is_digit c = (c \<in> set ''0123456789'')"

text \<open>\<^verbatim>\<open>s.strip()\<close>\<close>

definition strip :: "string \<Rightarrow> string" where
  "strip s = rev (dropWhile is_space (rev (dropWhile is_space s)))"

text \<open>\<^verbatim>\<open>s.split(sep)\<close> for a one-character separator: \<^verbatim>\<open>"".split(":") == [""]\<close>.\<close>

fun split_where :: "(char \<Rightarrow> bool) \<Rightarrow> string \<Rightarrow> string list" where
  "split_where p [] = [[]]"
| "split_where p (c # cs) =
     (if p c then [] # split_where p cs
      else (case split_where p cs of
              [] \<Rightarrow> [[c]]
            | w # ws \<Rightarrow> (c # w) # ws))"

definition split_on :: "char \<Rightarrow> string \<Rightarrow> string list" where
  "split_on sep s = split_where (\<lambda>c. c = sep) s"

text \<open>\<^verbatim>\<open>s.split()\<close>: split at runs of whitespace, no empty words.\<close>

definition split_ws :: "string \<Rightarrow> string list" where
  "split_ws s = filter (\<lambda>w. w \<noteq> []) (split_where is_space s)"

text \<open>\<^verbatim>\<open>s.splitlines()\<close>: a line ends at \<^verbatim>\<open>\n\<close>, \<^verbatim>\<open>\r\<close>, \<^verbatim>\<open>\r\n\<close>, \<^verbatim>\<open>\v\<close>, \<^verbatim>\<open>\f\<close>,
  \<^verbatim>\<open>\x1c\<close>, \<^verbatim>\<open>\x1d\<close> or \<^verbatim>\<open>\x1e\<close>; no empty last line.\<close>

definition is_linebreak :: "char \<Rightarrow> bool" where
  "is_linebreak c = (c \<in> set [CHR 0x0A, CHR 0x0B, CHR 0x0C, CHR 0x0D, CHR 0x1C, CHR 0x1D, CHR 0x1E])"

fun splitlines_from :: "bool \<Rightarrow> string \<Rightarrow> string \<Rightarrow> string list" where
  "splitlines_from after_cr cur [] = (if cur = [] then [] else [rev cur])"
| "splitlines_from after_cr cur (c # cs) =
     (if after_cr \<and> c = CHR 0x0A then splitlines_from False cur cs
      else if is_linebreak c then rev cur # splitlines_from (c = CHR 0x0D) [] cs
      else splitlines_from False (c # cur) cs)"

definition splitlines :: "string \<Rightarrow> string list" where
  "splitlines s = splitlines_from False [] s"

text \<open>\<^verbatim>\<open>sub in s\<close>\<close>

fun startswith :: "string \<Rightarrow> string \<Rightarrow> bool" where
  "startswith [] s = True"
| "startswith (p # ps) [] = False"
| "startswith (p # ps) (c # cs) = (p = c \<and> startswith ps cs)"

fun contains :: "string \<Rightarrow> string \<Rightarrow> bool" where
  "contains sub [] = (sub = [])"
| "contains sub (c # cs) = (startswith sub (c # cs) \<or> contains sub cs)"

text \<open>\<^verbatim>\<open>s.lower()\<close>\<close>

definition lower_char :: "char \<Rightarrow> char" where
  "lower_char c =
     (let n = (of_char c :: nat) in if 65 \<le> n \<and> n \<le> 90 then char_of (n + 32) else c)"

definition lower :: "string \<Rightarrow> string" where
  "lower s = map lower_char s"

text \<open>
  \<^verbatim>\<open>re.findall(r"inet\d*\s+(\S+)", s)\<close>. The three classes that follow \<^verbatim>\<open>inet\<close> are
  disjoint where they meet, so the greedy match never backtracks: one match reads the
  digits, at least one blank, and a maximal run of non-blanks, which is the group; the
  scan goes on behind the match, or one character further when there is none.
\<close>

definition match_inet :: "string \<Rightarrow> (string \<times> string) option" where
  "match_inet s =
     (if startswith ''inet'' s then
        (let r1 = dropWhile is_digit (drop 4 s);
             r2 = dropWhile is_space r1;
             grp = takeWhile (\<lambda>c. \<not> is_space c) r2
         in if r1 \<noteq> r2 \<and> grp \<noteq> [] then Some (grp, dropWhile (\<lambda>c. \<not> is_space c) r2) else None)
      else None)"

fun findall_inet_upto :: "nat \<Rightarrow> string \<Rightarrow> string list" where
  "findall_inet_upto 0 s = []"
| "findall_inet_upto (Suc n) [] = []"
| "findall_inet_upto (Suc n) (c # cs) =
     (case match_inet (c # cs) of
        Some (grp, rest) \<Rightarrow> grp # findall_inet_upto n rest
      | None \<Rightarrow> findall_inet_upto n cs)"

text \<open>Every step of the scan consumes a character, so \<open>length s\<close> steps read all of \<open>s\<close>.\<close>

definition findall_inet :: "string \<Rightarrow> string list" where
  "findall_inet s = findall_inet_upto (length s) s"

text \<open>Truthiness of an optional string: \<^verbatim>\<open>None\<close> and \<^verbatim>\<open>""\<close> are false.\<close>

definition truthy :: "string option \<Rightarrow> bool" where
  "truthy v = (case v of None \<Rightarrow> False | Some s \<Rightarrow> s \<noteq> [])"

text \<open>\<^verbatim>\<open>str(v)\<close> of an optional string.\<close>

definition py_str :: "string option \<Rightarrow> string" where
  "py_str v = (case v of None \<Rightarrow> ''None'' | Some s \<Rightarrow> s)"


section \<open>The desired-state document\<close>

text \<open>
  \<^verbatim>\<open>/root/config.json\<close>, as the \<^verbatim>\<open>TypedDict\<close> schemas of the source describe it. An
  optional key is an \<open>option\<close> (\<^verbatim>\<open>info.get(key)\<close>); a key the source indexes directly
  (\<^verbatim>\<open>info["bridge"]\<close>, \<^verbatim>\<open>info["iface"]\<close>, \<^verbatim>\<open>translation["on"]\<close>, \<^verbatim>\<open>config["bridge"]\<close>, ...)
  is a plain field. A JSON object is an association list in document order, its keys
  distinct.
\<close>

record parent_info =
  p_iface :: "string option"
  p_native :: "string option"
  p_trunk :: "string option"

record bridge_info =
  b_parents :: "parent_info list"
  b_iprange :: "string option"
  b_ip6range :: "string option"
  b_ipaddress :: "string option"
  b_ip6address :: "string option"

record container_info =
  c_iface :: string
  c_bridge :: string
  c_vlan :: "string option"
  c_trunk :: "string option"
  c_ipaddress :: "string option"
  c_ip6address :: "string option"
  c_gateway :: "string option"
  c_gateway6 :: "string option"
  c_macaddress :: "string option"

record translation =
  t_on :: string
  t_map :: string

record config =
  cfg_bridge :: "(string \<times> bridge_info) list"
  cfg_container :: "(string \<times> container_info list) list"
  cfg_vlan_translations :: "translation list"

section \<open>The lease cache\<close>

text \<open>
  \<^verbatim>\<open>/tmp/db.json\<close>: one entry per bridge and the counter \<^verbatim>\<open>failed\<close>. A bridge's entry
  holds \<^verbatim>\<open>iprange\<close>, \<^verbatim>\<open>ip6range\<close>, the two host maps \<^verbatim>\<open>iprange_hosts\<close> and
  \<^verbatim>\<open>ip6range_hosts\<close>, and one \<^verbatim>\<open>{trunk, native}\<close> entry per parent interface. The source
  keeps all of these as keys of one dictionary; the record separates the parents from the
  four fixed keys, and the bridges from \<^verbatim>\<open>failed\<close>, so a parent interface is assumed not
  to be named like one of the four keys, nor a bridge \<^verbatim>\<open>failed\<close>. A key that is absent and
  a key that holds \<^verbatim>\<open>None\<close> read alike through \<^verbatim>\<open>dict.get\<close>, the only way the source
  reads them; both are \<open>None\<close> here.

  A dictionary is an association list: \<^const>\<open>map_of\<close> is \<^verbatim>\<open>d.get(k)\<close>,
  \<^const>\<open>AList.update\<close> is \<^verbatim>\<open>d[k] = v\<close>, \<^const>\<open>AList.delete\<close> is \<^verbatim>\<open>d.pop(k, None)\<close>
  and \<open>map snd\<close> is \<^verbatim>\<open>d.values()\<close>.
\<close>

type_synonym hosts_map = "(string \<times> string) list"

record parent_cache =
  pc_trunk :: "string option"
  pc_native :: "string option"

record bridge_cache =
  iprange :: "string option"
  ip6range :: "string option"
  iprange_hosts :: "hosts_map option"
  ip6range_hosts :: "hosts_map option"
  parents :: "(string \<times> parent_cache) list"

record lease_db =
  bridges :: "(string \<times> bridge_cache) list"
  failed :: "int option"

definition empty_parent_cache :: parent_cache where
  "empty_parent_cache = \<lparr>pc_trunk = None, pc_native = None\<rparr>"

definition empty_bridge_cache :: bridge_cache where
  "empty_bridge_cache =
     \<lparr>iprange = None, ip6range = None, iprange_hosts = None, ip6range_hosts = None, parents = []\<rparr>"

text \<open>\<^verbatim>\<open>d.setdefault(k, v)\<close>, the dictionary after the call.\<close>

definition setdefault :: "'k \<Rightarrow> 'v \<Rightarrow> ('k \<times> 'v) list \<Rightarrow> ('k \<times> 'v) list" where
  "setdefault k v d = (case map_of d k of None \<Rightarrow> AList.update k v d | Some _ \<Rightarrow> d)"

text \<open>The loops of the source run over the two address families by their cache key.\<close>

datatype range_key = Iprange | Ip6range

definition info_range :: "range_key \<Rightarrow> bridge_info \<Rightarrow> string option" where
  "info_range k info = (case k of Iprange \<Rightarrow> b_iprange info | Ip6range \<Rightarrow> b_ip6range info)"

definition cache_range :: "range_key \<Rightarrow> bridge_cache \<Rightarrow> string option" where
  "cache_range k c = (case k of Iprange \<Rightarrow> iprange c | Ip6range \<Rightarrow> ip6range c)"

definition cache_hosts :: "range_key \<Rightarrow> bridge_cache \<Rightarrow> hosts_map option" where
  "cache_hosts k c = (case k of Iprange \<Rightarrow> iprange_hosts c | Ip6range \<Rightarrow> ip6range_hosts c)"

definition set_cache_range :: "range_key \<Rightarrow> string option \<Rightarrow> bridge_cache \<Rightarrow> bridge_cache" where
  "set_cache_range k r c = (case k of Iprange \<Rightarrow> c\<lparr>iprange := r\<rparr> | Ip6range \<Rightarrow> c\<lparr>ip6range := r\<rparr>)"

definition set_cache_hosts :: "range_key \<Rightarrow> hosts_map option \<Rightarrow> bridge_cache \<Rightarrow> bridge_cache" where
  "set_cache_hosts k h c =
     (case k of Iprange \<Rightarrow> c\<lparr>iprange_hosts := h\<rparr> | Ip6range \<Rightarrow> c\<lparr>ip6range_hosts := h\<rparr>)"

definition family_flag :: "range_key \<Rightarrow> string" where
  "family_flag k = (case k of Iprange \<Rightarrow> ''-4'' | Ip6range \<Rightarrow> ''-6'')"

section \<open>Commands and the host\<close>

text \<open>
  Every effect on the host is a command line handed to \<^verbatim>\<open>subprocess.run\<close>. The datatype
  has one constructor per command line the source builds, \<open>render\<close> gives its text, and
  \<open>is_query\<close> marks the command lines that only read the host's state.
\<close>

datatype command =
    Lsmod
  | GrepOpenvswitch
  | Sysctl
  | OvsAddBr string
  | BrctlAddBr string
  | IpLinkSetUp string
  | IpAddrFlush string string
  | IpAddrShow string
  | IpAddrAdd string string
  | LsSysClassNet
  | OvsPortToBr string
  | OvsDelPort string
  | OvsAddPort string string "string option" "string option"
  | OvsSetPort string string
  | IpLinkShowMaster string
  | IpLinkSetNomaster string
  | BrctlAddIf string string
  | IpLinkSetVlanFiltering string
  | BridgeVlanDelete string
  | BridgeVlanAdd string string bool
  | IpLinkShow string
  | IpLinkAddVeth string string
  | IpLinkSetDevUp string
  | DockerPs string
  | DockerExecLinkShow string string
  | DockerExecLinkShowDev string string
  | DockerExecLinkSetAddr string string string
  | DockerExecLinkDel string string
  | DockerGetPort string string string
  | DockerDelPort string string string string
  | DockerAddPort string string string string "(string \<times> string) list"
  | DockerSetVlan string string string string string
  | DockerSetTrunk string string string string string

fun render :: "command \<Rightarrow> string" where
  "render Lsmod = ''/bin/lsmod''"
| "render GrepOpenvswitch = ''grep openvswitch''"
| "render Sysctl = ''sysctl net.bridge.bridge-nf-call-iptables=0''"
| "render (OvsAddBr b) = ''ovs-vsctl --may-exist add-br '' @ b"
| "render (BrctlAddBr b) = ''brctl addbr '' @ b"
| "render (IpLinkSetUp d) = ''ip link set '' @ d @ '' up''"
| "render (IpAddrFlush fam b) = ''ip '' @ fam @ '' addr flush dev '' @ b"
| "render (IpAddrShow i) = ''ip -o addr show '' @ i"
| "render (IpAddrAdd a b) = ''ip addr add '' @ a @ '' dev '' @ b"
| "render LsSysClassNet = ''ls -l /sys/class/net''"
| "render (OvsPortToBr p) = ''ovs-vsctl port-to-br '' @ p"
| "render (OvsDelPort p) = ''ovs-vsctl --if-exists del-port '' @ p"
| "render (OvsAddPort b p tr nv) =
     ''ovs-vsctl --may-exist add-port '' @ b @ '' '' @ p
       @ (case tr of None \<Rightarrow> [] | Some t \<Rightarrow> '' trunk='' @ t)
       @ (case nv of None \<Rightarrow> [] | Some n \<Rightarrow> '' vlan_mode=native-untagged tag='' @ n)"
| "render (OvsSetPort p opt) = ''ovs-vsctl set port '' @ p @ '' '' @ opt"
| "render (IpLinkShowMaster b) = ''ip -o link show master '' @ b"
| "render (IpLinkSetNomaster p) = ''ip link set dev '' @ p @ '' nomaster''"
| "render (BrctlAddIf b p) = ''brctl addif '' @ b @ '' '' @ p"
| "render (IpLinkSetVlanFiltering b) = ''ip link set '' @ b @ '' type bridge vlan_filtering 1''"
| "render (BridgeVlanDelete p) = ''bridge vlan delete dev '' @ p @ '' vid 1''"
| "render (BridgeVlanAdd p vid pvid) =
     ''bridge vlan add dev '' @ p @ '' vid '' @ vid @ (if pvid then '' pvid untagged'' else [])"
| "render (IpLinkShow v) = ''ip link show '' @ v"
| "render (IpLinkAddVeth v0 v1) = ''ip link add '' @ v0 @ '' type veth peer name '' @ v1"
| "render (IpLinkSetDevUp v) = ''ip link set dev '' @ v @ '' up''"
| "render (DockerPs c) = ''docker ps -f name='' @ c @ ''$ -q''"
| "render (DockerExecLinkShow c i) = ''docker exec '' @ c @ '' ip link show '' @ i"
| "render (DockerExecLinkShowDev c i) = ''docker exec '' @ c @ '' ip link show dev '' @ i"
| "render (DockerExecLinkSetAddr c i m) =
     ''docker exec '' @ c @ '' ip link set dev '' @ i @ '' addr '' @ m"
| "render (DockerExecLinkDel c i) = ''docker exec '' @ c @ '' ip link del '' @ i"
| "render (DockerGetPort u c i) = u @ '' get-port '' @ c @ '' '' @ i"
| "render (DockerDelPort u b i c) = u @ '' del-port '' @ b @ '' '' @ i @ '' '' @ c"
| "render (DockerAddPort u b i c opts) =
     u @ '' add-port '' @ b @ '' '' @ i @ '' '' @ c
       @ concat (map (\<lambda>(k, v). '' --'' @ k @ ''='' @ v) opts)"
| "render (DockerSetVlan u b i c v) = u @ '' set-vlan '' @ b @ '' '' @ i @ '' '' @ c @ '' '' @ v"
| "render (DockerSetTrunk u b i c t) = u @ '' set-trunk '' @ b @ '' '' @ i @ '' '' @ c @ '' '' @ t"

fun is_query :: "command \<Rightarrow> bool" where
  "is_query Lsmod = True"
| "is_query GrepOpenvswitch = True"
| "is_query (IpAddrShow i) = True"
| "is_query LsSysClassNet = True"
| "is_query (OvsPortToBr p) = True"
| "is_query (IpLinkShowMaster b) = True"
| "is_query (IpLinkShow v) = True"
| "is_query (DockerPs c) = True"
| "is_query (DockerExecLinkShow c i) = True"
| "is_query (DockerExecLinkShowDev c i) = True"
| "is_query (DockerGetPort u c i) = True"
| "is_query other = False"

text \<open>
  \<^verbatim>\<open>CompletedProcess\<close>: the return code and the captured standard output. The host is a
  function from the commands run so far and the command run now to its result, so what
  the host answers may depend on everything the orchestrator did to it before.
\<close>

record proc =
  returncode :: int
  stdout :: string

type_synonym host = "command list \<Rightarrow> command \<Rightarrow> proc"

text \<open>
  The Python standard library, as far as the source calls it. The functions are
  parameters of the model: \<open>network_hosts r\<close> is \<^verbatim>\<open>ipaddress.ip_network(r).hosts()\<close> (a
  generator, or a plain list as for a network of one address, or \<^verbatim>\<open>ValueError\<close>),
  \<open>interface_family a\<close> is the class of \<^verbatim>\<open>ipaddress.ip_interface(a)\<close>,
  \<open>interface_in_network a r\<close> is \<^verbatim>\<open>ipaddress.ip_interface(a) in ipaddress.ip_network(r)\<close>
  (\<open>None\<close> when either constructor raises \<^verbatim>\<open>ValueError\<close>), and \<open>sha256_hexdigest s\<close> is
  \<^verbatim>\<open>hashlib.sha256(s.encode()).hexdigest()\<close>.
\<close>

datatype ip_family = IPv4 | IPv6

datatype hosts_result = InvalidNetwork | HostGenerator "string list" | HostList "string list"

record pylib =
  network_hosts :: "string \<Rightarrow> hosts_result"
  interface_family :: "string \<Rightarrow> ip_family option"
  interface_in_network :: "string \<Rightarrow> string \<Rightarrow> bool option"
  sha256_hexdigest :: "string \<Rightarrow> string"

section \<open>Exceptions and state\<close>

text \<open>
  The exceptions the source can raise. A \<^verbatim>\<open>ValueError\<close> and an \<^verbatim>\<open>IndexError\<close> carry the
  place that raised them, which the source tells apart by message only.
\<close>

datatype value_error =
    AmbiguousUsbParent
  | BridgeAddressTaken
  | AddressNotInRange
  | InvalidAddress
  | MissingPrefix
  | WrongFamily
  | ContainerAddressTaken
  | VethOnOtherBridge
  | UnpackMismatch

datatype index_error = SubnetExhausted | ListIndexOutOfRange

datatype py_error =
    CalledProcessError command
  | ValueError value_error
  | IndexError index_error
  | KeyError string
  | StopIteration
  | TypeError
  | AttributeError

text \<open>
  The state a pass works on: the lease cache behind \<^verbatim>\<open>_get_db()\<close> and the commands run
  so far. A computation returns a value or raises, and leaves a state either way: what
  was written to the cache or done to the host before an exception stays done.
\<close>

record pstate =
  db :: lease_db
  issued :: "command list"

type_synonym 'a run = "pstate \<Rightarrow> (py_error + 'a) \<times> pstate"

definition succeed :: "'a \<Rightarrow> 'a run" where
  "succeed x s = (Inr x, s)"

definition raise :: "py_error \<Rightarrow> 'a run" where
  "raise e s = (Inl e, s)"

definition and_then :: "'a run \<Rightarrow> ('a \<Rightarrow> 'b run) \<Rightarrow> 'b run" where
  "and_then m f s = (case m s of (Inl e, s') \<Rightarrow> (Inl e, s') | (Inr x, s') \<Rightarrow> f x s')"

definition modify_db :: "(lease_db \<Rightarrow> lease_db) \<Rightarrow> unit run" where
  "modify_db f s = (Inr (), s\<lparr>db := f (db s)\<rparr>)"

definition read_db :: "(lease_db \<Rightarrow> 'a) \<Rightarrow> 'a run" where
  "read_db f s = (Inr (f (db s)), s)"

text \<open>A \<^verbatim>\<open>for\<close> loop: the body on each element in turn, left at the first exception.\<close>

fun for_each :: "('a \<Rightarrow> unit run) \<Rightarrow> 'a list \<Rightarrow> unit run" where
  "for_each body [] = succeed ()"
| "for_each body (x # xs) = and_then (body x) (\<lambda>_. for_each body xs)"

text \<open>
  \<^verbatim>\<open>_run_command(command, check)\<close>, and \<^verbatim>\<open>subprocess.run\<close> where the source calls it
  directly: the command is run on the host, and with \<^verbatim>\<open>check\<close> a return code other than
  0 raises \<^verbatim>\<open>CalledProcessError\<close>.
\<close>

definition run_command :: "host \<Rightarrow> command \<Rightarrow> bool \<Rightarrow> proc run" where
  "run_command host cmd check s =
     (let r = host (issued s) cmd;
          s' = s\<lparr>issued := issued s @ [cmd]\<rparr>
      in if check \<and> returncode r \<noteq> 0 then (Inl (CalledProcessError cmd), s') else (Inr r, s'))"

text \<open>Access to one bridge's entry of the cache.\<close>

definition bridge_entry :: "string \<Rightarrow> lease_db \<Rightarrow> bridge_cache option" where
  "bridge_entry b d = map_of (bridges d) b"

definition update_bridge :: "string \<Rightarrow> (bridge_cache \<Rightarrow> bridge_cache) \<Rightarrow> lease_db \<Rightarrow> lease_db" where
  "update_bridge b f d = d\<lparr>bridges := AList.map_entry b f (bridges d)\<rparr>"

section \<open>VLAN translation\<close>

text \<open>\<^verbatim>\<open>_hash_string\<close>: the first 8 hexadecimal digits of the SHA-256 digest.\<close>

definition hash_string :: "pylib \<Rightarrow> string \<Rightarrow> string" where
  "hash_string lib s = take 8 (sha256_hexdigest lib s)"

text \<open>\<^verbatim>\<open>_veth_exists\<close>\<close>

definition veth_exists :: "host \<Rightarrow> string \<Rightarrow> bool run" where
  "veth_exists host veth_end =
     and_then (run_command host (IpLinkShow veth_end) False) (\<lambda>result.
     succeed (returncode result = 0))"

text \<open>The names of the two ends, \<^verbatim>\<open>f"v0_{vlan_hash}"\<close> and \<^verbatim>\<open>f"v1_{vlan_hash}"\<close>.\<close>

definition veth_names :: "pylib \<Rightarrow> string \<Rightarrow> string \<times> string" where
  "veth_names lib vlan_map =
     (let vlan_hash = hash_string lib vlan_map in (''v0_'' @ vlan_hash, ''v1_'' @ vlan_hash))"

text \<open>The body of the loop over the two ends (lines 398 to 420).\<close>

definition attach_veth :: "host \<Rightarrow> string \<Rightarrow> string \<times> string \<Rightarrow> unit run" where
  "attach_veth host on_bridge = (\<lambda>(veth_name, vlan).
     and_then (run_command host (OvsPortToBr veth_name) False) (\<lambda>check.
     if returncode check = 1 then
       and_then (run_command host (OvsAddPort on_bridge veth_name None None) True) (\<lambda>_.
       and_then (run_command host (OvsSetPort veth_name (''tag='' @ vlan)) True) (\<lambda>_.
       succeed ()))
     else if strip (stdout check) \<noteq> on_bridge then raise (ValueError VethOnOtherBridge)
     else succeed ()))"

text \<open>\<^verbatim>\<open>create_veth_pair\<close>. The tuple assignment from \<^verbatim>\<open>vlan_map.split(":")\<close> raises
  \<^verbatim>\<open>ValueError\<close> unless the split has exactly two parts.\<close>

definition create_veth_pair :: "pylib \<Rightarrow> host \<Rightarrow> string \<Rightarrow> string \<Rightarrow> unit run" where
  "create_veth_pair lib host on_bridge vlan_map =
     (case split_on CHR '':'' vlan_map of
        [source_vlan, dest_vlan] \<Rightarrow>
          (let (veth0, veth1) = veth_names lib vlan_map in
           and_then (veth_exists host veth0) (\<lambda>exists.
           and_then
             (if \<not> exists then
                and_then (run_command host (IpLinkAddVeth veth0 veth1) True) (\<lambda>_.
                and_then (run_command host (IpLinkSetDevUp veth0) True) (\<lambda>_.
                and_then (run_command host (IpLinkSetDevUp veth1) True) (\<lambda>_.
                succeed ())))
              else succeed ()) (\<lambda>_.
           for_each (attach_veth host on_bridge) [(veth0, source_vlan), (veth1, dest_vlan)])))
      | _ \<Rightarrow> raise (ValueError UnpackMismatch))"


section \<open>Address bookkeeping on a host map\<close>

text \<open>
  A computation on one host map: the result or the exception, and the map as it was
  left. \<open>on_hosts\<close> runs it on the map \<^verbatim>\<open>hosts = db_cache.get(...)\<close> of a bridge, which
  the source mutates in place; calling a method of a map that is \<^verbatim>\<open>None\<close> raises
  \<^verbatim>\<open>AttributeError\<close>.
\<close>

type_synonym 'a hosts_run = "hosts_map \<Rightarrow> (py_error + 'a) \<times> hosts_map"

definition on_hosts :: "string \<Rightarrow> range_key \<Rightarrow> 'a hosts_run \<Rightarrow> 'a run" where
  "on_hosts bridge k f s =
     (case bridge_entry bridge (db s) of
        None \<Rightarrow> (Inl (KeyError bridge), s)
      | Some db_cache \<Rightarrow>
          (case cache_hosts k db_cache of
             None \<Rightarrow> (Inl AttributeError, s)
           | Some hosts \<Rightarrow>
               (case f hosts of
                  (r, hosts') \<Rightarrow>
                    (r, s\<lparr>db := update_bridge bridge (set_cache_hosts k (Some hosts')) (db s)\<rparr>))))"

text \<open>Lines 486 to 495: the explicit address of a container.\<close>

definition reserve :: "string \<Rightarrow> string \<Rightarrow> unit hosts_run" where
  "reserve container_name ipaddr hosts =
     (if Some ipaddr \<noteq> map_of hosts container_name then
        (let hosts' = AList.delete container_name hosts in
         if ipaddr \<in> set (map snd hosts') then (Inl (ValueError ContainerAddressTaken), hosts')
         else (Inr (), AList.update container_name ipaddr hosts'))
      else (Inr (), AList.update container_name ipaddr hosts))"

text \<open>
  Lines 504 to 507: the hosts of the range behind the first five. \<^verbatim>\<open>next\<close> on a generator
  that has run out raises \<^verbatim>\<open>StopIteration\<close>, and on a list \<^verbatim>\<open>TypeError\<close>.
\<close>

definition skip_hosts :: "pylib \<Rightarrow> string \<Rightarrow> py_error + string list" where
  "skip_hosts lib ip_range =
     (case network_hosts lib ip_range of
        InvalidNetwork \<Rightarrow> Inl (ValueError InvalidAddress)
      | HostList hs \<Rightarrow> Inl TypeError
      | HostGenerator hs \<Rightarrow> if length hs < 5 then Inl StopIteration else Inr (drop 5 hs))"

text \<open>Line 510: \<^verbatim>\<open>f"{host}/{ip_range.split('/')[-1]}"\<close>\<close>

definition with_prefix :: "string \<Rightarrow> string \<Rightarrow> string" where
  "with_prefix ip_range h = h @ ''/'' @ last (split_on CHR ''/'' ip_range)"

text \<open>Lines 509 to 526: the first of the remaining addresses that is no value of the map.\<close>

definition auto_allocate :: "string \<Rightarrow> string list \<Rightarrow> string hosts_run" where
  "auto_allocate container_name candidates hosts =
     (case find (\<lambda>ipaddr. ipaddr \<notin> set (map snd hosts)) candidates of
        None \<Rightarrow> (Inl (IndexError SubnetExhausted), hosts)
      | Some ipaddr \<Rightarrow> (Inr ipaddr, AList.update container_name ipaddr hosts))"

section \<open>Container interfaces\<close>

definition ip_idx :: "range_key \<Rightarrow> string" where
  "ip_idx k = (case k of Iprange \<Rightarrow> ''ipaddress'' | Ip6range \<Rightarrow> ''ip6address'')"

definition gw_idx :: "range_key \<Rightarrow> string" where
  "gw_idx k = (case k of Iprange \<Rightarrow> ''gateway'' | Ip6range \<Rightarrow> ''gateway6'')"

definition family_of :: "range_key \<Rightarrow> ip_family" where
  "family_of k = (case k of Iprange \<Rightarrow> IPv4 | Ip6range \<Rightarrow> IPv6)"

definition info_address :: "range_key \<Rightarrow> container_info \<Rightarrow> string option" where
  "info_address k info = (case k of Iprange \<Rightarrow> c_ipaddress info | Ip6range \<Rightarrow> c_ip6address info)"

definition info_gateway :: "range_key \<Rightarrow> container_info \<Rightarrow> string option" where
  "info_gateway k info = (case k of Iprange \<Rightarrow> c_gateway info | Ip6range \<Rightarrow> c_gateway6 info)"

text \<open>
  The body of the loop over the two families (lines 456 to 526). It takes the options
  gathered for the \<^verbatim>\<open>add-port\<close> command so far and returns them with its own.
\<close>

definition container_address ::
  "pylib \<Rightarrow> string \<Rightarrow> container_info \<Rightarrow> (string \<times> string) list \<Rightarrow> range_key \<Rightarrow> (string \<times> string) list run"
where
  "container_address lib container_name info opts k =
     (let bridge = c_bridge info;
          opts1 = (case info_gateway k info of
                     None \<Rightarrow> opts
                   | Some gateway \<Rightarrow> if gateway \<noteq> [] then opts @ [(gw_idx k, gateway)] else opts)
      in
      if truthy (info_address k info) then
        (let ipaddr = py_str (info_address k info) in
         if ipaddr = ''No-IP'' then succeed opts1
         else if \<not> contains ''/'' ipaddr then raise (ValueError MissingPrefix)
         else (case interface_family lib ipaddr of
                 None \<Rightarrow> raise (ValueError InvalidAddress)
               | Some fam \<Rightarrow>
                   if fam \<noteq> family_of k then raise (ValueError WrongFamily)
                   else and_then (on_hosts bridge k (reserve container_name ipaddr)) (\<lambda>_.
                        succeed (opts1 @ [(ip_idx k, ipaddr)]))))
      else
        and_then (read_db (\<lambda>d. case bridge_entry bridge d of
                                  None \<Rightarrow> None
                                | Some db_cache \<Rightarrow> cache_range k db_cache)) (\<lambda>cached_range.
        if truthy cached_range then
          (let ip_range = py_str cached_range in
           case skip_hosts lib ip_range of
             Inl e \<Rightarrow> raise e
           | Inr [] \<Rightarrow> raise (IndexError SubnetExhausted)
           | Inr (h # hs) \<Rightarrow>
               and_then (on_hosts bridge k
                           (auto_allocate container_name (map (with_prefix ip_range) (h # hs))))
                 (\<lambda>ipaddr. succeed (opts1 @ [(ip_idx k, ipaddr)])))
        else succeed opts1))"

text \<open>The loop itself: the options are threaded through the two families.\<close>

fun container_addresses ::
  "pylib \<Rightarrow> string \<Rightarrow> container_info \<Rightarrow> (string \<times> string) list \<Rightarrow> range_key list \<Rightarrow> (string \<times> string) list run"
where
  "container_addresses lib container_name info opts [] = succeed opts"
| "container_addresses lib container_name info opts (k # ks) =
     and_then (container_address lib container_name info opts k) (\<lambda>opts'.
     container_addresses lib container_name info opts' ks)"

definition docker_util :: "bool \<Rightarrow> string" where
  "docker_util linux = (if \<not> linux then ''ovs-docker'' else ''lxbr-docker'')"

text \<open>Lines 584 to 607: the VLAN tag and the trunk of a new interface.\<close>

definition container_vlans :: "bool \<Rightarrow> host \<Rightarrow> string \<Rightarrow> container_info \<Rightarrow> unit run" where
  "container_vlans linux host container_name info =
     (let util = docker_util linux; bridge = c_bridge info; iface = c_iface info;
          vlan = c_vlan info; trunk = c_trunk info
      in
      if \<not> truthy vlan \<and> \<not> truthy trunk then succeed ()
      else
        and_then
          (if truthy vlan then
             and_then (run_command host (DockerSetVlan util bridge iface container_name (py_str vlan)) True)
               (\<lambda>_. succeed ())
           else succeed ()) (\<lambda>_.
        if truthy trunk then
          and_then (run_command host (DockerSetTrunk util bridge iface container_name (py_str trunk)) True)
            (\<lambda>_. succeed ())
        else succeed ()))"

text \<open>
  Lines 528 to 583: the interface as the container and the switch see it, and the
  \<^verbatim>\<open>add-port\<close> command when it has to be made. The result tells whether the function goes
  on to the VLAN settings (\<open>True\<close>) or has returned (\<open>False\<close>).
\<close>

definition container_port ::
  "bool \<Rightarrow> host \<Rightarrow> string \<Rightarrow> container_info \<Rightarrow> (string \<times> string) list \<Rightarrow> bool run"
where
  "container_port linux host container_name info opts =
     (let util = docker_util linux; bridge = c_bridge info; iface = c_iface info;
          macaddress = (case c_macaddress info of None \<Rightarrow> [] | Some m \<Rightarrow> m);
          opts' = (if macaddress \<noteq> [] then opts @ [(''macaddress'', macaddress)] else opts);
          cmd = DockerAddPort util bridge iface container_name opts'
      in
      and_then (run_command host (DockerExecLinkShow container_name iface) False) (\<lambda>check.
      if returncode check = 0 then
        and_then (run_command host (DockerGetPort util container_name iface) False) (\<lambda>check.
        if strip (stdout check) \<noteq> [] then
          and_then (run_command host (DockerExecLinkShowDev container_name iface) False) (\<lambda>check.
          if \<not> contains (lower macaddress) (stdout check) then
            and_then (run_command host (DockerExecLinkSetAddr container_name iface macaddress) False)
              (\<lambda>_. succeed False)
          else succeed False)
        else
          and_then (run_command host (DockerExecLinkDel container_name iface) False) (\<lambda>_.
          and_then (run_command host (DockerDelPort util bridge iface container_name) False) (\<lambda>_.
          and_then (run_command host cmd True) (\<lambda>_.
          succeed True))))
      else
        and_then (run_command host (DockerDelPort util bridge iface container_name) False) (\<lambda>_.
        and_then (run_command host cmd True) (\<lambda>_.
        succeed True))))"

text \<open>\<^verbatim>\<open>add_iface_to_container\<close>\<close>

definition add_iface_to_container ::
  "bool \<Rightarrow> pylib \<Rightarrow> host \<Rightarrow> string \<Rightarrow> container_info \<Rightarrow> unit run"
where
  "add_iface_to_container linux lib host container_name info =
     and_then (run_command host (DockerPs container_name) False) (\<lambda>check.
     if strip (stdout check) = [] then succeed ()
     else
       and_then (read_db (bridge_entry (c_bridge info))) (\<lambda>db_cache.
       if db_cache = None then raise (KeyError (c_bridge info))
       else
         and_then (container_addresses lib container_name info [] [Iprange, Ip6range]) (\<lambda>opts.
         and_then (container_port linux host container_name info opts) (\<lambda>created.
         if created then container_vlans linux host container_name info else succeed ()))))"


section \<open>Bridges and their parent interfaces\<close>

text \<open>\<^verbatim>\<open>_get_interface_ip\<close>: the addresses of an interface, none when the command fails.\<close>

definition get_interface_ip :: "host \<Rightarrow> string \<Rightarrow> string list run" where
  "get_interface_ip host interface =
     and_then (run_command host (IpAddrShow interface) False) (\<lambda>result.
     succeed (if returncode result = 0 then findall_inet (strip (stdout result)) else []))"

text \<open>
  The entry of a parent interface in a bridge's entry. The functions below fetch the
  bridge's entry with \<^verbatim>\<open>_get_db().get(bridge_name, {})\<close>: for a bridge the cache does not
  hold, what they write goes to a dictionary nobody reads again, and \<open>map_entry\<close> leaves
  the cache as it is.
\<close>

datatype vlan_key = Trunk | Native

definition info_vlan :: "vlan_key \<Rightarrow> parent_info \<Rightarrow> string option" where
  "info_vlan key parent_info = (case key of Trunk \<Rightarrow> p_trunk parent_info | Native \<Rightarrow> p_native parent_info)"

definition cached_vlan :: "vlan_key \<Rightarrow> parent_cache \<Rightarrow> string option" where
  "cached_vlan key pc = (case key of Trunk \<Rightarrow> pc_trunk pc | Native \<Rightarrow> pc_native pc)"

definition set_cached_vlan :: "vlan_key \<Rightarrow> string option \<Rightarrow> parent_cache \<Rightarrow> parent_cache" where
  "set_cached_vlan key v pc = (case key of Trunk \<Rightarrow> pc\<lparr>pc_trunk := v\<rparr> | Native \<Rightarrow> pc\<lparr>pc_native := v\<rparr>)"

definition setdefault_parent :: "string \<Rightarrow> string \<Rightarrow> lease_db \<Rightarrow> lease_db" where
  "setdefault_parent bridge_name parent =
     update_bridge bridge_name (\<lambda>c. c\<lparr>parents := setdefault parent empty_parent_cache (parents c)\<rparr>)"

definition write_parent :: "string \<Rightarrow> string \<Rightarrow> vlan_key \<Rightarrow> string option \<Rightarrow> lease_db \<Rightarrow> lease_db" where
  "write_parent bridge_name parent key v =
     update_bridge bridge_name (\<lambda>c. c\<lparr>parents := AList.map_entry parent (set_cached_vlan key v) (parents c)\<rparr>)"

definition read_parent :: "string \<Rightarrow> string \<Rightarrow> vlan_key \<Rightarrow> lease_db \<Rightarrow> string option" where
  "read_parent bridge_name parent key d =
     (case bridge_entry bridge_name d of
        None \<Rightarrow> None
      | Some c \<Rightarrow> (case map_of (parents c) parent of None \<Rightarrow> None | Some pc \<Rightarrow> cached_vlan key pc))"

text \<open>\<^verbatim>\<open>if v := parent_info.get(key): parent_cache[key] = v\<close>\<close>

definition note_vlan :: "string \<Rightarrow> string \<Rightarrow> vlan_key \<Rightarrow> string option \<Rightarrow> unit run" where
  "note_vlan bridge_name parent key v =
     (if truthy v then modify_db (write_parent bridge_name parent key v) else succeed ())"

definition when_truthy :: "string option \<Rightarrow> string option" where
  "when_truthy v = (if truthy v then v else None)"

text \<open>\<^verbatim>\<open>_add_iface_to_ovs_bridge\<close>. It reads the parent's name from \<^verbatim>\<open>parent_info\<close> again,
  as the source does.\<close>

definition add_iface_to_ovs_bridge :: "host \<Rightarrow> string \<Rightarrow> parent_info \<Rightarrow> unit run" where
  "add_iface_to_ovs_bridge host bridge_name parent_info =
     (let parent = py_str (p_iface parent_info) in
      and_then (modify_db (setdefault_parent bridge_name parent)) (\<lambda>_.
      and_then (run_command host (OvsPortToBr parent) False) (\<lambda>check.
      if strip (stdout check) \<noteq> bridge_name then
        and_then (run_command host (OvsDelPort parent) False) (\<lambda>_.
        and_then (note_vlan bridge_name parent Trunk (p_trunk parent_info)) (\<lambda>_.
        and_then (note_vlan bridge_name parent Native (p_native parent_info)) (\<lambda>_.
        and_then (run_command host
                    (OvsAddPort bridge_name parent (when_truthy (p_trunk parent_info))
                       (when_truthy (p_native parent_info))) True) (\<lambda>_.
        succeed ()))))
      else succeed ())))"

text \<open>\<^verbatim>\<open>_add_iface_to_linux_bridge\<close>, with its default name \<^verbatim>\<open>"foo"\<close>.\<close>

definition add_iface_to_linux_bridge :: "host \<Rightarrow> string \<Rightarrow> parent_info \<Rightarrow> unit run" where
  "add_iface_to_linux_bridge host bridge_name parent_info =
     (let parent = (case p_iface parent_info of None \<Rightarrow> ''foo'' | Some p \<Rightarrow> p) in
      and_then (modify_db (setdefault_parent bridge_name parent)) (\<lambda>_.
      and_then (run_command host (IpLinkShowMaster bridge_name) False) (\<lambda>check.
      and_then
        (if \<not> contains parent (stdout check) then
           and_then (run_command host (IpLinkSetNomaster parent) True) (\<lambda>_.
           and_then (run_command host (BrctlAddIf bridge_name parent) True) (\<lambda>_.
           and_then (run_command host (IpLinkSetVlanFiltering bridge_name) True) (\<lambda>_.
           succeed ())))
         else succeed ()) (\<lambda>_.
      and_then
        (if truthy (p_trunk parent_info) then
           and_then (modify_db (write_parent bridge_name parent Trunk (p_trunk parent_info))) (\<lambda>_.
           and_then (run_command host (BridgeVlanDelete parent) True) (\<lambda>_.
           for_each (\<lambda>vid. and_then (run_command host (BridgeVlanAdd parent vid False) True)
                                      (\<lambda>_. succeed ()))
             (split_on CHR '','' (py_str (p_trunk parent_info)))))
         else succeed ()) (\<lambda>_.
      if truthy (p_native parent_info) then
        and_then (modify_db (write_parent bridge_name parent Native (p_native parent_info))) (\<lambda>_.
        and_then (run_command host (BridgeVlanDelete parent) True) (\<lambda>_.
        and_then (run_command host (BridgeVlanAdd parent (py_str (p_native parent_info)) True) True) (\<lambda>_.
        succeed ())))
      else succeed ())))))"

text \<open>Lines 220 to 227: a parent given as \<^verbatim>\<open>usb:<port>\<close> is looked up in
  \<^verbatim>\<open>/sys/class/net\<close>.\<close>

definition resolve_parent :: "host \<Rightarrow> string \<Rightarrow> string run" where
  "resolve_parent host parent =
     (if contains ''usb:'' parent then
        (let usb_port = last (split_on CHR '':'' parent) in
         and_then (run_command host LsSysClassNet False) (\<lambda>devs.
         (let usb_info = filter (contains usb_port) (splitlines (stdout devs)) in
          if length usb_info > 1 then raise (ValueError AmbiguousUsbParent)
          else (case usb_info of
                  [] \<Rightarrow> raise (IndexError ListIndexOutOfRange)
                | dev # _ \<Rightarrow>
                    (let fields = split_ws dev in
                     if 8 < length fields then succeed (fields ! 8)
                     else raise (IndexError ListIndexOutOfRange))))))
      else succeed parent)"

definition vlan_option :: "vlan_key \<Rightarrow> string \<Rightarrow> string" where
  "vlan_option key v =
     (case key of Trunk \<Rightarrow> ''trunk='' @ v | Native \<Rightarrow> ''vlan_mode=native-untagged tag='' @ v)"

text \<open>The body of the loop over \<^verbatim>\<open>trunk\<close> and \<^verbatim>\<open>native\<close> (lines 238 to 258).\<close>

definition apply_vlan_setting ::
  "bool \<Rightarrow> host \<Rightarrow> string \<Rightarrow> parent_info \<Rightarrow> string \<Rightarrow> vlan_key \<Rightarrow> unit run"
where
  "apply_vlan_setting linux host bridge_name parent_info parent key =
     (let v = info_vlan key parent_info in
      and_then (read_db (read_parent bridge_name parent key)) (\<lambda>cached.
      if v \<noteq> cached then
        and_then (modify_db (write_parent bridge_name parent key v)) (\<lambda>_.
        if \<not> truthy v then succeed ()
        else if linux then
          and_then (run_command host (IpLinkSetVlanFiltering bridge_name) True) (\<lambda>_.
          and_then (run_command host (BridgeVlanDelete parent) True) (\<lambda>_.
          for_each (\<lambda>vid. and_then (run_command host (BridgeVlanAdd parent vid (key = Native)) True)
                                     (\<lambda>_. succeed ()))
            (split_on CHR '','' (py_str v))))
        else
          and_then (run_command host (OvsSetPort parent (vlan_option key (py_str v))) True) (\<lambda>_.
          succeed ()))
      else succeed ()))"

text \<open>\<^verbatim>\<open>_add_iface_to_bridge\<close>\<close>

definition add_iface_to_bridge :: "bool \<Rightarrow> host \<Rightarrow> string \<Rightarrow> parent_info \<Rightarrow> unit run" where
  "add_iface_to_bridge linux host bridge_name parent_info =
     (case p_iface parent_info of
        None \<Rightarrow> succeed ()
      | Some named \<Rightarrow>
          and_then (resolve_parent host named) (\<lambda>parent.
          and_then (modify_db (setdefault_parent bridge_name parent)) (\<lambda>_.
          and_then (run_command host (IpLinkSetUp parent) True) (\<lambda>_.
          and_then (if linux then add_iface_to_linux_bridge host bridge_name parent_info
                    else add_iface_to_ovs_bridge host bridge_name parent_info) (\<lambda>_.
          for_each (apply_vlan_setting linux host bridge_name parent_info parent) [Trunk, Native])))))"

text \<open>
  The body of the loop over the two ranges of a bridge (lines 285 to 342). The first
  step compares the range of the document with the cached one and, when they differ,
  stores the new range and an empty host map.
\<close>

definition refresh_range :: "range_key \<Rightarrow> string option \<Rightarrow> bridge_cache \<Rightarrow> bridge_cache" where
  "refresh_range k ip_range db_cache =
     (let c1 = (if ip_range \<noteq> cache_range k db_cache
                then set_cache_hosts k (Some []) (set_cache_range k ip_range db_cache)
                else db_cache)
      in case cache_hosts k c1 of None \<Rightarrow> set_cache_hosts k (Some []) c1 | Some _ \<Rightarrow> c1)"

definition pop_host :: "string \<Rightarrow> unit hosts_run" where
  "pop_host key hosts = (Inr (), AList.delete key hosts)"

definition read_hosts :: "(hosts_map \<Rightarrow> 'a) \<Rightarrow> 'a hosts_run" where
  "read_hosts f hosts = (Inr (f hosts), hosts)"

definition put_host :: "string \<Rightarrow> string \<Rightarrow> unit hosts_run" where
  "put_host key addr hosts = (Inr (), AList.update key addr hosts)"

definition bridge_range ::
  "pylib \<Rightarrow> host \<Rightarrow> string \<Rightarrow> bridge_info \<Rightarrow> range_key \<times> string option \<Rightarrow> unit run"
where
  "bridge_range lib host bridge_name info = (\<lambda>(k, ip_addr).
     (let ip_range = info_range k info in
      and_then (modify_db (update_bridge bridge_name (refresh_range k ip_range))) (\<lambda>_.
      if \<not> truthy ip_addr then
        and_then (on_hosts bridge_name k (pop_host bridge_name)) (\<lambda>_.
        and_then (run_command host (IpAddrFlush (family_flag k) bridge_name) False) (\<lambda>_.
        succeed ()))
      else
        (let addr = py_str ip_addr in
         and_then (on_hosts bridge_name k (read_hosts (\<lambda>hosts. map_of hosts bridge_name))) (\<lambda>cached.
         and_then
           (if Some addr \<noteq> cached then
              and_then (on_hosts bridge_name k (pop_host bridge_name)) (\<lambda>_.
              and_then (run_command host (IpAddrFlush (family_flag k) bridge_name) False) (\<lambda>_.
              succeed (True, True)))
            else
              and_then (get_interface_ip host bridge_name) (\<lambda>live.
              succeed (addr \<notin> set live, False))) (\<lambda>(set_ip, cache_changed).
         if set_ip then
           and_then (on_hosts bridge_name k (read_hosts (\<lambda>hosts. addr \<in> set (map snd hosts)))) (\<lambda>taken.
           if cache_changed \<and> taken then raise (ValueError BridgeAddressTaken)
           else (case interface_in_network lib addr (py_str ip_range) of
                   None \<Rightarrow> raise (ValueError InvalidAddress)
                 | Some inside \<Rightarrow>
                     if \<not> inside then raise (ValueError AddressNotInRange)
                     else
                       and_then (on_hosts bridge_name k (put_host bridge_name addr)) (\<lambda>_.
                       and_then (run_command host (IpAddrAdd addr bridge_name) True) (\<lambda>_.
                       succeed ()))))
         else succeed ()))))))"

text \<open>\<^verbatim>\<open>init_bridge\<close>\<close>

definition init_bridge :: "bool \<Rightarrow> pylib \<Rightarrow> host \<Rightarrow> string \<Rightarrow> bridge_info \<Rightarrow> unit run" where
  "init_bridge linux lib host bridge_name info =
     and_then (modify_db (\<lambda>d. d\<lparr>bridges := setdefault bridge_name empty_bridge_cache (bridges d)\<rparr>)) (\<lambda>_.
     and_then (run_command host (if linux then BrctlAddBr bridge_name else OvsAddBr bridge_name)
                 (\<not> linux)) (\<lambda>_.
     and_then (run_command host (IpLinkSetUp bridge_name) True) (\<lambda>_.
     and_then (for_each (bridge_range lib host bridge_name info)
                 [(Iprange, b_ipaddress info), (Ip6range, b_ip6address info)]) (\<lambda>_.
     for_each (add_iface_to_bridge linux host bridge_name) (b_parents info)))))"

section \<open>The pass\<close>

definition MAX_FAIL_COUNT :: int where
  "MAX_FAIL_COUNT = 2"

text \<open>The body of the \<^verbatim>\<open>try\<close> block of \<^verbatim>\<open>main\<close> (the final \<^verbatim>\<open>time.sleep\<close> has no effect
  on the cache or the host).\<close>

definition reconcile :: "bool \<Rightarrow> pylib \<Rightarrow> host \<Rightarrow> config \<Rightarrow> unit run" where
  "reconcile linux lib host cfg =
     and_then (for_each (\<lambda>(bridge, info). init_bridge linux lib host bridge info) (cfg_bridge cfg)) (\<lambda>_.
     and_then (for_each (\<lambda>(container, iface_info).
                  for_each (add_iface_to_container linux lib host container) iface_info)
                 (cfg_container cfg)) (\<lambda>_.
     if \<not> linux then
       for_each (\<lambda>translation. create_veth_pair lib host (t_on translation) (t_map translation))
         (cfg_vlan_translations cfg)
     else succeed ()))"

text \<open>\<^verbatim>\<open>except (CalledProcessError, ValueError, IndexError)\<close>\<close>

fun caught :: "py_error \<Rightarrow> bool" where
  "caught (CalledProcessError c) = True"
| "caught (ValueError v) = True"
| "caught (IndexError i) = True"
| "caught other = False"

text \<open>
  How the process ends: the pass ran through, the pass raised an exception that \<^verbatim>\<open>main\<close>
  caught and logged, \<^verbatim>\<open>sys.exit\<close> was called, or an exception left \<^verbatim>\<open>main\<close>. \<open>dumped\<close> is
  what \<^verbatim>\<open>json.dump\<close> wrote to \<^verbatim>\<open>/tmp/db.json\<close>, \<open>None\<close> when the file was not written.
\<close>

datatype ending = PassCompleted | PassFailed py_error | SysExit int | Uncaught py_error

record outcome =
  ending :: ending
  dumped :: "lease_db option"
  final :: pstate

text \<open>Lines 632 to 635: \<^verbatim>\<open>_check_ovs_module\<close>, or the \<^verbatim>\<open>sysctl\<close> call of the Linux bridge
  mode. The result is how the process ends here, if it does.\<close>

definition startup :: "bool \<Rightarrow> host \<Rightarrow> pstate \<Rightarrow> ending option \<times> pstate" where
  "startup linux host s =
     (if \<not> linux then
        (case run_command host Lsmod True s of
           (Inl e, s1) \<Rightarrow> (Some (Uncaught e), s1)
         | (Inr lsmod_out, s1) \<Rightarrow>
             (case run_command host GrepOpenvswitch True s1 of
                (Inl e, s2) \<Rightarrow> (Some (SysExit 1), s2)
              | (Inr _, s2) \<Rightarrow> (None, s2)))
      else
        (case run_command host Sysctl True s of
           (Inl e, s1) \<Rightarrow> (Some (Uncaught e), s1)
         | (Inr _, s1) \<Rightarrow> (None, s1)))"

text \<open>
  \<^verbatim>\<open>main\<close>. Its inputs are whether the Docker socket exists, the mode, the document as
  \<^verbatim>\<open>json.load\<close> returned it, and the state at the start: the cache as loaded from
  \<^verbatim>\<open>/tmp/db.json\<close> and the commands earlier passes have run on the host.
\<close>

definition main :: "bool \<Rightarrow> bool \<Rightarrow> pylib \<Rightarrow> host \<Rightarrow> config \<Rightarrow> pstate \<Rightarrow> outcome" where
  "main docker_socket linux lib host cfg s0 =
     (if \<not> docker_socket then \<lparr>ending = SysExit 1, dumped = None, final = s0\<rparr>
      else
        (case startup linux host s0 of
           (Some e, s1) \<Rightarrow> \<lparr>ending = e, dumped = None, final = s1\<rparr>
         | (None, s1) \<Rightarrow>
             (let fail_count = (case failed (db s1) of None \<Rightarrow> 0 | Some n \<Rightarrow> n);
                  s2 = s1\<lparr>db := (db s1)\<lparr>failed := Some fail_count\<rparr>\<rparr>
              in
              if fail_count > MAX_FAIL_COUNT then \<lparr>ending = SysExit 1, dumped = None, final = s2\<rparr>
              else
                (case reconcile linux lib host cfg s2 of
                   (Inr _, s3) \<Rightarrow> \<lparr>ending = PassCompleted, dumped = Some (db s3), final = s3\<rparr>
                 | (Inl e, s3) \<Rightarrow>
                     if caught e then
                       (let s4 = s3\<lparr>db := (db s3)\<lparr>failed := Some (fail_count + 1)\<rparr>\<rparr>
                        in \<lparr>ending = PassFailed e, dumped = Some (db s4), final = s4\<rparr>)
                     else \<lparr>ending = Uncaught e, dumped = Some (db s3), final = s3\<rparr>))))"


section \<open>An example library and an example host\<close>

text \<open>
  The examples below need values for the parameters. \<open>ipv4_lib\<close> follows Python's
  \<^verbatim>\<open>ipaddress\<close> module on IPv4 text in prefix-length notation: four decimal octets
  without leading zeros, a prefix length up to 32, and for a network no host bits set.
  \<^verbatim>\<open>hosts()\<close> of a network leaves out the network and the broadcast address, except for
  a prefix length of 31 (both addresses) and of 32 (a list of the one address). IPv6
  text and netmask notation are outside this instance, which reads them as invalid. The
  digests are those of the two mapping strings the examples use.
\<close>

definition parse_decimal :: "string \<Rightarrow> nat option" where
  "parse_decimal s =
     (if s \<noteq> [] \<and> list_all is_digit s
      then Some (foldl (\<lambda>n c. 10 * n + (of_char c - 48)) 0 s) else None)"

definition parse_octet :: "string \<Rightarrow> nat option" where
  "parse_octet s =
     (case parse_decimal s of
        None \<Rightarrow> None
      | Some n \<Rightarrow>
          if length s \<le> 3 \<and> (length s = 1 \<or> hd s \<noteq> CHR ''0'') \<and> n \<le> 255 then Some n else None)"

definition parse_ipv4 :: "string \<Rightarrow> nat option" where
  "parse_ipv4 s =
     (case map parse_octet (split_on CHR ''.'' s) of
        [Some a, Some b, Some c, Some d] \<Rightarrow> Some (((a * 256 + b) * 256 + c) * 256 + d)
      | _ \<Rightarrow> None)"

definition parse_prefixlen :: "string \<Rightarrow> nat option" where
  "parse_prefixlen s =
     (case parse_decimal s of None \<Rightarrow> None | Some n \<Rightarrow> if n \<le> 32 then Some n else None)"

definition show_octet :: "nat \<Rightarrow> string" where
  "show_octet n =
     (if n < 10 then [''0123456789'' ! n]
      else if n < 100 then [''0123456789'' ! (n div 10), ''0123456789'' ! (n mod 10)]
      else [''0123456789'' ! (n div 100), ''0123456789'' ! (n div 10 mod 10),
            ''0123456789'' ! (n mod 10)])"

definition show_ipv4 :: "nat \<Rightarrow> string" where
  "show_ipv4 n =
     show_octet (n div 16777216) @ ''.'' @ show_octet (n div 65536 mod 256) @ ''.''
       @ show_octet (n div 256 mod 256) @ ''.'' @ show_octet (n mod 256)"

definition ipv4_interface :: "string \<Rightarrow> (nat \<times> nat) option" where
  "ipv4_interface s =
     (case split_on CHR ''/'' s of
        [a] \<Rightarrow> (case parse_ipv4 a of None \<Rightarrow> None | Some n \<Rightarrow> Some (n, 32))
      | [a, p] \<Rightarrow> (case (parse_ipv4 a, parse_prefixlen p) of
                     (Some n, Some l) \<Rightarrow> Some (n, l)
                   | _ \<Rightarrow> None)
      | _ \<Rightarrow> None)"

definition ipv4_network :: "string \<Rightarrow> (nat \<times> nat) option" where
  "ipv4_network s =
     (case ipv4_interface s of
        None \<Rightarrow> None
      | Some (n, l) \<Rightarrow> if n mod 2 ^ (32 - l) = 0 then Some (n, l) else None)"

definition ipv4_hosts :: "string \<Rightarrow> hosts_result" where
  "ipv4_hosts s =
     (case ipv4_network s of
        None \<Rightarrow> InvalidNetwork
      | Some (n, l) \<Rightarrow>
          if l = 32 then HostList [show_ipv4 n]
          else if l = 31 then HostGenerator (map show_ipv4 [n, n + 1])
          else HostGenerator (map show_ipv4 [n + 1 ..< n + 2 ^ (32 - l) - 1]))"

definition ipv4_in_network :: "string \<Rightarrow> string \<Rightarrow> bool option" where
  "ipv4_in_network a r =
     (case (ipv4_interface a, ipv4_network r) of
        (Some (n, _), Some (m, l)) \<Rightarrow> Some (n div 2 ^ (32 - l) = m div 2 ^ (32 - l))
      | _ \<Rightarrow> None)"

definition ipv4_lib :: pylib where
  "ipv4_lib =
     \<lparr>network_hosts = ipv4_hosts,
      interface_family = (\<lambda>a. case ipv4_interface a of None \<Rightarrow> None | Some _ \<Rightarrow> Some IPv4),
      interface_in_network = ipv4_in_network,
      sha256_hexdigest = (\<lambda>s.
        if s = ''100:200'' then ''4e0f0408943c779856b562bd1263a7e8e0d8ae8d10501b54823cdd45d83ad81d''
        else if s = ''10:20'' then ''5e1b18e06bb9b065a903bd507e7a0c496e7d13fa7a87935d8eee08b7dc1bcf0f''
        else [])\<rparr>"

text \<open>
  \<open>example_host running\<close> is a host that does what it is told and answers from what it
  was told: every command succeeds, a link exists once it was added, a port is on the
  bridge it was last added to, an interface carries the addresses added since the last
  flush of their family (an address with a colon is an IPv6 address), and the containers
  named in \<open>running\<close> are up.
\<close>

definition done_ok :: proc where
  "done_ok = \<lparr>returncode = 0, stdout = []\<rparr>"

definition is_veth_of :: "string \<Rightarrow> command \<Rightarrow> bool" where
  "is_veth_of v c = (case c of IpLinkAddVeth a b \<Rightarrow> v = a \<or> v = b | _ \<Rightarrow> False)"

definition added_to :: "string \<Rightarrow> command \<Rightarrow> string option" where
  "added_to p c = (case c of OvsAddPort b q tr nv \<Rightarrow> if q = p then Some b else None | _ \<Rightarrow> None)"

definition is_port_of :: "string \<Rightarrow> string \<Rightarrow> command \<Rightarrow> bool" where
  "is_port_of cn i c = (case c of DockerAddPort u b j d opts \<Rightarrow> j = i \<and> d = cn | _ \<Rightarrow> False)"

definition address_step :: "string \<Rightarrow> string list \<Rightarrow> command \<Rightarrow> string list" where
  "address_step i acc c =
     (case c of
        IpAddrAdd a d \<Rightarrow> if d = i then acc @ [a] else acc
      | IpAddrFlush fam d \<Rightarrow>
          if d = i then filter (\<lambda>a. contains '':'' a = (fam = ''-4'')) acc else acc
      | _ \<Rightarrow> acc)"

definition example_host :: "string list \<Rightarrow> host" where
  "example_host running history cmd =
     (case cmd of
        IpLinkShow v \<Rightarrow>
          \<lparr>returncode = (if list_ex (is_veth_of v) history then 0 else 1), stdout = []\<rparr>
      | OvsPortToBr p \<Rightarrow>
          (case List.map_filter (added_to p) history of
             [] \<Rightarrow> \<lparr>returncode = 1, stdout = []\<rparr>
           | b # bs \<Rightarrow> \<lparr>returncode = 0, stdout = last (b # bs) @ [CHR 0x0A]\<rparr>)
      | IpAddrShow i \<Rightarrow>
          \<lparr>returncode = 0,
           stdout = concat (map (\<lambda>a. ''2: '' @ i @ ''    inet '' @ a @ '' scope global '' @ i @ [CHR 0x0A])
                              (foldl (address_step i) [] history))\<rparr>
      | DockerPs cn \<Rightarrow>
          \<lparr>returncode = 0, stdout = (if cn \<in> set running then ''4f1a9c02d7e3'' @ [CHR 0x0A] else [])\<rparr>
      | DockerExecLinkShow cn i \<Rightarrow>
          \<lparr>returncode = (if list_ex (is_port_of cn i) history then 0 else 1), stdout = []\<rparr>
      | DockerGetPort u cn i \<Rightarrow>
          \<lparr>returncode = 0, stdout = (if list_ex (is_port_of cn i) history then ''5a1e2b3c4d5e_l'' else [])\<rparr>
      | _ \<Rightarrow> done_ok)"

definition empty_db :: lease_db where
  "empty_db = \<lparr>bridges = [], failed = None\<rparr>"

definition fresh :: pstate where
  "fresh = \<lparr>db = empty_db, issued = []\<rparr>"

section \<open>Words for the statements\<close>

text \<open>\<open>emits P m\<close>: whatever the state, \<open>m\<close> only adds commands to those run so far, and
  every command it adds satisfies \<open>P\<close>.\<close>

definition emits :: "(command \<Rightarrow> bool) \<Rightarrow> 'a run \<Rightarrow> bool" where
  "emits P m = (\<forall>s. \<exists>cs. issued (snd (m s)) = issued s @ cs \<and> list_all P cs)"

text \<open>A command that names one end of the pair, and a command that makes a pair.\<close>

definition about_pair :: "string \<times> string \<Rightarrow> command \<Rightarrow> bool" where
  "about_pair = (\<lambda>(veth0, veth1) c.
     case c of
       IpLinkShow v \<Rightarrow> v = veth0
     | IpLinkAddVeth a b \<Rightarrow> a = veth0 \<and> b = veth1
     | IpLinkSetDevUp v \<Rightarrow> v = veth0 \<or> v = veth1
     | OvsPortToBr p \<Rightarrow> p = veth0 \<or> p = veth1
     | OvsAddPort b p tr nv \<Rightarrow> p = veth0 \<or> p = veth1
     | OvsSetPort p opt \<Rightarrow> p = veth0 \<or> p = veth1
     | _ \<Rightarrow> False)"

definition makes_pair :: "command \<Rightarrow> bool" where
  "makes_pair c = (case c of IpLinkAddVeth a b \<Rightarrow> True | IpLinkSetDevUp v \<Rightarrow> True | _ \<Rightarrow> False)"

definition hosts_of :: "range_key \<Rightarrow> string \<Rightarrow> pstate \<Rightarrow> hosts_map option" where
  "hosts_of k bridge s =
     (case bridge_entry bridge (db s) of None \<Rightarrow> None | Some c \<Rightarrow> cache_hosts k c)"

definition other_family :: "range_key \<Rightarrow> range_key" where
  "other_family k = (case k of Iprange \<Rightarrow> Ip6range | Ip6range \<Rightarrow> Iprange)"

definition unchanged :: "(lease_db \<Rightarrow> 'b) \<Rightarrow> 'a run \<Rightarrow> bool" where
  "unchanged proj m = (\<forall>s. proj (db (snd (m s))) = proj (db s))"

definition triple :: "(pstate \<Rightarrow> bool) \<Rightarrow> 'a run \<Rightarrow> (py_error + 'a \<Rightarrow> pstate \<Rightarrow> bool) \<Rightarrow> bool" where
  "triple P m Q = (\<forall>s. P s \<longrightarrow> Q (fst (m s)) (snd (m s)))"

definition lease :: "range_key \<Rightarrow> string \<Rightarrow> lease_db \<Rightarrow> string option \<times> hosts_map option" where
  "lease k b d = (case bridge_entry b d of
                    None \<Rightarrow> (None, None)
                  | Some c \<Rightarrow> (cache_range k c, cache_hosts k c))"

definition bridge_address :: "range_key \<Rightarrow> bridge_info \<Rightarrow> string option" where
  "bridge_address k info = (case k of Iprange \<Rightarrow> b_ipaddress info | Ip6range \<Rightarrow> b_ip6address info)"

definition br0_old :: pstate where
  "br0_old =
     \<lparr>db = \<lparr>bridges = [(''br0'', \<lparr>iprange = Some ''10.0.0.0/24'', ip6range = None,
                                     iprange_hosts = Some [(''br0'', ''10.0.0.1/24''), (''c1'', ''10.0.0.6/24'')],
                                     ip6range_hosts = Some [], parents = []\<rparr>)],
             failed = Some 0\<rparr>,
      issued = []\<rparr>"

definition br0_moved :: bridge_info where
  "br0_moved = \<lparr>b_parents = [], b_iprange = Some ''10.0.1.0/24'', b_ip6range = None,
                 b_ipaddress = Some ''10.0.1.1/24'', b_ip6address = None\<rparr>"


definition leases :: "string \<Rightarrow> lease_db \<Rightarrow> (range_key \<Rightarrow> string option) \<times> (range_key \<Rightarrow> hosts_map option)" where
  "leases b d = (case bridge_entry b d of
                   None \<Rightarrow> (\<lambda>k. None, \<lambda>k. None)
                 | Some c \<Rightarrow> (\<lambda>k. cache_range k c, \<lambda>k. cache_hosts k c))"

definition fail_count_of :: "pstate \<Rightarrow> int" where
  "fail_count_of s = (case failed (db s) of None \<Rightarrow> 0 | Some n \<Rightarrow> n)"

definition one_bridge :: config where
  "one_bridge =
     \<lparr>cfg_bridge = [(''br0'', \<lparr>b_parents = [], b_iprange = None, b_ip6range = None,
                                b_ipaddress = None, b_ip6address = None\<rparr>)],
      cfg_container = [], cfg_vlan_translations = []\<rparr>"

definition no_link_host :: host where
  "no_link_host history cmd =
     (case cmd of IpLinkSetUp d \<Rightarrow> \<lparr>returncode = 1, stdout = []\<rparr> | _ \<Rightarrow> done_ok)"

definition next_start :: "pstate \<Rightarrow> outcome \<Rightarrow> pstate" where
  "next_start s out =
     \<lparr>db = (case dumped out of None \<Rightarrow> db s | Some d \<Rightarrow> d), issued = issued (final out)\<rparr>"

definition failing_pass :: "pstate \<Rightarrow> outcome" where
  "failing_pass s = main True False ipv4_lib no_link_host one_bridge s"

definition after_failing :: "pstate \<Rightarrow> pstate" where
  "after_failing s = next_start s (failing_pass s)"

definition eth1_on_br0 :: container_info where
  "eth1_on_br0 =
     \<lparr>c_iface = ''eth1'', c_bridge = ''br0'', c_vlan = None, c_trunk = None,
      c_ipaddress = None, c_ip6address = None, c_gateway = None, c_gateway6 = None,
      c_macaddress = None\<rparr>"

definition net_of :: "string \<Rightarrow> (string \<times> container_info list) list \<Rightarrow> config" where
  "net_of ip_range containers =
     \<lparr>cfg_bridge = [(''br0'', \<lparr>b_parents = [], b_iprange = Some ip_range, b_ip6range = None,
                                b_ipaddress = None, b_ip6address = None\<rparr>)],
      cfg_container = containers,
      cfg_vlan_translations = []\<rparr>"

definition small_net :: config where
  "small_net = net_of ''10.0.0.0/28'' [(''c1'', [eth1_on_br0])]"

definition tiny_net :: config where
  "tiny_net = net_of ''10.0.0.0/30'' [(''c1'', [eth1_on_br0])]"

definition home_net :: config where
  "home_net = net_of ''192.168.0.0/24'' [(''c1'', [eth1_on_br0]), (''c2'', [eth1_on_br0])]"

definition after_small_net :: pstate where
  "after_small_net =
     \<lparr>db = \<lparr>bridges = [(''br0'', \<lparr>iprange = Some ''10.0.0.0/28'', ip6range = None,
                                     iprange_hosts = Some [(''c1'', ''10.0.0.6/28'')],
                                     ip6range_hosts = Some [], parents = []\<rparr>)],
             failed = None\<rparr>,
      issued = [OvsAddBr ''br0'', IpLinkSetUp ''br0'', IpAddrFlush ''-4'' ''br0'',
                IpAddrFlush ''-6'' ''br0'', DockerPs ''c1'', DockerExecLinkShow ''c1'' ''eth1'',
                DockerDelPort ''ovs-docker'' ''br0'' ''eth1'' ''c1'',
                DockerAddPort ''ovs-docker'' ''br0'' ''eth1'' ''c1'' [(''ipaddress'', ''10.0.0.6/28'')]]\<rparr>"

definition own :: "range_key \<Rightarrow> string \<Rightarrow> lease_db \<Rightarrow> string option \<times> string option option" where
  "own k b d = (fst (lease k b d), map_option (\<lambda>h. map_of h b) (snd (lease k b d)))"

definition parent_record :: "string \<Rightarrow> string \<Rightarrow> lease_db \<Rightarrow> parent_cache option" where
  "parent_record b n d =
     (case bridge_entry b d of None \<Rightarrow> None | Some c \<Rightarrow> map_of (parents c) n)"


definition bridge_recorded :: "string \<Rightarrow> bridge_info \<Rightarrow> lease_db \<Rightarrow> bool" where
  "bridge_recorded b info d =
     ((\<forall>k. own k b d = (info_range k info, Some (when_truthy (bridge_address k info))))
      \<and> (\<forall>p\<in>set (b_parents info). \<forall>n. p_iface p = Some n \<longrightarrow>
            parent_record b n d = Some \<lparr>pc_trunk = p_trunk p, pc_native = p_native p\<rparr>))"

definition recorded :: "config \<Rightarrow> lease_db \<Rightarrow> bool" where
  "recorded cfg d = (\<forall>(b, info)\<in>set (cfg_bridge cfg). bridge_recorded b info d)"



definition steady_command :: "config \<Rightarrow> command \<Rightarrow> bool" where
  "steady_command cfg c =
     (case c of
        OvsAddBr b \<Rightarrow> b \<in> fst ` set (cfg_bridge cfg)
      | IpLinkSetUp d \<Rightarrow>
          d \<in> fst ` set (cfg_bridge cfg)
          \<or> list_ex (\<lambda>(b, info). Some d \<in> p_iface ` set (b_parents info)) (cfg_bridge cfg)
      | IpAddrFlush fam b \<Rightarrow>
          list_ex (\<lambda>(b', info). b' = b
                     \<and> list_ex (\<lambda>k. fam = family_flag k \<and> \<not> truthy (bridge_address k info))
                          [Iprange, Ip6range])
            (cfg_bridge cfg)
      | _ \<Rightarrow> is_query c)"

definition answered :: "pylib \<Rightarrow> config \<Rightarrow> command \<Rightarrow> proc \<Rightarrow> bool" where
  "answered lib cfg c r =
     (case c of
        IpAddrShow i \<Rightarrow>
          list_all (\<lambda>(b, info). b = i \<longrightarrow>
                      list_all (\<lambda>k. truthy (bridge_address k info) \<longrightarrow>
                                  returncode r = 0
                                  \<and> py_str (bridge_address k info) \<in> set (findall_inet (strip (stdout r))))
                        [Iprange, Ip6range])
            (cfg_bridge cfg)
      | OvsPortToBr p \<Rightarrow>
          list_all (\<lambda>(b, info). Some p \<in> p_iface ` set (b_parents info) \<longrightarrow> strip (stdout r) = b)
            (cfg_bridge cfg)
          \<and> list_all (\<lambda>t. p = fst (veth_names lib (t_map t)) \<or> p = snd (veth_names lib (t_map t))
                              \<longrightarrow> returncode r \<noteq> 1)
               (cfg_vlan_translations cfg)
      | IpLinkShow v \<Rightarrow> returncode r = 0
      | DockerExecLinkShow cn i \<Rightarrow> returncode r = 0
      | DockerGetPort u cn i \<Rightarrow> strip (stdout r) \<noteq> []
      | DockerExecLinkShowDev cn i \<Rightarrow>
          list_all (\<lambda>(cn', infos). cn' = cn \<longrightarrow>
                      list_all (\<lambda>info. c_iface info = i \<longrightarrow>
                                  contains (lower (case c_macaddress info of None \<Rightarrow> [] | Some m \<Rightarrow> m))
                                    (stdout r))
                        infos)
            (cfg_container cfg)
      | _ \<Rightarrow> True)"

definition applied_run :: "pylib \<Rightarrow> host \<Rightarrow> config \<Rightarrow> nat \<Rightarrow> command list \<Rightarrow> bool" where
  "applied_run lib host cfg n trace =
     list_all (\<lambda>i. answered lib cfg (trace ! i) (host (take i trace) (trace ! i))) [n ..< length trace]"

definition on_course :: "config \<Rightarrow> command list \<Rightarrow> (lease_db \<Rightarrow> bool) \<Rightarrow> pstate \<Rightarrow> bool" where
  "on_course cfg base D s =
     (D (db s) \<and> (\<exists>cs. issued s = base @ cs \<and> list_all (steady_command cfg) cs))"

definition settled ::
  "pylib \<Rightarrow> host \<Rightarrow> config \<Rightarrow> nat \<Rightarrow> (pstate \<Rightarrow> bool) \<Rightarrow> 'a run
     \<Rightarrow> (py_error + 'a \<Rightarrow> pstate \<Rightarrow> bool) \<Rightarrow> bool"
where
  "settled lib host cfg n P m Q =
     triple P m (\<lambda>r s. applied_run lib host cfg n (issued s) \<longrightarrow> Q r s)"







definition lab_first_commands :: "command list" where
  "lab_first_commands =
     [Lsmod, GrepOpenvswitch, OvsAddBr ''br0'', IpLinkSetUp ''br0'',
      IpAddrFlush ''-4'' ''br0'', IpAddrAdd ''10.0.0.1/24'' ''br0'',
      IpAddrFlush ''-6'' ''br0'', IpLinkSetUp ''eth0'',
      OvsPortToBr ''eth0'', OvsDelPort ''eth0'',
      OvsAddPort ''br0'' ''eth0'' (Some ''10,20'') None,
      DockerPs ''c1'', DockerExecLinkShow ''c1'' ''eth1'',
      DockerDelPort ''ovs-docker'' ''br0'' ''eth1'' ''c1'',
      DockerAddPort ''ovs-docker'' ''br0'' ''eth1'' ''c1'' [(''ipaddress'', ''10.0.0.6/24'')],
      IpLinkShow ''v0_4e0f0408'',
      IpLinkAddVeth ''v0_4e0f0408'' ''v1_4e0f0408'',
      IpLinkSetDevUp ''v0_4e0f0408'', IpLinkSetDevUp ''v1_4e0f0408'',
      OvsPortToBr ''v0_4e0f0408'',
      OvsAddPort ''br0'' ''v0_4e0f0408'' None None,
      OvsSetPort ''v0_4e0f0408'' ''tag=100'',
      OvsPortToBr ''v1_4e0f0408'',
      OvsAddPort ''br0'' ''v1_4e0f0408'' None None,
      OvsSetPort ''v1_4e0f0408'' ''tag=200'']"

definition lab_second_commands :: "command list" where
  "lab_second_commands =
     [Lsmod, GrepOpenvswitch, OvsAddBr ''br0'', IpLinkSetUp ''br0'', IpAddrShow ''br0'',
      IpAddrFlush ''-6'' ''br0'', IpLinkSetUp ''eth0'', OvsPortToBr ''eth0'',
      DockerPs ''c1'', DockerExecLinkShow ''c1'' ''eth1'',
      DockerGetPort ''ovs-docker'' ''c1'' ''eth1'', DockerExecLinkShowDev ''c1'' ''eth1'',
      IpLinkShow ''v0_4e0f0408'', OvsPortToBr ''v0_4e0f0408'', OvsPortToBr ''v1_4e0f0408'']"

definition distinct_hosts :: "bridge_cache \<Rightarrow> bool" where
  "distinct_hosts c =
     list_all (\<lambda>k. case cache_hosts k c of None \<Rightarrow> True | Some h \<Rightarrow> distinct (map snd h))
       [Iprange, Ip6range]"

definition distinct_leases :: "lease_db \<Rightarrow> bool" where
  "distinct_leases d = list_all (\<lambda>(b, c). distinct_hosts c) (bridges d)"



section \<open>Properties of computations\<close>

lemmas run_defs = and_then_def succeed_def raise_def run_command_def modify_db_def read_db_def

lemma emits_succeed: "emits P (succeed x)"
  by (simp add: emits_def succeed_def)

lemma emits_raise: "emits P (raise e)"
  by (simp add: emits_def raise_def)

lemma emits_modify_db: "emits P (modify_db f)"
  by (simp add: emits_def modify_db_def)

lemma emits_read_db: "emits P (read_db f)"
  by (simp add: emits_def read_db_def)

lemma emits_run_command: "P c \<Longrightarrow> emits P (run_command host c chk)"
  by (simp add: emits_def run_command_def Let_def)

lemma emits_and_then:
  assumes "emits P m" and "\<And>x. emits P (f x)"
  shows "emits P (and_then m f)"
proof (unfold emits_def, intro allI)
  fix s
  obtain r s1 where ms: "m s = (r, s1)" by (cases "m s")
  from assms(1) have "\<exists>cs. issued (snd (m s)) = issued s @ cs \<and> list_all P cs"
    unfolding emits_def by blast
  with ms obtain cs where cs: "issued s1 = issued s @ cs" "list_all P cs"
    by auto
  show "\<exists>cs. issued (snd (and_then m f s)) = issued s @ cs \<and> list_all P cs"
  proof (cases r)
    case (Inl e)
    with ms cs show ?thesis by (simp add: and_then_def)
  next
    case (Inr x)
    from assms(2)[of x] have "\<exists>ds. issued (snd (f x s1)) = issued s1 @ ds \<and> list_all P ds"
      unfolding emits_def by blast
    then obtain ds where ds: "issued (snd (f x s1)) = issued s1 @ ds" "list_all P ds"
      by auto
    with ms cs Inr show ?thesis by (simp add: and_then_def)
  qed
qed

lemma emits_for_each:
  assumes "\<And>x. x \<in> set xs \<Longrightarrow> emits P (body x)"
  shows "emits P (for_each body xs)"
  using assms by (induction xs) (auto intro!: emits_and_then emits_succeed)

lemma emits_if: "emits P a \<Longrightarrow> emits P b \<Longrightarrow> emits P (if c then a else b)"
  by simp

lemmas emits_intros = emits_and_then emits_succeed emits_raise emits_modify_db emits_read_db
  emits_if emits_for_each

section \<open>VLAN translation: names and endpoints\<close>

lemma emits_attach_veth:
  assumes "P (OvsPortToBr v)" "P (OvsAddPort b v None None)" "P (OvsSetPort v (''tag='' @ t))"
  shows "emits P (attach_veth host b (v, t))"
  unfolding attach_veth_def prod.case
  by (intro emits_intros emits_run_command assms)

lemma veth_exists_run:
  "veth_exists host v s =
     (Inr (returncode (host (issued s) (IpLinkShow v)) = 0), s\<lparr>issued := issued s @ [IpLinkShow v]\<rparr>)"
  by (simp add: veth_exists_def run_defs Let_def)

lemma emits_attach_pair:
  assumes "\<And>p. p = v0 \<or> p = v1 \<Longrightarrow> P (OvsPortToBr p)"
    and "\<And>p. p = v0 \<or> p = v1 \<Longrightarrow> P (OvsAddPort b p None None)"
    and "\<And>p opt. p = v0 \<or> p = v1 \<Longrightarrow> P (OvsSetPort p opt)"
  shows "emits P (for_each (attach_veth host b) [(v0, src), (v1, dst)])"
  by (rule emits_for_each) (auto intro!: emits_attach_veth assms)

lemma emits_make_pair:
  assumes "P (IpLinkAddVeth v0 v1)" "P (IpLinkSetDevUp v0)" "P (IpLinkSetDevUp v1)"
  shows "emits P (and_then (run_command host (IpLinkAddVeth v0 v1) True) (\<lambda>_.
                  and_then (run_command host (IpLinkSetDevUp v0) True) (\<lambda>_.
                  and_then (run_command host (IpLinkSetDevUp v1) True) (\<lambda>_. succeed ()))))"
  by (intro emits_intros emits_run_command assms)

lemma create_veth_pair_two:
  assumes "split_on CHR '':'' vlan_map = [src, dst]" and "veth_names lib vlan_map = (v0, v1)"
  shows "create_veth_pair lib host b vlan_map s =
     and_then
       (if returncode (host (issued s) (IpLinkShow v0)) \<noteq> 0 then
          and_then (run_command host (IpLinkAddVeth v0 v1) True) (\<lambda>_.
          and_then (run_command host (IpLinkSetDevUp v0) True) (\<lambda>_.
          and_then (run_command host (IpLinkSetDevUp v1) True) (\<lambda>_. succeed ())))
        else succeed ())
       (\<lambda>_. for_each (attach_veth host b) [(v0, src), (v1, dst)])
       (s\<lparr>issued := issued s @ [IpLinkShow v0]\<rparr>)"
  using assms by (simp add: create_veth_pair_def veth_exists_run and_then_def)

lemma create_veth_pair_other:
  assumes "length (split_on CHR '':'' vlan_map) \<noteq> 2"
  shows "create_veth_pair lib host b vlan_map s = (Inl (ValueError UnpackMismatch), s)"
  using assms by (auto simp: create_veth_pair_def raise_def split: list.splits)


lemmas example_eval = example_host_def is_veth_of_def added_to_def is_port_of_def address_step_def
  done_ok_def List.map_filter_simps fresh_def empty_db_def

lemma example_names: "veth_names ipv4_lib ''100:200'' = (''v0_4e0f0408'', ''v1_4e0f0408'')"
  by (simp add: veth_names_def hash_string_def ipv4_lib_def Let_def)

lemma example_digest: "take 8 (sha256_hexdigest ipv4_lib ''100:200'') = ''4e0f0408''"
  by (simp add: ipv4_lib_def)

lemma example_parts: "split_on CHR '':'' ''100:200'' = [''100'', ''200'']"
  by (simp add: split_on_def)

lemma example_first_translation:
  "create_veth_pair ipv4_lib (example_host []) ''brX'' ''100:200'' fresh =
     (Inr (), \<lparr>db = empty_db,
               issued = [IpLinkShow ''v0_4e0f0408'',
                         IpLinkAddVeth ''v0_4e0f0408'' ''v1_4e0f0408'',
                         IpLinkSetDevUp ''v0_4e0f0408'', IpLinkSetDevUp ''v1_4e0f0408'',
                         OvsPortToBr ''v0_4e0f0408'', OvsAddPort ''brX'' ''v0_4e0f0408'' None None,
                         OvsSetPort ''v0_4e0f0408'' ''tag=100'',
                         OvsPortToBr ''v1_4e0f0408'', OvsAddPort ''brX'' ''v1_4e0f0408'' None None,
                         OvsSetPort ''v1_4e0f0408'' ''tag=200'']\<rparr>)"
  by (simp add: create_veth_pair_two[OF example_parts example_names] run_defs attach_veth_def
        example_eval Let_def)

text \<open>
  Claim C9. The two names of the pair behind a mapping string are \<^verbatim>\<open>v0_\<close> and \<^verbatim>\<open>v1_\<close>
  followed by the first 8 digits of the SHA-256 digest of the literal string; nothing
  else enters them. In every run of \<^verbatim>\<open>create_veth_pair\<close>, on any host, bridge and state,
  every command run names these two ends and no other link or port, and the first
  command (for a mapping of two parts) asks whether the first end exists. When the host
  answers that it does, no command of the run adds a pair or brings an end up: the
  creation step is skipped whole.
\<close>

theorem veth_pair_named_by_mapping:
  "veth_names lib vlan_map =
     (''v0_'' @ take 8 (sha256_hexdigest lib vlan_map), ''v1_'' @ take 8 (sha256_hexdigest lib vlan_map))
   \<and> (\<exists>cs. issued (snd (create_veth_pair lib host on_bridge vlan_map s)) = issued s @ cs
          \<and> list_all (about_pair (veth_names lib vlan_map)) cs
          \<and> (length (split_on CHR '':'' vlan_map) = 2 \<longrightarrow>
                take 1 cs = [IpLinkShow (fst (veth_names lib vlan_map))])
          \<and> (returncode (host (issued s) (IpLinkShow (fst (veth_names lib vlan_map)))) = 0 \<longrightarrow>
                list_all (\<lambda>c. \<not> makes_pair c) cs))"
proof
  show "veth_names lib vlan_map =
     (''v0_'' @ take 8 (sha256_hexdigest lib vlan_map), ''v1_'' @ take 8 (sha256_hexdigest lib vlan_map))"
    by (simp add: veth_names_def hash_string_def Let_def)
next
  obtain v0 v1 where names: "veth_names lib vlan_map = (v0, v1)"
    by (cases "veth_names lib vlan_map")
  let ?run = "create_veth_pair lib host on_bridge vlan_map s"
  let ?s1 = "s\<lparr>issued := issued s @ [IpLinkShow v0]\<rparr>"
  let ?loop = "for_each (attach_veth host on_bridge)"
  show "\<exists>cs. issued (snd ?run) = issued s @ cs
          \<and> list_all (about_pair (veth_names lib vlan_map)) cs
          \<and> (length (split_on CHR '':'' vlan_map) = 2 \<longrightarrow>
                take 1 cs = [IpLinkShow (fst (veth_names lib vlan_map))])
          \<and> (returncode (host (issued s) (IpLinkShow (fst (veth_names lib vlan_map)))) = 0 \<longrightarrow>
                list_all (\<lambda>c. \<not> makes_pair c) cs)"
  proof (cases "length (split_on CHR '':'' vlan_map) = 2")
    case False
    then have "issued (snd ?run) = issued s @ []"
      by (simp add: create_veth_pair_other)
    with False show ?thesis by (intro exI[of _ "[]"]) simp
  next
    case True
    then obtain src dst where parts: "split_on CHR '':'' vlan_map = [src, dst]"
      by (cases "split_on CHR '':'' vlan_map"; simp)
         (metis length_0_conv length_Suc_conv)
    show ?thesis
    proof (cases "returncode (host (issued s) (IpLinkShow v0)) = 0")
      case exists: True
      let ?P = "\<lambda>c. about_pair (v0, v1) c \<and> \<not> makes_pair c"
      have run: "?run = ?loop [(v0, src), (v1, dst)] ?s1"
        using exists by (simp add: create_veth_pair_two[OF parts names] and_then_def succeed_def)
      have "emits ?P (?loop [(v0, src), (v1, dst)])"
        by (rule emits_attach_pair) (auto simp: about_pair_def makes_pair_def)
      then obtain cs where "issued (snd (?loop [(v0, src), (v1, dst)] ?s1)) = issued ?s1 @ cs"
        and "list_all ?P cs"
        unfolding emits_def by blast
      with run names show ?thesis
        by (intro exI[of _ "IpLinkShow v0 # cs"])
           (simp add: about_pair_def makes_pair_def list_all_iff)
    next
      case absent: False
      let ?P = "about_pair (v0, v1)"
      let ?rest = "and_then
         (and_then (run_command host (IpLinkAddVeth v0 v1) True) (\<lambda>_.
          and_then (run_command host (IpLinkSetDevUp v0) True) (\<lambda>_.
          and_then (run_command host (IpLinkSetDevUp v1) True) (\<lambda>_. succeed ()))))
         (\<lambda>_. ?loop [(v0, src), (v1, dst)])"
      have run: "?run = ?rest ?s1"
        using absent by (simp add: create_veth_pair_two[OF parts names])
      have "emits ?P ?rest"
        by (intro emits_and_then emits_make_pair emits_attach_pair)
           (auto simp: about_pair_def)
      then obtain cs where "issued (snd (?rest ?s1)) = issued ?s1 @ cs" and "list_all ?P cs"
        unfolding emits_def by blast
      with run names absent show ?thesis
        by (intro exI[of _ "IpLinkShow v0 # cs"]) (simp add: about_pair_def)
    qed
  qed
qed



theorem veth_pair_named_by_mapping_witness:
  "veth_names ipv4_lib ''100:200'' = (''v0_4e0f0408'', ''v1_4e0f0408'')
   \<and> (\<exists>cs. issued (snd (create_veth_pair ipv4_lib (example_host []) ''brY'' ''100:200''
                           (snd (create_veth_pair ipv4_lib (example_host []) ''brX'' ''100:200'' fresh))))
              = issued (snd (create_veth_pair ipv4_lib (example_host []) ''brX'' ''100:200'' fresh)) @ cs
          \<and> list_all (about_pair (''v0_4e0f0408'', ''v1_4e0f0408'')) cs
          \<and> take 1 cs = [IpLinkShow ''v0_4e0f0408'']
          \<and> list_all (\<lambda>c. \<not> makes_pair c) cs)"
proof -
  let ?s1 = "snd (create_veth_pair ipv4_lib (example_host []) ''brX'' ''100:200'' fresh)"
  have there: "returncode (example_host [] (issued ?s1) (IpLinkShow ''v0_4e0f0408'')) = 0"
    by (simp add: example_first_translation example_host_def is_veth_of_def)
  from veth_pair_named_by_mapping[of ipv4_lib "''100:200''" "example_host []" "''brY''" ?s1]
  show ?thesis
    using there by (simp add: example_names example_parts example_digest)
qed

lemma attach_veth_conflict:
  assumes "returncode (host (issued s) (OvsPortToBr v)) \<noteq> 1"
    and "strip (stdout (host (issued s) (OvsPortToBr v))) \<noteq> b"
  shows "attach_veth host b (v, t) s =
           (Inl (ValueError VethOnOtherBridge), s\<lparr>issued := issued s @ [OvsPortToBr v]\<rparr>)"
  using assms by (simp add: attach_veth_def run_defs Let_def)

lemma attach_veth_member:
  assumes "returncode (host (issued s) (OvsPortToBr v)) \<noteq> 1"
    and "strip (stdout (host (issued s) (OvsPortToBr v))) = b"
  shows "attach_veth host b (v, t) s = (Inr (), s\<lparr>issued := issued s @ [OvsPortToBr v]\<rparr>)"
  using assms by (simp add: attach_veth_def run_defs Let_def)

lemma attach_veth_fresh:
  assumes "returncode (host (issued s) (OvsPortToBr v)) = 1"
    and "returncode (host (issued s @ [OvsPortToBr v]) (OvsAddPort b v None None)) = 0"
    and "returncode (host (issued s @ [OvsPortToBr v, OvsAddPort b v None None])
                       (OvsSetPort v (''tag='' @ t))) = 0"
  shows "attach_veth host b (v, t) s =
           (Inr (), s\<lparr>issued := issued s @ [OvsPortToBr v, OvsAddPort b v None None,
                                               OvsSetPort v (''tag='' @ t)]\<rparr>)"
  using assms by (simp add: attach_veth_def run_defs Let_def)


text \<open>
  Claim C8. The loop of \<^verbatim>\<open>create_veth_pair\<close> over the two ends asks the switch for the
  bridge of each end in turn. An end the switch has on a bridge other than the target
  (return code 0 and another name) ends the run with the \<^verbatim>\<open>ValueError\<close> of line 420, at
  the first end or, when the first end is on the target or was just attached, at the
  second. An end the switch does not know (return code 1) is added to the target bridge
  and tagged, the first end with the source VLAN and the second with the destination
  VLAN. The last part ties the loop to \<^verbatim>\<open>create_veth_pair\<close>: the ends are the two names
  of the mapping, with the two parts of the mapping as their tags.
\<close>

theorem vlan_endpoints_attach_or_conflict:
  fixes host :: host and on_bridge v0 v1 src dst :: string and s :: pstate
  shows
  "(returncode (host (issued s) (OvsPortToBr v0)) = 0
      \<and> strip (stdout (host (issued s) (OvsPortToBr v0))) \<noteq> on_bridge
    \<longrightarrow> for_each (attach_veth host on_bridge) [(v0, src), (v1, dst)] s =
          (Inl (ValueError VethOnOtherBridge), s\<lparr>issued := issued s @ [OvsPortToBr v0]\<rparr>))
   \<and> (returncode (host (issued s) (OvsPortToBr v0)) = 0
      \<and> strip (stdout (host (issued s) (OvsPortToBr v0))) = on_bridge
      \<and> returncode (host (issued s @ [OvsPortToBr v0]) (OvsPortToBr v1)) = 0
      \<and> strip (stdout (host (issued s @ [OvsPortToBr v0]) (OvsPortToBr v1))) \<noteq> on_bridge
    \<longrightarrow> for_each (attach_veth host on_bridge) [(v0, src), (v1, dst)] s =
          (Inl (ValueError VethOnOtherBridge),
           s\<lparr>issued := issued s @ [OvsPortToBr v0, OvsPortToBr v1]\<rparr>))
   \<and> (returncode (host (issued s) (OvsPortToBr v0)) = 1
      \<and> returncode (host (issued s @ [OvsPortToBr v0]) (OvsAddPort on_bridge v0 None None)) = 0
      \<and> returncode (host (issued s @ [OvsPortToBr v0, OvsAddPort on_bridge v0 None None])
                       (OvsSetPort v0 (''tag='' @ src))) = 0
      \<and> returncode (host (issued s @ [OvsPortToBr v0, OvsAddPort on_bridge v0 None None,
                                        OvsSetPort v0 (''tag='' @ src)]) (OvsPortToBr v1)) = 0
      \<and> strip (stdout (host (issued s @ [OvsPortToBr v0, OvsAddPort on_bridge v0 None None,
                                           OvsSetPort v0 (''tag='' @ src)]) (OvsPortToBr v1)))
            \<noteq> on_bridge
    \<longrightarrow> for_each (attach_veth host on_bridge) [(v0, src), (v1, dst)] s =
          (Inl (ValueError VethOnOtherBridge),
           s\<lparr>issued := issued s @ [OvsPortToBr v0, OvsAddPort on_bridge v0 None None,
                                     OvsSetPort v0 (''tag='' @ src), OvsPortToBr v1]\<rparr>))
   \<and> (returncode (host (issued s) (OvsPortToBr v0)) = 1
      \<and> returncode (host (issued s @ [OvsPortToBr v0]) (OvsAddPort on_bridge v0 None None)) = 0
      \<and> returncode (host (issued s @ [OvsPortToBr v0, OvsAddPort on_bridge v0 None None])
                       (OvsSetPort v0 (''tag='' @ src))) = 0
      \<and> returncode (host (issued s @ [OvsPortToBr v0, OvsAddPort on_bridge v0 None None,
                                        OvsSetPort v0 (''tag='' @ src)]) (OvsPortToBr v1)) = 1
      \<and> returncode (host (issued s @ [OvsPortToBr v0, OvsAddPort on_bridge v0 None None,
                                        OvsSetPort v0 (''tag='' @ src), OvsPortToBr v1])
                       (OvsAddPort on_bridge v1 None None)) = 0
      \<and> returncode (host (issued s @ [OvsPortToBr v0, OvsAddPort on_bridge v0 None None,
                                        OvsSetPort v0 (''tag='' @ src), OvsPortToBr v1,
                                        OvsAddPort on_bridge v1 None None])
                       (OvsSetPort v1 (''tag='' @ dst))) = 0
    \<longrightarrow> for_each (attach_veth host on_bridge) [(v0, src), (v1, dst)] s =
          (Inr (), s\<lparr>issued := issued s @ [OvsPortToBr v0, OvsAddPort on_bridge v0 None None,
                                              OvsSetPort v0 (''tag='' @ src), OvsPortToBr v1,
                                              OvsAddPort on_bridge v1 None None,
                                              OvsSetPort v1 (''tag='' @ dst)]\<rparr>))
   \<and> (split_on CHR '':'' vlan_map = [src, dst] \<and> veth_names lib vlan_map = (v0, v1)
    \<longrightarrow> create_veth_pair lib host on_bridge vlan_map s =
          and_then
            (if returncode (host (issued s) (IpLinkShow v0)) \<noteq> 0 then
               and_then (run_command host (IpLinkAddVeth v0 v1) True) (\<lambda>_.
               and_then (run_command host (IpLinkSetDevUp v0) True) (\<lambda>_.
               and_then (run_command host (IpLinkSetDevUp v1) True) (\<lambda>_. succeed ())))
             else succeed ())
            (\<lambda>_. for_each (attach_veth host on_bridge) [(v0, src), (v1, dst)])
            (s\<lparr>issued := issued s @ [IpLinkShow v0]\<rparr>))"
proof (intro conjI impI)
  assume "returncode (host (issued s) (OvsPortToBr v0)) = 0
      \<and> strip (stdout (host (issued s) (OvsPortToBr v0))) \<noteq> on_bridge"
  then show "for_each (attach_veth host on_bridge) [(v0, src), (v1, dst)] s =
          (Inl (ValueError VethOnOtherBridge), s\<lparr>issued := issued s @ [OvsPortToBr v0]\<rparr>)"
    by (simp add: and_then_def attach_veth_conflict)
next
  assume "returncode (host (issued s) (OvsPortToBr v0)) = 0
      \<and> strip (stdout (host (issued s) (OvsPortToBr v0))) = on_bridge
      \<and> returncode (host (issued s @ [OvsPortToBr v0]) (OvsPortToBr v1)) = 0
      \<and> strip (stdout (host (issued s @ [OvsPortToBr v0]) (OvsPortToBr v1))) \<noteq> on_bridge"
  then show "for_each (attach_veth host on_bridge) [(v0, src), (v1, dst)] s =
          (Inl (ValueError VethOnOtherBridge),
           s\<lparr>issued := issued s @ [OvsPortToBr v0, OvsPortToBr v1]\<rparr>)"
    by (simp add: and_then_def attach_veth_member attach_veth_conflict)
next
  assume "returncode (host (issued s) (OvsPortToBr v0)) = 1
      \<and> returncode (host (issued s @ [OvsPortToBr v0]) (OvsAddPort on_bridge v0 None None)) = 0
      \<and> returncode (host (issued s @ [OvsPortToBr v0, OvsAddPort on_bridge v0 None None])
                       (OvsSetPort v0 (''tag='' @ src))) = 0
      \<and> returncode (host (issued s @ [OvsPortToBr v0, OvsAddPort on_bridge v0 None None,
                                        OvsSetPort v0 (''tag='' @ src)]) (OvsPortToBr v1)) = 0
      \<and> strip (stdout (host (issued s @ [OvsPortToBr v0, OvsAddPort on_bridge v0 None None,
                                           OvsSetPort v0 (''tag='' @ src)]) (OvsPortToBr v1)))
            \<noteq> on_bridge"
  then show "for_each (attach_veth host on_bridge) [(v0, src), (v1, dst)] s =
          (Inl (ValueError VethOnOtherBridge),
           s\<lparr>issued := issued s @ [OvsPortToBr v0, OvsAddPort on_bridge v0 None None,
                                     OvsSetPort v0 (''tag='' @ src), OvsPortToBr v1]\<rparr>)"
    by (simp add: and_then_def attach_veth_fresh attach_veth_conflict)
next
  assume "returncode (host (issued s) (OvsPortToBr v0)) = 1
      \<and> returncode (host (issued s @ [OvsPortToBr v0]) (OvsAddPort on_bridge v0 None None)) = 0
      \<and> returncode (host (issued s @ [OvsPortToBr v0, OvsAddPort on_bridge v0 None None])
                       (OvsSetPort v0 (''tag='' @ src))) = 0
      \<and> returncode (host (issued s @ [OvsPortToBr v0, OvsAddPort on_bridge v0 None None,
                                        OvsSetPort v0 (''tag='' @ src)]) (OvsPortToBr v1)) = 1
      \<and> returncode (host (issued s @ [OvsPortToBr v0, OvsAddPort on_bridge v0 None None,
                                        OvsSetPort v0 (''tag='' @ src), OvsPortToBr v1])
                       (OvsAddPort on_bridge v1 None None)) = 0
      \<and> returncode (host (issued s @ [OvsPortToBr v0, OvsAddPort on_bridge v0 None None,
                                        OvsSetPort v0 (''tag='' @ src), OvsPortToBr v1,
                                        OvsAddPort on_bridge v1 None None])
                       (OvsSetPort v1 (''tag='' @ dst))) = 0"
  then show "for_each (attach_veth host on_bridge) [(v0, src), (v1, dst)] s =
          (Inr (), s\<lparr>issued := issued s @ [OvsPortToBr v0, OvsAddPort on_bridge v0 None None,
                                              OvsSetPort v0 (''tag='' @ src), OvsPortToBr v1,
                                              OvsAddPort on_bridge v1 None None,
                                              OvsSetPort v1 (''tag='' @ dst)]\<rparr>)"
    by (simp add: and_then_def attach_veth_fresh succeed_def)
next
  assume "split_on CHR '':'' vlan_map = [src, dst] \<and> veth_names lib vlan_map = (v0, v1)"
  then show "create_veth_pair lib host on_bridge vlan_map s =
          and_then
            (if returncode (host (issued s) (IpLinkShow v0)) \<noteq> 0 then
               and_then (run_command host (IpLinkAddVeth v0 v1) True) (\<lambda>_.
               and_then (run_command host (IpLinkSetDevUp v0) True) (\<lambda>_.
               and_then (run_command host (IpLinkSetDevUp v1) True) (\<lambda>_. succeed ())))
             else succeed ())
            (\<lambda>_. for_each (attach_veth host on_bridge) [(v0, src), (v1, dst)])
            (s\<lparr>issued := issued s @ [IpLinkShow v0]\<rparr>)"
    by (simp add: create_veth_pair_two)
qed



theorem vlan_endpoints_attach_or_conflict_witness:
  "for_each (attach_veth (example_host []) ''brX'')
      [(''v0_4e0f0408'', ''100''), (''v1_4e0f0408'', ''200'')]
      \<lparr>db = empty_db,
       issued = [IpLinkShow ''v0_4e0f0408'', IpLinkAddVeth ''v0_4e0f0408'' ''v1_4e0f0408'',
                 IpLinkSetDevUp ''v0_4e0f0408'', IpLinkSetDevUp ''v1_4e0f0408'']\<rparr>
     = (Inr (),
        \<lparr>db = empty_db,
         issued = [IpLinkShow ''v0_4e0f0408'', IpLinkAddVeth ''v0_4e0f0408'' ''v1_4e0f0408'',
                   IpLinkSetDevUp ''v0_4e0f0408'', IpLinkSetDevUp ''v1_4e0f0408'',
                   OvsPortToBr ''v0_4e0f0408'', OvsAddPort ''brX'' ''v0_4e0f0408'' None None,
                   OvsSetPort ''v0_4e0f0408'' ''tag=100'',
                   OvsPortToBr ''v1_4e0f0408'', OvsAddPort ''brX'' ''v1_4e0f0408'' None None,
                   OvsSetPort ''v1_4e0f0408'' ''tag=200'']\<rparr>)
   \<and> for_each (attach_veth (example_host []) ''brY'')
      [(''v0_4e0f0408'', ''100''), (''v1_4e0f0408'', ''200'')]
      \<lparr>db = empty_db,
       issued = [IpLinkShow ''v0_4e0f0408'', IpLinkAddVeth ''v0_4e0f0408'' ''v1_4e0f0408'',
                 IpLinkSetDevUp ''v0_4e0f0408'', IpLinkSetDevUp ''v1_4e0f0408'',
                 OvsPortToBr ''v0_4e0f0408'', OvsAddPort ''brX'' ''v0_4e0f0408'' None None,
                 OvsSetPort ''v0_4e0f0408'' ''tag=100'',
                 OvsPortToBr ''v1_4e0f0408'', OvsAddPort ''brX'' ''v1_4e0f0408'' None None,
                 OvsSetPort ''v1_4e0f0408'' ''tag=200'', IpLinkShow ''v0_4e0f0408'']\<rparr>
     = (Inl (ValueError VethOnOtherBridge),
        \<lparr>db = empty_db,
         issued = [IpLinkShow ''v0_4e0f0408'', IpLinkAddVeth ''v0_4e0f0408'' ''v1_4e0f0408'',
                   IpLinkSetDevUp ''v0_4e0f0408'', IpLinkSetDevUp ''v1_4e0f0408'',
                   OvsPortToBr ''v0_4e0f0408'', OvsAddPort ''brX'' ''v0_4e0f0408'' None None,
                   OvsSetPort ''v0_4e0f0408'' ''tag=100'',
                   OvsPortToBr ''v1_4e0f0408'', OvsAddPort ''brX'' ''v1_4e0f0408'' None None,
                   OvsSetPort ''v1_4e0f0408'' ''tag=200'', IpLinkShow ''v0_4e0f0408'',
                   OvsPortToBr ''v0_4e0f0408'']\<rparr>)"
  using
    vlan_endpoints_attach_or_conflict[where host = "example_host []" and on_bridge = "''brX''"
      and ?v0.0 = "''v0_4e0f0408''" and ?v1.0 = "''v1_4e0f0408''" and src = "''100''" and dst = "''200''"
      and vlan_map = "''100:200''" and lib = ipv4_lib
      and s = "\<lparr>db = empty_db,
                issued = [IpLinkShow ''v0_4e0f0408'', IpLinkAddVeth ''v0_4e0f0408'' ''v1_4e0f0408'',
                          IpLinkSetDevUp ''v0_4e0f0408'', IpLinkSetDevUp ''v1_4e0f0408'']\<rparr>"]
    vlan_endpoints_attach_or_conflict[where host = "example_host []" and on_bridge = "''brY''"
      and ?v0.0 = "''v0_4e0f0408''" and ?v1.0 = "''v1_4e0f0408''" and src = "''100''" and dst = "''200''"
      and vlan_map = "''100:200''" and lib = ipv4_lib
      and s = "\<lparr>db = empty_db,
                issued = [IpLinkShow ''v0_4e0f0408'', IpLinkAddVeth ''v0_4e0f0408'' ''v1_4e0f0408'',
                          IpLinkSetDevUp ''v0_4e0f0408'', IpLinkSetDevUp ''v1_4e0f0408'',
                          OvsPortToBr ''v0_4e0f0408'', OvsAddPort ''brX'' ''v0_4e0f0408'' None None,
                          OvsSetPort ''v0_4e0f0408'' ''tag=100'',
                          OvsPortToBr ''v1_4e0f0408'', OvsAddPort ''brX'' ''v1_4e0f0408'' None None,
                          OvsSetPort ''v1_4e0f0408'' ''tag=200'', IpLinkShow ''v0_4e0f0408'']\<rparr>"]
  by (simp add: example_host_def added_to_def done_ok_def List.map_filter_simps strip_def is_space_def)

lemma bridge_entry_update:
  "bridge_entry b (update_bridge b' f d) =
     (if b = b' then map_option f (bridge_entry b d) else bridge_entry b d)"
  by (auto simp: bridge_entry_def update_bridge_def map_of_map_entry split: option.splits)

lemma cache_hosts_set [simp]:
  "cache_hosts k (set_cache_hosts k' h c) = (if k = k' then h else cache_hosts k c)"
  by (cases k; cases k') (simp_all add: cache_hosts_def set_cache_hosts_def)

lemma cache_range_set_hosts [simp]: "cache_range k (set_cache_hosts k' h c) = cache_range k c"
  by (cases k; cases k') (simp_all add: cache_range_def set_cache_hosts_def)

lemma cache_hosts_set_range [simp]: "cache_hosts k (set_cache_range k' r c) = cache_hosts k c"
  by (cases k; cases k') (simp_all add: cache_hosts_def set_cache_range_def)

lemma cache_range_set [simp]:
  "cache_range k (set_cache_range k' r c) = (if k = k' then r else cache_range k c)"
  by (cases k; cases k') (simp_all add: cache_range_def set_cache_range_def)

lemma on_hosts_run:
  assumes "bridge_entry b (db s) = Some c" and "cache_hosts k c = Some h"
  shows "on_hosts b k f s =
           (fst (f h), s\<lparr>db := update_bridge b (set_cache_hosts k (Some (snd (f h)))) (db s)\<rparr>)"
  using assms by (simp add: on_hosts_def split: prod.splits)

lemma hosts_of_on_hosts:
  assumes "bridge_entry b (db s) = Some c" and "cache_hosts k c = Some h"
  shows "hosts_of k' b' (snd (on_hosts b k f s)) =
           (if k' = k \<and> b' = b then Some (snd (f h)) else hosts_of k' b' s)"
  using assms by (auto simp: on_hosts_run hosts_of_def bridge_entry_update)

lemma reserve_bound:
  "map_of hosts key = Some addr \<Longrightarrow> reserve key addr hosts = (Inr (), hosts)"
  by (simp add: reserve_def update_triv)

lemma reserve_taken:
  "map_of hosts key \<noteq> Some addr \<Longrightarrow> addr \<in> set (map snd (AList.delete key hosts)) \<Longrightarrow>
   reserve key addr hosts = (Inl (ValueError ContainerAddressTaken), AList.delete key hosts)"
  by (auto simp: reserve_def)

lemma reserve_free:
  "map_of hosts key \<noteq> Some addr \<Longrightarrow> addr \<notin> set (map snd (AList.delete key hosts)) \<Longrightarrow>
   reserve key addr hosts = (Inr (), AList.update key addr (AList.delete key hosts))"
  by (auto simp: reserve_def)

lemma update_fresh_key: "k \<notin> fst ` set al \<Longrightarrow> AList.update k v al = al @ [(k, v)]"
  by (induction al) auto

lemma update_after_delete: "AList.update k v (AList.delete k al) = AList.delete k al @ [(k, v)]"
  by (simp add: update_fresh_key delete_notin_dom)

lemma set_delete: "set (AList.delete k al) = {p \<in> set al. fst p \<noteq> k}"
  by (auto simp: AList.delete_eq)



lemma values_update_fresh:
  "distinct (map fst al) \<Longrightarrow> set (map snd (AList.update k v al)) = insert v (set (map snd (AList.delete k al)))"
  by (induction al) (auto simp: set_delete image_iff)

lemma distinct_values_update:
  "distinct (map fst al) \<Longrightarrow> distinct (map snd al) \<Longrightarrow> v \<notin> set (map snd (AList.delete k al)) \<Longrightarrow>
   distinct (map snd (AList.update k v al))"
proof (induction al)
  case Nil
  then show ?case by simp
next
  case (Cons p al)
  obtain k' v' where p: "p = (k', v')" by (cases p)
  show ?case
  proof (cases "k' = k")
    case True
    with Cons.prems p have "k \<notin> fst ` set al" by auto
    then have "AList.delete k al = al" by simp
    with Cons.prems p True show ?thesis by simp
  next
    case False
    with Cons.prems p have ne: "v' \<noteq> v" by auto
    from Cons p False have d: "distinct (map snd (AList.update k v al))" by auto
    from Cons.prems p have "v' \<notin> set (map snd al)" by simp
    then have "v' \<notin> set (map snd (AList.delete k al))" by (auto simp: set_delete)
    moreover from Cons.prems p have "distinct (map fst al)" by simp
    ultimately have "v' \<notin> set (map snd (AList.update k v al))"
      using ne values_update_fresh[of al k v] by auto
    with d p False show ?thesis by simp
  qed
qed

lemma reserve_second_fails:
  assumes inv: "distinct (map snd hosts)" and ne: "key \<noteq> key2"
    and first: "reserve key addr hosts = (Inr (), hosts1)"
  shows "reserve key2 addr hosts1 = (Inl (ValueError ContainerAddressTaken), AList.delete key2 hosts1)"
proof -
  have "(key, addr) \<in> set hosts1 \<and> map_of hosts1 key2 \<noteq> Some addr"
  proof (cases "map_of hosts key = Some addr")
    case True
    then have same: "hosts1 = hosts" using first by (simp add: reserve_bound)
    from True have in1: "(key, addr) \<in> set hosts" by (rule map_of_SomeD)
    have "map_of hosts key2 \<noteq> Some addr"
    proof
      assume "map_of hosts key2 = Some addr"
      then have "(key2, addr) \<in> set hosts" by (rule map_of_SomeD)
      with in1 inv ne show False
        by (metis distinct_map inj_onD prod.inject snd_conv)
    qed
    with in1 same show ?thesis by simp
  next
    case False
    show ?thesis
    proof (cases "addr \<in> set (map snd (AList.delete key hosts))")
      case True
      with False first show ?thesis by (simp add: reserve_taken)
    next
      case free: False
      with False first have h1: "hosts1 = AList.delete key hosts @ [(key, addr)]"
        by (simp add: reserve_free update_after_delete)
      have "map_of hosts1 key2 \<noteq> Some addr"
      proof
        assume "map_of hosts1 key2 = Some addr"
        then have "(key2, addr) \<in> set hosts1" by (rule map_of_SomeD)
        with h1 ne have "(key2, addr) \<in> set (AList.delete key hosts)" by auto
        with free show False by force
      qed
      with h1 show ?thesis by simp
    qed
  qed
  then have in1: "(key, addr) \<in> set hosts1" and not2: "map_of hosts1 key2 \<noteq> Some addr"
    by simp_all
  from in1 ne have "addr \<in> set (map snd (AList.delete key2 hosts1))"
    by (force simp: set_delete)
  with not2 show ?thesis by (rule reserve_taken)
qed

lemma refresh_hosts:
  "cache_hosts k (refresh_range k r c) =
     Some (if r \<noteq> cache_range k c then [] else (case cache_hosts k c of None \<Rightarrow> [] | Some h \<Rightarrow> h))"
  by (auto simp: refresh_range_def Let_def split: option.splits)

lemma refresh_range_range: "cache_range k (refresh_range k r c) = r"
  by (auto simp: refresh_range_def Let_def split: option.splits)

lemma update_bridge_twice:
  "update_bridge b g (update_bridge b f d) = update_bridge b (\<lambda>c. g (f c)) d"
proof -
  have "AList.map_entry b g (AList.map_entry b f al) = AList.map_entry b (\<lambda>c. g (f c)) al" for al
    by (induction al) auto
  then show ?thesis by (simp add: update_bridge_def)
qed

lemma set_cache_hosts_twice [simp]:
  "set_cache_hosts k h (set_cache_hosts k h' c) = set_cache_hosts k h c"
  by (cases k) (simp_all add: set_cache_hosts_def)

lemma bridge_range_flush:
  assumes "\<not> truthy ip_addr" and "bridge_entry b (db s) = Some c"
    and "cache_hosts k (refresh_range k (info_range k info) c) = Some h"
  shows "bridge_range lib host b info (k, ip_addr) s =
     (Inr (), s\<lparr>db := update_bridge b
                        (\<lambda>c. set_cache_hosts k (Some (AList.delete b h)) (refresh_range k (info_range k info) c))
                        (db s),
                issued := issued s @ [IpAddrFlush (family_flag k) b]\<rparr>)"
  using assms
  by (simp add: bridge_range_def Let_def run_defs on_hosts_def bridge_entry_update pop_host_def
        update_bridge_twice)


lemma bridge_range_address:
  assumes "truthy ip_addr" and "bridge_entry b (db s) = Some c"
    and "cache_hosts k (refresh_range k (info_range k info) c) = Some h"
  shows "bridge_range lib host b info (k, ip_addr) s =
    (let addr = py_str ip_addr;
         F = (\<lambda>h'. update_bridge b
                 (\<lambda>c. set_cache_hosts k (Some h') (refresh_range k (info_range k info) c)) (db s));
         flush = IpAddrFlush (family_flag k) b;
         add = IpAddrAdd addr b
     in
     if map_of h b \<noteq> Some addr then
       (let s1 = s\<lparr>db := F (AList.delete b h), issued := issued s @ [flush]\<rparr> in
        if addr \<in> set (map snd (AList.delete b h)) then (Inl (ValueError BridgeAddressTaken), s1)
        else (case interface_in_network lib addr (py_str (info_range k info)) of
                None \<Rightarrow> (Inl (ValueError InvalidAddress), s1)
              | Some inside \<Rightarrow>
                  if \<not> inside then (Inl (ValueError AddressNotInRange), s1)
                  else (let s2 = s\<lparr>db := F (AList.update b addr (AList.delete b h)),
                                     issued := issued s @ [flush, add]\<rparr>
                        in if returncode (host (issued s @ [flush]) add) \<noteq> 0
                           then (Inl (CalledProcessError add), s2) else (Inr (), s2))))
     else
       (let q = IpAddrShow b;
            res = host (issued s) q;
            live = (if returncode res = 0 then findall_inet (strip (stdout res)) else []);
            s1 = s\<lparr>db := F h, issued := issued s @ [q]\<rparr>
        in
        if addr \<in> set live then (Inr (), s1)
        else (case interface_in_network lib addr (py_str (info_range k info)) of
                None \<Rightarrow> (Inl (ValueError InvalidAddress), s1)
              | Some inside \<Rightarrow>
                  if \<not> inside then (Inl (ValueError AddressNotInRange), s1)
                  else (let s2 = s\<lparr>db := F h, issued := issued s @ [q, add]\<rparr>
                        in if returncode (host (issued s @ [q]) add) \<noteq> 0
                           then (Inl (CalledProcessError add), s2) else (Inr (), s2)))))"
  using assms
  by (simp add: bridge_range_def Let_def run_defs on_hosts_def bridge_entry_update pop_host_def
        read_hosts_def put_host_def get_interface_ip_def update_bridge_twice update_triv
        split: option.splits)

lemma unchanged_succeed: "unchanged proj (succeed x)"
  by (simp add: unchanged_def succeed_def)

lemma unchanged_raise: "unchanged proj (raise e)"
  by (simp add: unchanged_def raise_def)

lemma unchanged_read_db: "unchanged proj (read_db f)"
  by (simp add: unchanged_def read_db_def)

lemma unchanged_run_command: "unchanged proj (run_command host c chk)"
  by (simp add: unchanged_def run_command_def Let_def)

lemma unchanged_modify_db: "(\<And>d. proj (f d) = proj d) \<Longrightarrow> unchanged proj (modify_db f)"
  by (simp add: unchanged_def modify_db_def)

lemma unchanged_and_then:
  assumes "unchanged proj m" and "\<And>x. unchanged proj (f x)"
  shows "unchanged proj (and_then m f)"
proof (unfold unchanged_def, intro allI)
  fix s
  obtain r s1 where ms: "m s = (r, s1)" by (cases "m s")
  with assms(1) have 1: "proj (db s1) = proj (db s)"
    unfolding unchanged_def by (metis snd_conv)
  show "proj (db (snd (and_then m f s))) = proj (db s)"
  proof (cases r)
    case (Inl e)
    with ms 1 show ?thesis by (simp add: and_then_def)
  next
    case (Inr x)
    from assms(2)[of x] have "proj (db (snd (f x s1))) = proj (db s1)"
      unfolding unchanged_def by blast
    with ms 1 Inr show ?thesis by (simp add: and_then_def)
  qed
qed

lemma unchanged_for_each:
  assumes "\<And>x. x \<in> set xs \<Longrightarrow> unchanged proj (body x)"
  shows "unchanged proj (for_each body xs)"
  using assms by (induction xs) (auto intro!: unchanged_and_then unchanged_succeed)

lemma unchanged_if: "unchanged proj a \<Longrightarrow> unchanged proj b \<Longrightarrow> unchanged proj (if c then a else b)"
  by simp

lemma unchanged_on_hosts:
  assumes "\<And>d h'. proj (update_bridge b (set_cache_hosts k (Some h')) d) = proj d"
  shows "unchanged proj (on_hosts b k f)"
  using assms by (auto simp: unchanged_def on_hosts_def split: option.splits prod.splits)

lemma unchanged_case_option:
  "unchanged proj a \<Longrightarrow> (\<And>x. unchanged proj (f x)) \<Longrightarrow>
   unchanged proj (case v of None \<Rightarrow> a | Some x \<Rightarrow> f x)"
  by (cases v) simp_all

lemma unchanged_case_prod:
  "(\<And>x y. unchanged proj (f x y)) \<Longrightarrow> unchanged proj (case p of (x, y) \<Rightarrow> f x y)"
  by (cases p) simp

lemma unchanged_case_list:
  "unchanged proj a \<Longrightarrow> (\<And>x xs. unchanged proj (f x xs)) \<Longrightarrow>
   unchanged proj (case l of [] \<Rightarrow> a | x # xs \<Rightarrow> f x xs)"
  by (cases l) simp_all

lemma unchanged_case_sum:
  "(\<And>x. unchanged proj (f x)) \<Longrightarrow> (\<And>y. unchanged proj (g y)) \<Longrightarrow>
   unchanged proj (case v of Inl x \<Rightarrow> f x | Inr y \<Rightarrow> g y)"
  by (cases v) simp_all

lemmas unchanged_intros = unchanged_and_then unchanged_succeed unchanged_raise unchanged_read_db
  unchanged_run_command unchanged_if unchanged_for_each unchanged_case_option unchanged_case_prod
  unchanged_case_list unchanged_case_sum

text \<open>What the steps on parent interfaces leave alone: every other bridge, and the ranges
  and host maps of their own bridge.\<close>

lemma update_bridge_other:
  "b' \<noteq> b \<Longrightarrow> bridge_entry b' (update_bridge b f d) = bridge_entry b' d"
  by (simp add: bridge_entry_update)

lemma failed_update_bridge [simp]: "failed (update_bridge b f d) = failed d"
  by (simp add: update_bridge_def)

lemma cache_hosts_parents [simp]: "cache_hosts k (c\<lparr>parents := x\<rparr>) = cache_hosts k c"
  by (cases k) (simp_all add: cache_hosts_def)

lemma cache_range_parents [simp]: "cache_range k (c\<lparr>parents := x\<rparr>) = cache_range k c"
  by (cases k) (simp_all add: cache_range_def)

lemma parents_set_cache_hosts [simp]: "parents (set_cache_hosts k h c) = parents c"
  by (cases k) (simp_all add: set_cache_hosts_def)

lemma parents_set_cache_range [simp]: "parents (set_cache_range k r c) = parents c"
  by (cases k) (simp_all add: set_cache_range_def)

lemma parents_refresh_range [simp]: "parents (refresh_range k r c) = parents c"
  by (simp add: refresh_range_def Let_def split: option.splits)

lemma leases_setdefault_parent [simp]: "leases b (setdefault_parent b' p d) = leases b d"
  by (auto simp: leases_def setdefault_parent_def bridge_entry_update split: option.splits)

lemma leases_write_parent [simp]: "leases b (write_parent b' p key v d) = leases b d"
  by (auto simp: leases_def write_parent_def bridge_entry_update split: option.splits)

lemma unchanged_note_vlan: "unchanged (leases b) (note_vlan b' p key v)"
  by (auto simp: note_vlan_def intro!: unchanged_intros unchanged_modify_db)

lemma unchanged_ovs_parent: "unchanged (leases b) (add_iface_to_ovs_bridge host b' parent_info)"
  unfolding add_iface_to_ovs_bridge_def Let_def
  by (intro unchanged_intros unchanged_modify_db unchanged_note_vlan) simp_all

lemma unchanged_linux_parent: "unchanged (leases b) (add_iface_to_linux_bridge host b' parent_info)"
  unfolding add_iface_to_linux_bridge_def Let_def
  by (intro unchanged_intros unchanged_modify_db) simp_all

lemma unchanged_resolve_parent: "unchanged proj (resolve_parent host p)"
  unfolding resolve_parent_def Let_def
  by (auto intro!: unchanged_intros split: list.splits)

lemma unchanged_vlan_setting:
  "unchanged (leases b) (apply_vlan_setting linux host b' parent_info p key)"
  unfolding apply_vlan_setting_def Let_def
  by (intro unchanged_intros unchanged_modify_db) simp_all

lemma unchanged_parent: "unchanged (leases b) (add_iface_to_bridge linux host b' parent_info)"
  unfolding add_iface_to_bridge_def
  by (auto split: option.splits
      intro!: unchanged_intros unchanged_modify_db unchanged_resolve_parent unchanged_vlan_setting
        unchanged_ovs_parent unchanged_linux_parent)



lemma triple_weaken:
  assumes "triple P' m Q'" and "\<And>s. P s \<Longrightarrow> P' s" and "\<And>r s. Q' r s \<Longrightarrow> Q r s"
  shows "triple P m Q"
  using assms by (simp add: triple_def)

lemma triple_conj:
  assumes "triple P m Q1" and "triple P m Q2"
  shows "triple P m (\<lambda>r s. Q1 r s \<and> Q2 r s)"
  using assms by (simp add: triple_def)





lemma lease_of_leases: "lease k b d = (fst (leases b d) k, snd (leases b d) k)"
  by (simp add: lease_def leases_def split: option.splits)

lemma unchanged_lease: "unchanged (leases b) m \<Longrightarrow> unchanged (lease k b) m"
  by (simp add: unchanged_def lease_of_leases)

lemma lease_setdefault [simp]:
  "lease k b (d\<lparr>bridges := setdefault b' empty_bridge_cache (bridges d)\<rparr>) = lease k b d"
  by (auto simp: lease_def bridge_entry_def setdefault_def update_conv' empty_bridge_cache_def
        cache_range_def cache_hosts_def split: option.splits range_key.splits)

lemma lease_refresh_other [simp]:
  "k \<noteq> k' \<Longrightarrow> lease k b (update_bridge b' (refresh_range k' r) d) = lease k b d"
  by (cases k; cases k')
     (auto simp: lease_def bridge_entry_update refresh_range_def Let_def cache_range_def
        cache_hosts_def set_cache_hosts_def set_cache_range_def split: option.splits)

lemma lease_set_hosts_other [simp]:
  "k \<noteq> k' \<Longrightarrow> lease k b (update_bridge b' (set_cache_hosts k' h) d) = lease k b d"
  by (auto simp: lease_def bridge_entry_update split: option.splits)

lemma lease_other_bridge [simp]:
  "b \<noteq> b' \<Longrightarrow> lease k b (update_bridge b' f d) = lease k b d"
  by (simp add: lease_def bridge_entry_update)

lemma unchanged_bridge_range_other:
  assumes "k \<noteq> k' \<or> b \<noteq> b'"
  shows "unchanged (lease k b) (bridge_range lib host b' info (k', a))"
proof -
  have 1: "lease k b (update_bridge b' (refresh_range k' r) d) = lease k b d" for r d
    using assms by auto
  have 2: "lease k b (update_bridge b' (set_cache_hosts k' h) d) = lease k b d" for h d
    using assms by auto
  show ?thesis
    unfolding bridge_range_def Let_def prod.case get_interface_ip_def
    by (auto intro!: unchanged_intros unchanged_modify_db unchanged_on_hosts split: option.splits
             simp: 1 2)
qed

lemma and_then_success:
  "and_then m f s = (Inr y, s') \<longleftrightarrow> (\<exists>x s1. m s = (Inr x, s1) \<and> f x s1 = (Inr y, s'))"
  by (auto simp: and_then_def split: prod.splits sum.splits)

lemma run_command_success:
  "run_command host c chk s = (Inr r, s1) \<Longrightarrow> db s1 = db s \<and> issued s1 = issued s @ [c]"
  by (auto simp: run_command_def Let_def split: if_splits)

lemma unchangedD: "unchanged proj m \<Longrightarrow> m s = (r, s') \<Longrightarrow> proj (db s') = proj (db s)"
  unfolding unchanged_def by (metis snd_conv)

lemma entry_stays [simp]:
  "(bridge_entry b (update_bridge b' f d) = None) = (bridge_entry b d = None)"
  by (simp add: bridge_entry_update)

lemma unchanged_entry_bridge_range:
  "unchanged (\<lambda>d. bridge_entry b d \<noteq> None) (bridge_range lib host b' info (k, a))"
  unfolding bridge_range_def Let_def prod.case get_interface_ip_def
  by (intro unchanged_intros unchanged_modify_db unchanged_on_hosts) simp_all

lemma lease_entry:
  "bridge_entry b d = Some c \<Longrightarrow> lease k b d = (cache_range k c, cache_hosts k c)"
  by (simp add: lease_def)

lemma lease_after_write:
  "bridge_entry b d = Some c \<Longrightarrow>
   lease k b (update_bridge b (\<lambda>c. set_cache_hosts k (Some h) (refresh_range k r c)) d) = (r, Some h)"
  by (simp add: lease_def bridge_entry_update refresh_range_range)

lemma bridge_range_clears:
  assumes entry: "bridge_entry b (db s) \<noteq> None"
    and differs: "info_range k info \<noteq> fst (lease k b (db s))"
    and run: "bridge_range lib host b info (k, a) s = (Inr (), s')"
  shows "\<exists>h. lease k b (db s') = (info_range k info, Some h) \<and> set h \<subseteq> {(b, py_str a)}"
proof -
  from entry obtain c where c: "bridge_entry b (db s) = Some c" by auto
  with differs have "info_range k info \<noteq> cache_range k c" by (simp add: lease_entry)
  then have h: "cache_hosts k (refresh_range k (info_range k info) c) = Some []"
    by (simp add: refresh_hosts)
  show ?thesis
  proof (cases "truthy a")
    case False
    from run show ?thesis
      by (auto simp: bridge_range_flush[OF False c h] lease_after_write[OF c])
  next
    case True
    from run show ?thesis
      unfolding bridge_range_address[OF True c h]
      by (auto simp: Let_def lease_after_write[OF c] split: option.splits if_splits)
  qed
qed

lemma bridge_range_same_after_clearing:
  assumes c: "bridge_entry b (db s) = Some c" and differs: "info_range k info \<noteq> cache_range k c"
  shows "bridge_range lib host b info (k, a) s =
         bridge_range lib host b info (k, a) (s\<lparr>db := update_bridge b (set_cache_hosts k (Some [])) (db s)\<rparr>)"
proof -
  have "refresh_range k (info_range k info) (set_cache_hosts k (Some []) c') =
        refresh_range k (info_range k info) c'" if "info_range k info \<noteq> cache_range k c'" for c'
    using that by (cases k) (simp_all add: refresh_range_def Let_def set_cache_hosts_def
        set_cache_range_def cache_range_def cache_hosts_def)
  then have "AList.map_entry b (\<lambda>c. refresh_range k (info_range k info) (set_cache_hosts k (Some []) c)) al =
        AList.map_entry b (refresh_range k (info_range k info)) al"
    if "map_of al b = Some c" for al
    using that differs by (induction al) (auto split: if_splits)
  with c have "update_bridge b (refresh_range k (info_range k info))
          (update_bridge b (set_cache_hosts k (Some [])) (db s)) =
        update_bridge b (refresh_range k (info_range k info)) (db s)"
    by (simp add: update_bridge_twice) (simp add: update_bridge_def bridge_entry_def)
  then show ?thesis
    by (simp add: bridge_range_def and_then_def modify_db_def Let_def)
qed

lemma init_bridge_clears:
  assumes differs: "info_range k info \<noteq> fst (lease k b (db s))"
    and run: "init_bridge linux lib host b info s = (Inr (), s')"
  shows "\<exists>h. lease k b (db s') = (info_range k info, Some h)
             \<and> set h \<subseteq> {(b, py_str (bridge_address k info))}"
proof -
  let ?s0 = "s\<lparr>db := (db s)\<lparr>bridges := setdefault b empty_bridge_cache (bridges (db s))\<rparr>\<rparr>"
  from run obtain s1 s2 s3 s4 r1 r2 where
    c1: "run_command host (if linux then BrctlAddBr b else OvsAddBr b) (\<not> linux) ?s0 = (Inr r1, s1)"
    and c2: "run_command host (IpLinkSetUp b) True s1 = (Inr r2, s2)"
    and r4: "bridge_range lib host b info (Iprange, b_ipaddress info) s2 = (Inr (), s3)"
    and r6: "bridge_range lib host b info (Ip6range, b_ip6address info) s3 = (Inr (), s4)"
    and ps: "for_each (add_iface_to_bridge linux host b) (b_parents info) s4 = (Inr (), s')"
    unfolding init_bridge_def
    by (auto simp: and_then_success modify_db_def succeed_def)
  from c1 c2 have db2: "db s2 = db ?s0"
    by (auto dest!: run_command_success)
  have entry2: "bridge_entry b (db s2) \<noteq> None"
    by (simp add: db2 bridge_entry_def setdefault_def update_conv' split: option.splits)
  have lease2: "lease k b (db s2) = lease k b (db s)"
    by (simp add: db2)
  have "unchanged (lease k b) (for_each (add_iface_to_bridge linux host b) (b_parents info))"
    by (intro unchanged_for_each unchanged_lease unchanged_parent)
  from unchangedD[OF this ps] have keep: "lease k b (db s') = lease k b (db s4)" .
  show ?thesis
  proof (cases k)
    case Iprange
    with differs lease2 entry2 r4
    have "\<exists>h. lease k b (db s3) = (info_range k info, Some h) \<and> set h \<subseteq> {(b, py_str (b_ipaddress info))}"
      by (intro bridge_range_clears[where s = s2]) simp_all
    moreover have "lease k b (db s4) = lease k b (db s3)"
      using Iprange by (intro unchangedD[OF unchanged_bridge_range_other r6]) simp
    ultimately show ?thesis
      using keep Iprange by (simp add: bridge_address_def)
  next
    case Ip6range
    have "lease k b (db s3) = lease k b (db s2)"
      using Ip6range by (intro unchangedD[OF unchanged_bridge_range_other r4]) simp
    moreover have "bridge_entry b (db s3) \<noteq> None"
      using unchangedD[OF unchanged_entry_bridge_range r4, of b] entry2 by simp
    ultimately
    have "\<exists>h. lease k b (db s4) = (info_range k info, Some h) \<and> set h \<subseteq> {(b, py_str (b_ip6address info))}"
      using differs lease2 r6 Ip6range
      by (intro bridge_range_clears[where s = s3]) simp_all
    then show ?thesis
      using keep Ip6range by (simp add: bridge_address_def)
  qed
qed

lemma ipv4_eval:
  "ipv4_in_network ''10.0.1.1/24'' ''10.0.1.0/24'' = Some True"
  "ipv4_in_network ''10.0.0.6/24'' ''10.0.0.0/24'' = Some True"
  by (simp_all add: ipv4_in_network_def ipv4_interface_def ipv4_network_def split_on_def
        parse_ipv4_def parse_octet_def parse_decimal_def parse_prefixlen_def is_digit_def)

lemmas model_eval = init_bridge_def run_defs Let_def setdefault_def
  bridge_range_def info_range_def update_bridge_def refresh_range_def cache_range_def
  set_cache_hosts_def set_cache_range_def cache_hosts_def truthy_def on_hosts_def bridge_entry_def
  py_str_def pop_host_def read_hosts_def put_host_def family_flag_def

lemma example_range_change:
  "init_bridge False ipv4_lib (example_host []) ''br0'' br0_moved br0_old =
     (Inr (),
      \<lparr>db = \<lparr>bridges = [(''br0'', \<lparr>iprange = Some ''10.0.1.0/24'', ip6range = None,
                                      iprange_hosts = Some [(''br0'', ''10.0.1.1/24'')],
                                      ip6range_hosts = Some [], parents = []\<rparr>)],
              failed = Some 0\<rparr>,
       issued = [OvsAddBr ''br0'', IpLinkSetUp ''br0'', IpAddrFlush ''-4'' ''br0'',
                 IpAddrAdd ''10.0.1.1/24'' ''br0'', IpAddrFlush ''-6'' ''br0'']\<rparr>)"
  by (simp add: model_eval br0_moved_def br0_old_def ipv4_lib_def ipv4_eval example_host_def
        done_ok_def)

text \<open>
  Claim C6. Let the range of the document for a family differ from the cached one
  (\<open>lease k b\<close> reads the cached range and host map of bridge \<open>b\<close>, nothing for a bridge
  the cache does not hold). Then the step of \<^verbatim>\<open>init_bridge\<close> for that family runs as it
  would on an empty host map: its result, its commands and the cache it leaves do not
  depend on the map that was cached. After an \<^verbatim>\<open>init_bridge\<close> that returns, the cache
  holds the new range and a host map with at most the bridge's own new address, so an
  explicit reservation for any other host key succeeds unless it asks for that very
  address, and auto-allocation succeeds as long as one candidate differs from it: no
  allocation made before the change stands in the way.
\<close>

theorem range_change_clears_host_map:
  assumes "info_range k info \<noteq> fst (lease k b (db s))"
  shows
   "(\<forall>c a. bridge_entry b (db s) = Some c \<longrightarrow>
        bridge_range lib host b info (k, a) s =
        bridge_range lib host b info (k, a)
          (s\<lparr>db := update_bridge b (set_cache_hosts k (Some [])) (db s)\<rparr>))
    \<and> (\<forall>s'. init_bridge linux lib host b info s = (Inr (), s') \<longrightarrow>
          (\<exists>h. lease k b (db s') = (info_range k info, Some h)
              \<and> set h \<subseteq> {(b, py_str (bridge_address k info))}
              \<and> (\<forall>key addr. key \<noteq> b \<and> addr \<noteq> py_str (bridge_address k info) \<longrightarrow>
                     reserve key addr h = (Inr (), h @ [(key, addr)]))
              \<and> (\<forall>key cands. (\<exists>a\<in>set cands. a \<noteq> py_str (bridge_address k info)) \<longrightarrow>
                     (\<exists>a\<in>set cands. fst (auto_allocate key cands h) = Inr a))))"
proof (intro conjI allI impI)
  fix c a assume "bridge_entry b (db s) = Some c"
  with assms show "bridge_range lib host b info (k, a) s =
        bridge_range lib host b info (k, a)
          (s\<lparr>db := update_bridge b (set_cache_hosts k (Some [])) (db s)\<rparr>)"
    by (intro bridge_range_same_after_clearing) (simp_all add: lease_entry)
next
  fix s' assume "init_bridge linux lib host b info s = (Inr (), s')"
  from init_bridge_clears[OF assms this] obtain h
    where h: "lease k b (db s') = (info_range k info, Some h)"
      and sub: "set h \<subseteq> {(b, py_str (bridge_address k info))}"
    by blast
  have free: "reserve key addr h = (Inr (), h @ [(key, addr)])"
    if "key \<noteq> b \<and> addr \<noteq> py_str (bridge_address k info)" for key addr
  proof -
    from sub that have nokey: "key \<notin> fst ` set h" and noval: "addr \<notin> snd ` set h"
      by auto
    from nokey have "map_of h key = None" by (simp add: map_of_eq_None_iff)
    with nokey noval show ?thesis
      by (simp add: reserve_def update_fresh_key)
  qed
  have alloc: "\<exists>a\<in>set cands. fst (auto_allocate key cands h) = Inr a"
    if "\<exists>a\<in>set cands. a \<noteq> py_str (bridge_address k info)" for key cands
  proof -
    from that obtain a0 where a0: "a0 \<in> set cands" "a0 \<noteq> py_str (bridge_address k info)"
      by (elim bexE)
    from a0(2) sub have "a0 \<notin> set (map snd h)" by fastforce
    with a0(1) have "find (\<lambda>a. a \<notin> set (map snd h)) cands \<noteq> None"
      by (auto simp: find_None_iff)
    then obtain a where fa: "find (\<lambda>a. a \<notin> set (map snd h)) cands = Some a"
      by (cases "find (\<lambda>a. a \<notin> set (map snd h)) cands") simp_all
    then have "a \<in> set cands"
      by (metis find_Some_iff nth_mem)
    with fa show ?thesis by (intro bexI[of _ a]) (simp_all add: auto_allocate_def)
  qed
  show "\<exists>h. lease k b (db s') = (info_range k info, Some h)
              \<and> set h \<subseteq> {(b, py_str (bridge_address k info))}
              \<and> (\<forall>key addr. key \<noteq> b \<and> addr \<noteq> py_str (bridge_address k info) \<longrightarrow>
                     reserve key addr h = (Inr (), h @ [(key, addr)]))
              \<and> (\<forall>key cands. (\<exists>a\<in>set cands. a \<noteq> py_str (bridge_address k info)) \<longrightarrow>
                     (\<exists>a\<in>set cands. fst (auto_allocate key cands h) = Inr a))"
  proof (intro exI[of _ h] conjI allI impI)
    show "lease k b (db s') = (info_range k info, Some h)" by (rule h)
    show "set h \<subseteq> {(b, py_str (bridge_address k info))}" by (rule sub)
  next
    fix key addr assume "key \<noteq> b \<and> addr \<noteq> py_str (bridge_address k info)"
    then show "reserve key addr h = (Inr (), h @ [(key, addr)])" by (rule free)
  next
    fix key cands assume "\<exists>a\<in>set cands. a \<noteq> py_str (bridge_address k info)"
    then show "\<exists>a\<in>set cands. fst (auto_allocate key cands h) = Inr a" by (rule alloc)
  qed
qed

theorem range_change_clears_host_map_witness:
  "info_range Iprange br0_moved \<noteq> fst (lease Iprange ''br0'' (db br0_old))
   \<and> lease Iprange ''br0'' (db br0_old)
       = (Some ''10.0.0.0/24'', Some [(''br0'', ''10.0.0.1/24''), (''c1'', ''10.0.0.6/24'')])
   \<and> lease Iprange ''br0'' (db (snd (init_bridge False ipv4_lib (example_host []) ''br0'' br0_moved br0_old)))
       = (Some ''10.0.1.0/24'', Some [(''br0'', ''10.0.1.1/24'')])
   \<and> reserve ''c2'' ''10.0.0.6/24'' [(''br0'', ''10.0.1.1/24'')]
       = (Inr (), [(''br0'', ''10.0.1.1/24''), (''c2'', ''10.0.0.6/24'')])"
proof -
  have differs: "info_range Iprange br0_moved \<noteq> fst (lease Iprange ''br0'' (db br0_old))"
    by (simp add: info_range_def br0_moved_def lease_def bridge_entry_def br0_old_def cache_range_def)
  have old: "lease Iprange ''br0'' (db br0_old)
       = (Some ''10.0.0.0/24'', Some [(''br0'', ''10.0.0.1/24''), (''c1'', ''10.0.0.6/24'')])"
    by (simp add: lease_def bridge_entry_def br0_old_def cache_range_def cache_hosts_def)
  have new: "lease Iprange ''br0'' (db (snd (init_bridge False ipv4_lib (example_host []) ''br0'' br0_moved br0_old)))
       = (Some ''10.0.1.0/24'', Some [(''br0'', ''10.0.1.1/24'')])"
    by (simp add: example_range_change lease_def bridge_entry_def cache_range_def cache_hosts_def)
  have ran: "init_bridge False ipv4_lib (example_host []) ''br0'' br0_moved br0_old =
      (Inr (), snd (init_bridge False ipv4_lib (example_host []) ''br0'' br0_moved br0_old))"
    by (simp add: example_range_change)
  from range_change_clears_host_map[OF differs, of ipv4_lib "example_host []" False]
  have "\<forall>s'. init_bridge False ipv4_lib (example_host []) ''br0'' br0_moved br0_old = (Inr (), s') \<longrightarrow>
          (\<exists>h. lease Iprange ''br0'' (db s') = (info_range Iprange br0_moved, Some h)
              \<and> set h \<subseteq> {(''br0'', py_str (bridge_address Iprange br0_moved))}
              \<and> (\<forall>key addr. key \<noteq> ''br0'' \<and> addr \<noteq> py_str (bridge_address Iprange br0_moved) \<longrightarrow>
                     reserve key addr h = (Inr (), h @ [(key, addr)]))
              \<and> (\<forall>key cands. (\<exists>a\<in>set cands. a \<noteq> py_str (bridge_address Iprange br0_moved)) \<longrightarrow>
                     (\<exists>a\<in>set cands. fst (auto_allocate key cands h) = Inr a)))"
    by (rule conjunct2)
  from this[rule_format, OF ran] obtain h
    where H: "lease Iprange ''br0'' (db (snd (init_bridge False ipv4_lib (example_host []) ''br0'' br0_moved br0_old)))
                 = (info_range Iprange br0_moved, Some h)
              \<and> set h \<subseteq> {(''br0'', py_str (bridge_address Iprange br0_moved))}
              \<and> (\<forall>key addr. key \<noteq> ''br0'' \<and> addr \<noteq> py_str (bridge_address Iprange br0_moved) \<longrightarrow>
                     reserve key addr h = (Inr (), h @ [(key, addr)]))
              \<and> (\<forall>key cands. (\<exists>a\<in>set cands. a \<noteq> py_str (bridge_address Iprange br0_moved)) \<longrightarrow>
                     (\<exists>a\<in>set cands. fst (auto_allocate key cands h) = Inr a))" ..
  note all = H[THEN conjunct2, THEN conjunct2, THEN conjunct1]
  from H[THEN conjunct1] new have h: "h = [(''br0'', ''10.0.1.1/24'')]" by simp
  have "''c2'' \<noteq> ''br0'' \<and> ''10.0.0.6/24'' \<noteq> py_str (bridge_address Iprange br0_moved)"
    by (simp add: bridge_address_def br0_moved_def py_str_def)
  with all[rule_format, of "''c2''" "''10.0.0.6/24''"] h
  have "reserve ''c2'' ''10.0.0.6/24'' [(''br0'', ''10.0.1.1/24'')]
       = (Inr (), [(''br0'', ''10.0.1.1/24''), (''c2'', ''10.0.0.6/24'')])"
    by simp
  with differs old new show ?thesis by simp
qed

lemma unchanged_failed_on_hosts: "unchanged failed (on_hosts b k f)"
  by (rule unchanged_on_hosts) simp

lemma unchanged_failed_bridge_range: "unchanged failed (bridge_range lib host b info ka)"
  unfolding bridge_range_def Let_def get_interface_ip_def
  by (intro unchanged_intros unchanged_modify_db unchanged_failed_on_hosts) simp_all

lemma failed_parent [simp]:
  "failed (setdefault_parent b p d) = failed d" "failed (write_parent b p key v d) = failed d"
  by (simp_all add: setdefault_parent_def write_parent_def)

lemma unchanged_failed_parent: "unchanged failed (add_iface_to_bridge linux host b parent_info)"
  unfolding add_iface_to_bridge_def add_iface_to_ovs_bridge_def add_iface_to_linux_bridge_def
    apply_vlan_setting_def note_vlan_def Let_def
  by (intro unchanged_intros unchanged_modify_db unchanged_resolve_parent) simp_all

lemma unchanged_failed_init_bridge: "unchanged failed (init_bridge linux lib host b info)"
  unfolding init_bridge_def
  by (intro unchanged_intros unchanged_modify_db unchanged_failed_bridge_range
        unchanged_failed_parent) simp_all

lemma unchanged_container_address: 
  assumes "\<And>b k h d. proj (update_bridge b (set_cache_hosts k (Some h)) d) = proj d"
  shows "unchanged proj (container_address lib cn info opts k)"
  unfolding container_address_def Let_def
  by (intro unchanged_intros unchanged_on_hosts assms)

lemma unchanged_container_addresses:
  assumes "\<And>b k h d. proj (update_bridge b (set_cache_hosts k (Some h)) d) = proj d"
  shows "unchanged proj (container_addresses lib cn info opts ks)"
  by (induction ks arbitrary: opts)
     (auto intro!: unchanged_intros unchanged_container_address assms)

lemma unchanged_container_port: "unchanged proj (container_port linux host cn info opts)"
  unfolding container_port_def Let_def
  by (intro unchanged_intros)

lemma unchanged_container_vlans: "unchanged proj (container_vlans linux host cn info)"
  unfolding container_vlans_def Let_def
  by (intro unchanged_intros)

lemma unchanged_container:
  assumes "\<And>b k h d. proj (update_bridge b (set_cache_hosts k (Some h)) d) = proj d"
  shows "unchanged proj (add_iface_to_container linux lib host cn info)"
  unfolding add_iface_to_container_def
  by (intro unchanged_intros unchanged_container_addresses unchanged_container_port
        unchanged_container_vlans assms)

lemma unchanged_veth_pair: "unchanged proj (create_veth_pair lib host b vlan_map)"
  unfolding create_veth_pair_def veth_exists_def attach_veth_def Let_def
  by (intro unchanged_intros)

lemma unchanged_failed_reconcile: "unchanged failed (reconcile linux lib host cfg)"
  unfolding reconcile_def
  by (intro unchanged_intros unchanged_failed_init_bridge unchanged_container unchanged_veth_pair)
     simp


lemma startup_db: "db (snd (startup linux host s)) = db s"
  by (auto simp: startup_def run_command_def Let_def)

lemma startup_issued:
  "\<exists>cs. issued (snd (startup linux host s)) = issued s @ cs
        \<and> set cs \<subseteq> (if linux then {Sysctl} else {Lsmod, GrepOpenvswitch})"
  by (auto simp: startup_def run_command_def Let_def)

lemma startup_ending:
  "fst (startup linux host s) = Some e \<Longrightarrow> e = SysExit 1 \<or> (\<exists>x. e = Uncaught x)"
  by (auto simp: startup_def run_command_def Let_def split: if_splits)

lemma main_no_socket:
  "main False linux lib host cfg s = \<lparr>ending = SysExit 1, dumped = None, final = s\<rparr>"
  by (simp add: main_def)

lemma main_startup_ends:
  "startup linux host s = (Some e, s1) \<Longrightarrow>
   main True linux lib host cfg s = \<lparr>ending = e, dumped = None, final = s1\<rparr>"
  by (simp add: main_def)

lemma main_tripped:
  assumes "startup linux host s = (None, s1)" and "MAX_FAIL_COUNT < fail_count_of s"
  shows "main True linux lib host cfg s = \<lparr>ending = SysExit 1, dumped = None, final = s1\<rparr>"
proof -
  from assms(1) have d: "db s1 = db s" using startup_db[of linux host s] by simp
  with assms(2) obtain n where n: "failed (db s1) = Some n" "MAX_FAIL_COUNT < n"
    by (cases "failed (db s)") (simp_all add: fail_count_of_def MAX_FAIL_COUNT_def)
  then have "s1\<lparr>db := (db s1)\<lparr>failed := Some n\<rparr>\<rparr> = s1" by simp
  with assms(1) n show ?thesis by (simp add: main_def Let_def)
qed

lemma main_entered:
  assumes "startup linux host s = (None, s1)" and "fail_count_of s \<le> MAX_FAIL_COUNT"
    and "reconcile linux lib host cfg (s1\<lparr>db := (db s1)\<lparr>failed := Some (fail_count_of s)\<rparr>\<rparr>) = (r, s3)"
  shows "main True linux lib host cfg s =
     (case r of
        Inr _ \<Rightarrow> \<lparr>ending = PassCompleted, dumped = Some (db s3), final = s3\<rparr>
      | Inl e \<Rightarrow>
          if caught e
          then \<lparr>ending = PassFailed e,
                dumped = Some ((db s3)\<lparr>failed := Some (fail_count_of s + 1)\<rparr>),
                final = s3\<lparr>db := (db s3)\<lparr>failed := Some (fail_count_of s + 1)\<rparr>\<rparr>\<rparr>
          else \<lparr>ending = Uncaught e, dumped = Some (db s3), final = s3\<rparr>)"
proof -
  from assms(1) have "db s1 = db s" using startup_db[of linux host s] by simp
  then have "(case failed (db s1) of None \<Rightarrow> 0 | Some n \<Rightarrow> n) = fail_count_of s"
    by (simp add: fail_count_of_def)
  with assms show ?thesis
    by (simp add: main_def Let_def split: sum.splits)
qed

lemma reconcile_failed:
  "reconcile linux lib host cfg s = (r, s') \<Longrightarrow> failed (db s') = failed (db s)"
  using unchanged_failed_reconcile[of linux lib host cfg]
  unfolding unchanged_def by (metis snd_conv)


lemma example_startup: "startup False (example_host []) s = (None, s\<lparr>issued := issued s @ [Lsmod, GrepOpenvswitch]\<rparr>)"
  by (simp add: startup_def run_command_def Let_def example_host_def done_ok_def)

lemma no_link_startup: "startup False no_link_host s = (None, s\<lparr>issued := issued s @ [Lsmod, GrepOpenvswitch]\<rparr>)"
  by (simp add: startup_def run_command_def Let_def no_link_host_def done_ok_def)

text \<open>
  Claim C2, as the code has it. \<^verbatim>\<open>json.dump\<close> sits in the \<^verbatim>\<open>finally\<close> clause of the \<^verbatim>\<open>try\<close>
  block, so the cache is written on every way out of the block, and only there: a pass
  that finds the Docker socket, gets through its start-up checks and reads a counter of
  at most 2 writes the cache as the pass left it, whether it ran through, raised an
  exception \<^verbatim>\<open>main\<close> catches or raised one it does not catch. A pass that stops before
  the block writes nothing; the pass that reads a counter above 2 is one of these: it
  leaves through \<^verbatim>\<open>sys.exit(1)\<close> on line 641, ahead of the \<^verbatim>\<open>try\<close>.
\<close>

theorem cache_written_once_pass_entered:
  "(docker_socket \<and> fst (startup linux host s) = None \<and> fail_count_of s \<le> MAX_FAIL_COUNT \<longrightarrow>
      dumped (main docker_socket linux lib host cfg s)
        = Some (db (final (main docker_socket linux lib host cfg s)))
      \<and> (ending (main docker_socket linux lib host cfg s) = PassCompleted
          \<or> (\<exists>e. ending (main docker_socket linux lib host cfg s) = PassFailed e)
          \<or> (\<exists>e. ending (main docker_socket linux lib host cfg s) = Uncaught e)))
   \<and> (\<not> (docker_socket \<and> fst (startup linux host s) = None \<and> fail_count_of s \<le> MAX_FAIL_COUNT) \<longrightarrow>
        dumped (main docker_socket linux lib host cfg s) = None)
   \<and> (docker_socket \<and> fst (startup linux host s) = None \<and> MAX_FAIL_COUNT < fail_count_of s \<longrightarrow>
        ending (main docker_socket linux lib host cfg s) = SysExit 1)"
proof (intro conjI impI)
  assume a: "docker_socket \<and> fst (startup linux host s) = None \<and> fail_count_of s \<le> MAX_FAIL_COUNT"
  then obtain s1 where s1: "startup linux host s = (None, s1)"
    by (cases "startup linux host s") simp
  obtain r s3 where
    r: "reconcile linux lib host cfg (s1\<lparr>db := (db s1)\<lparr>failed := Some (fail_count_of s)\<rparr>\<rparr>) = (r, s3)"
    by (cases "reconcile linux lib host cfg (s1\<lparr>db := (db s1)\<lparr>failed := Some (fail_count_of s)\<rparr>\<rparr>)")
  from a have m: "main docker_socket linux lib host cfg s = main True linux lib host cfg s" by simp
  from a have le: "fail_count_of s \<le> MAX_FAIL_COUNT" by simp
  show "dumped (main docker_socket linux lib host cfg s)
        = Some (db (final (main docker_socket linux lib host cfg s)))"
    unfolding m main_entered[OF s1 le r] by (simp split: sum.splits)
  show "ending (main docker_socket linux lib host cfg s) = PassCompleted
          \<or> (\<exists>e. ending (main docker_socket linux lib host cfg s) = PassFailed e)
          \<or> (\<exists>e. ending (main docker_socket linux lib host cfg s) = Uncaught e)"
    unfolding m main_entered[OF s1 le r] by (simp split: sum.splits)
next
  assume a: "\<not> (docker_socket \<and> fst (startup linux host s) = None \<and> fail_count_of s \<le> MAX_FAIL_COUNT)"
  show "dumped (main docker_socket linux lib host cfg s) = None"
  proof (cases docker_socket)
    case False
    then show ?thesis by (simp add: main_no_socket)
  next
    case True
    obtain e s1 where s1: "startup linux host s = (e, s1)" by (cases "startup linux host s")
    show ?thesis
    proof (cases e)
      case (Some x)
      with s1 True show ?thesis by (simp add: main_startup_ends)
    next
      case None
      with a True s1 have "MAX_FAIL_COUNT < fail_count_of s" by simp
      with None s1 True show ?thesis by (simp add: main_tripped)
    qed
  qed
next
  assume a: "docker_socket \<and> fst (startup linux host s) = None \<and> MAX_FAIL_COUNT < fail_count_of s"
  then obtain s1 where s1: "startup linux host s = (None, s1)"
    by (cases "startup linux host s") simp
  with a show "ending (main docker_socket linux lib host cfg s) = SysExit 1"
    by (simp add: main_tripped)
qed

theorem cache_written_once_pass_entered_witness:
  "dumped (main True False ipv4_lib (example_host []) one_bridge fresh)
     = Some (db (final (main True False ipv4_lib (example_host []) one_bridge fresh)))
   \<and> dumped (main True False ipv4_lib no_link_host one_bridge fresh)
     = Some (db (final (main True False ipv4_lib no_link_host one_bridge fresh)))
   \<and> dumped (main False False ipv4_lib (example_host []) one_bridge fresh) = None"
  using cache_written_once_pass_entered[of True False "example_host []" fresh ipv4_lib one_bridge]
    cache_written_once_pass_entered[of True False no_link_host fresh ipv4_lib one_bridge]
    cache_written_once_pass_entered[of False False "example_host []" fresh ipv4_lib one_bridge]
  by (simp add: example_startup no_link_startup fail_count_of_def fresh_def empty_db_def
        MAX_FAIL_COUNT_def)

theorem cache_not_written_when_breaker_tripped:
  "ending (main True False ipv4_lib (example_host []) one_bridge
             \<lparr>db = \<lparr>bridges = [], failed = Some 3\<rparr>, issued = []\<rparr>) = SysExit 1
   \<and> dumped (main True False ipv4_lib (example_host []) one_bridge
               \<lparr>db = \<lparr>bridges = [], failed = Some 3\<rparr>, issued = []\<rparr>) = None"
  by (simp add: main_tripped[OF example_startup] fail_count_of_def MAX_FAIL_COUNT_def)


lemma no_link_pass:
  assumes "fail_count_of s \<le> MAX_FAIL_COUNT"
  shows "failing_pass s =
     \<lparr>ending = PassFailed (CalledProcessError (IpLinkSetUp ''br0'')),
      dumped = Some \<lparr>bridges = setdefault ''br0'' empty_bridge_cache (bridges (db s)),
                      failed = Some (fail_count_of s + 1)\<rparr>,
      final = \<lparr>db = \<lparr>bridges = setdefault ''br0'' empty_bridge_cache (bridges (db s)),
                      failed = Some (fail_count_of s + 1)\<rparr>,
               issued = issued s @ [Lsmod, GrepOpenvswitch, OvsAddBr ''br0'', IpLinkSetUp ''br0'']\<rparr>\<rparr>"
proof -
  have "reconcile False ipv4_lib no_link_host one_bridge
          ((s\<lparr>issued := issued s @ [Lsmod, GrepOpenvswitch]\<rparr>)
             \<lparr>db := (db (s\<lparr>issued := issued s @ [Lsmod, GrepOpenvswitch]\<rparr>))
                      \<lparr>failed := Some (fail_count_of s)\<rparr>\<rparr>) =
        (Inl (CalledProcessError (IpLinkSetUp ''br0'')),
         \<lparr>db = \<lparr>bridges = setdefault ''br0'' empty_bridge_cache (bridges (db s)),
                 failed = Some (fail_count_of s)\<rparr>,
          issued = issued s @ [Lsmod, GrepOpenvswitch, OvsAddBr ''br0'', IpLinkSetUp ''br0'']\<rparr>)"
    by (simp add: reconcile_def one_bridge_def init_bridge_def run_defs Let_def no_link_host_def
          done_ok_def)
  from main_entered[OF no_link_startup assms this] show ?thesis
    by (simp add: failing_pass_def)
qed

lemma after_failing_eq:
  assumes "fail_count_of s \<le> MAX_FAIL_COUNT"
  shows "after_failing s =
     \<lparr>db = \<lparr>bridges = setdefault ''br0'' empty_bridge_cache (bridges (db s)),
             failed = Some (fail_count_of s + 1)\<rparr>,
      issued = issued s @ [Lsmod, GrepOpenvswitch, OvsAddBr ''br0'', IpLinkSetUp ''br0'']\<rparr>"
  by (simp add: after_failing_def next_start_def no_link_pass[OF assms])

lemma two_failures:
  "fail_count_of fresh = 0" "fail_count_of (after_failing fresh) = 1"
  "fail_count_of (after_failing (after_failing fresh)) = 2"
  "fail_count_of (after_failing (after_failing (after_failing fresh))) = 3"
  by (simp_all add: after_failing_eq fail_count_of_def MAX_FAIL_COUNT_def fresh_def empty_db_def)

text \<open>
  Claim C3, as the code has it. The check on line 640 is \<^verbatim>\<open>fail_count > _MAX_FAIL_COUNT\<close>
  with \<^verbatim>\<open>_MAX_FAIL_COUNT = 2\<close>: the breaker trips on a counter above 2, which three failed
  passes leave, not two. A pass that reads such a counter reconciles nothing. It runs no
  command but the start-up checks that precede the test of the counter (\<^verbatim>\<open>lsmod\<close> and
  \<^verbatim>\<open>grep\<close>, which only read; in Linux bridge mode the \<^verbatim>\<open>sysctl\<close> call), leaves the cache in
  memory and on disk as it was, and ends through \<^verbatim>\<open>sys.exit(1)\<close>. A pass that reads a
  counter of 2 or less runs \<open>reconcile\<close>.
\<close>

theorem breaker_trips_above_two:
  "(MAX_FAIL_COUNT < fail_count_of s \<longrightarrow>
      dumped (main docker_socket linux lib host cfg s) = None
      \<and> db (final (main docker_socket linux lib host cfg s)) = db s
      \<and> (\<exists>cs. issued (final (main docker_socket linux lib host cfg s)) = issued s @ cs
             \<and> set cs \<subseteq> (if linux then {Sysctl} else {Lsmod, GrepOpenvswitch})
             \<and> (\<not> linux \<longrightarrow> list_all is_query cs))
      \<and> (ending (main docker_socket linux lib host cfg s) = SysExit 1
          \<or> (\<exists>e. ending (main docker_socket linux lib host cfg s) = Uncaught e))
      \<and> (docker_socket \<and> fst (startup linux host s) = None \<longrightarrow>
            ending (main docker_socket linux lib host cfg s) = SysExit 1))
   \<and> (fail_count_of s \<le> MAX_FAIL_COUNT \<and> docker_socket \<and> fst (startup linux host s) = None \<longrightarrow>
        issued (final (main docker_socket linux lib host cfg s))
          = issued (snd (reconcile linux lib host cfg
                          ((snd (startup linux host s))
                             \<lparr>db := (db s)\<lparr>failed := Some (fail_count_of s)\<rparr>\<rparr>))))"
proof (intro conjI impI)
  assume big: "MAX_FAIL_COUNT < fail_count_of s"
  obtain e s1 where s1: "startup linux host s = (e, s1)" by (cases "startup linux host s")
  from startup_issued[of linux host s] s1 obtain cs where
    cs: "issued s1 = issued s @ cs" "set cs \<subseteq> (if linux then {Sysctl} else {Lsmod, GrepOpenvswitch})"
    by auto
  from s1 have d1: "db s1 = db s" using startup_db[of linux host s] by simp
  have m: "main docker_socket linux lib host cfg s =
      (if \<not> docker_socket then \<lparr>ending = SysExit 1, dumped = None, final = s\<rparr>
       else \<lparr>ending = (case e of None \<Rightarrow> SysExit 1 | Some x \<Rightarrow> x), dumped = None, final = s1\<rparr>)"
    using s1 big
    by (cases docker_socket; cases e) (simp_all add: main_no_socket main_startup_ends main_tripped)
  show "dumped (main docker_socket linux lib host cfg s) = None"
    by (simp add: m)
  show "db (final (main docker_socket linux lib host cfg s)) = db s"
    by (simp add: m d1)
  have q: "list_all is_query cs" if "\<not> linux"
    using cs(2) that by (auto simp: list_all_iff)
  show "\<exists>cs. issued (final (main docker_socket linux lib host cfg s)) = issued s @ cs
             \<and> set cs \<subseteq> (if linux then {Sysctl} else {Lsmod, GrepOpenvswitch})
             \<and> (\<not> linux \<longrightarrow> list_all is_query cs)"
  proof (cases docker_socket)
    case True
    with cs q show ?thesis unfolding m by (intro exI[of _ cs]) simp
  next
    case False
    then show ?thesis unfolding m by (intro exI[of _ "[]"]) simp
  qed
  show "ending (main docker_socket linux lib host cfg s) = SysExit 1
          \<or> (\<exists>e. ending (main docker_socket linux lib host cfg s) = Uncaught e)"
    using startup_ending[of linux host s] s1
    by (cases e) (auto simp: m)
  show "ending (main docker_socket linux lib host cfg s) = SysExit 1"
    if "docker_socket \<and> fst (startup linux host s) = None"
    using that s1 unfolding m by simp
next
  assume a: "fail_count_of s \<le> MAX_FAIL_COUNT \<and> docker_socket \<and> fst (startup linux host s) = None"
  then obtain s1 where s1: "startup linux host s = (None, s1)"
    by (cases "startup linux host s") simp
  then have d1: "db s1 = db s" using startup_db[of linux host s] by simp
  obtain r s3 where
    r: "reconcile linux lib host cfg (s1\<lparr>db := (db s1)\<lparr>failed := Some (fail_count_of s)\<rparr>\<rparr>) = (r, s3)"
    by (cases "reconcile linux lib host cfg (s1\<lparr>db := (db s1)\<lparr>failed := Some (fail_count_of s)\<rparr>\<rparr>)")
  from a have le: "fail_count_of s \<le> MAX_FAIL_COUNT" and ds: docker_socket by simp_all
  from r show "issued (final (main docker_socket linux lib host cfg s))
          = issued (snd (reconcile linux lib host cfg
                          ((snd (startup linux host s))
                             \<lparr>db := (db s)\<lparr>failed := Some (fail_count_of s)\<rparr>\<rparr>)))"
    using ds s1 d1 by (simp add: main_entered[OF s1 le r] split: sum.splits)
qed

theorem breaker_trips_above_two_witness:
  "fail_count_of (after_failing (after_failing (after_failing fresh))) = 3
   \<and> ending (failing_pass (after_failing (after_failing (after_failing fresh)))) = SysExit 1
   \<and> dumped (failing_pass (after_failing (after_failing (after_failing fresh)))) = None
   \<and> issued (final (failing_pass (after_failing (after_failing (after_failing fresh)))))
       = issued (after_failing (after_failing (after_failing fresh))) @ [Lsmod, GrepOpenvswitch]"
  using breaker_trips_above_two[of "after_failing (after_failing (after_failing fresh))"
          True False ipv4_lib no_link_host one_bridge]
  by (simp add: two_failures MAX_FAIL_COUNT_def failing_pass_def no_link_startup
        main_tripped[OF no_link_startup])

theorem third_failing_pass_still_reconciles:
  "fail_count_of (after_failing (after_failing fresh)) = MAX_FAIL_COUNT
   \<and> ending (failing_pass (after_failing (after_failing fresh)))
       = PassFailed (CalledProcessError (IpLinkSetUp ''br0''))
   \<and> issued (final (failing_pass (after_failing (after_failing fresh))))
       = issued (after_failing (after_failing fresh))
           @ [Lsmod, GrepOpenvswitch, OvsAddBr ''br0'', IpLinkSetUp ''br0'']
   \<and> \<not> is_query (OvsAddBr ''br0'') \<and> \<not> is_query (IpLinkSetUp ''br0'')"
  by (simp add: two_failures MAX_FAIL_COUNT_def no_link_pass)

text \<open>
  Claim C4, as the code has it. No statement of \<^verbatim>\<open>main\<close> or of the functions it calls
  lowers the counter: \<^verbatim>\<open>failed\<close> is read once at the start (0 when the cache has none)
  and written only in the \<^verbatim>\<open>except\<close> clause, as that value plus one. A pass that runs
  through writes the cache with the counter it read, which is zero only if it was zero
  or absent before; a pass that raises an exception \<^verbatim>\<open>main\<close> catches writes the counter
  plus one; and whatever a pass writes, its counter is not below the one it read.
\<close>

theorem counter_kept_by_completed_pass:
  "(ending (main docker_socket linux lib host cfg s) = PassCompleted \<longrightarrow>
      (\<exists>d. dumped (main docker_socket linux lib host cfg s) = Some d
           \<and> failed d = Some (fail_count_of s)))
   \<and> (\<forall>e. ending (main docker_socket linux lib host cfg s) = PassFailed e \<longrightarrow>
         (\<exists>d. dumped (main docker_socket linux lib host cfg s) = Some d
              \<and> failed d = Some (fail_count_of s + 1)))
   \<and> (\<forall>d. dumped (main docker_socket linux lib host cfg s) = Some d \<longrightarrow>
         (\<exists>n. failed d = Some n \<and> fail_count_of s \<le> n))"
proof -
  let ?out = "main docker_socket linux lib host cfg s"
  obtain e s1 where s1: "startup linux host s = (e, s1)" by (cases "startup linux host s")
  consider (off) "\<not> docker_socket" | (ends) x where "docker_socket" "e = Some x"
    | (tripped) "docker_socket" "e = None" "MAX_FAIL_COUNT < fail_count_of s"
    | (entered) "docker_socket" "e = None" "fail_count_of s \<le> MAX_FAIL_COUNT"
    by (cases docker_socket; cases e; cases "MAX_FAIL_COUNT < fail_count_of s") auto
  then show ?thesis
  proof cases
    case off
    then show ?thesis by (simp add: main_no_socket)
  next
    case ends
    with s1 have "?out = \<lparr>ending = x, dumped = None, final = s1\<rparr>"
      by (simp add: main_startup_ends)
    moreover from startup_ending[of linux host s x] s1 ends
    have "x = SysExit 1 \<or> (\<exists>y. x = Uncaught y)" by simp
    ultimately show ?thesis by auto
  next
    case tripped
    with s1 show ?thesis by (simp add: main_tripped)
  next
    case entered
    with s1 have s1': "startup linux host s = (None, s1)" by simp
    obtain r s3 where
      r: "reconcile linux lib host cfg (s1\<lparr>db := (db s1)\<lparr>failed := Some (fail_count_of s)\<rparr>\<rparr>) = (r, s3)"
      by (cases "reconcile linux lib host cfg (s1\<lparr>db := (db s1)\<lparr>failed := Some (fail_count_of s)\<rparr>\<rparr>)")
    from reconcile_failed[OF r] have f3: "failed (db s3) = Some (fail_count_of s)" by simp
    from entered have m: "?out = main True linux lib host cfg s" by simp
    show ?thesis
      unfolding m main_entered[OF s1' entered(3) r]
      using f3 by (auto split: sum.splits)
  qed
qed

theorem counter_kept_by_completed_pass_witness:
  "ending (main True False ipv4_lib (example_host []) one_bridge fresh) = PassCompleted
   \<and> (\<exists>d. dumped (main True False ipv4_lib (example_host []) one_bridge fresh) = Some d
          \<and> failed d = Some 0)
   \<and> (\<exists>d. dumped (failing_pass fresh) = Some d \<and> failed d = Some 1)"
proof -
  have 1: "ending (main True False ipv4_lib (example_host []) one_bridge fresh) = PassCompleted"
    by (simp add: main_def example_startup fresh_def empty_db_def MAX_FAIL_COUNT_def reconcile_def
          one_bridge_def model_eval example_host_def done_ok_def empty_bridge_cache_def)
  have 2: "ending (failing_pass fresh) = PassFailed (CalledProcessError (IpLinkSetUp ''br0''))"
    by (simp add: no_link_pass two_failures MAX_FAIL_COUNT_def)
  from counter_kept_by_completed_pass[of True False ipv4_lib "example_host []" one_bridge fresh]
    counter_kept_by_completed_pass[of True False ipv4_lib no_link_host one_bridge fresh]
  show ?thesis
    using 1 2 by (simp add: two_failures failing_pass_def)
qed

theorem completed_pass_leaves_counter_at_one:
  "ending (main True False ipv4_lib (example_host []) one_bridge
             \<lparr>db = \<lparr>bridges = [], failed = Some 1\<rparr>, issued = []\<rparr>) = PassCompleted
   \<and> dumped (main True False ipv4_lib (example_host []) one_bridge
               \<lparr>db = \<lparr>bridges = [], failed = Some 1\<rparr>, issued = []\<rparr>)
       = Some \<lparr>bridges = [(''br0'', \<lparr>iprange = None, ip6range = None, iprange_hosts = Some [],
                                       ip6range_hosts = Some [], parents = []\<rparr>)],
               failed = Some 1\<rparr>"
  by (simp add: main_def example_startup MAX_FAIL_COUNT_def reconcile_def
        one_bridge_def model_eval example_host_def done_ok_def empty_bridge_cache_def)

lemma container_address_auto:
  assumes "\<not> truthy (info_address k info)" and "bridge_entry (c_bridge info) (db s) = Some c"
    and "cache_range k c = Some r" and "r \<noteq> []" and "cache_hosts k c = Some h"
    and "skip_hosts lib r = Inr cands"
    and "find (\<lambda>a. a \<notin> set (map snd h)) (map (with_prefix r) cands) = Some new"
  shows "\<exists>opts'. container_address lib cn info opts k s =
           (Inr opts', s\<lparr>db := update_bridge (c_bridge info)
                                 (set_cache_hosts k (Some (AList.update cn new h))) (db s)\<rparr>)"
proof -
  from assms(7) obtain x xs where "cands = x # xs" by (cases cands) simp_all
  with assms show ?thesis
    by (simp add: container_address_def Let_def run_defs truthy_def py_str_def on_hosts_def
          auto_allocate_def)
qed

lemma container_port_present:
  assumes "returncode (host (issued s) (DockerExecLinkShow cn (c_iface info))) = 0"
    and "strip (stdout (host (issued s @ [DockerExecLinkShow cn (c_iface info)])
                          (DockerGetPort (docker_util linux) cn (c_iface info)))) \<noteq> []"
  shows "container_port linux host cn info opts s =
           (Inr False,
            s\<lparr>issued := issued s @ [DockerExecLinkShow cn (c_iface info),
                                     DockerGetPort (docker_util linux) cn (c_iface info),
                                     DockerExecLinkShowDev cn (c_iface info)]
                @ (if contains (lower (case c_macaddress info of None \<Rightarrow> [] | Some m \<Rightarrow> m))
                        (stdout (host (issued s @ [DockerExecLinkShow cn (c_iface info),
                                          DockerGetPort (docker_util linux) cn (c_iface info)])
                                   (DockerExecLinkShowDev cn (c_iface info))))
                   then []
                   else [DockerExecLinkSetAddr cn (c_iface info)
                           (case c_macaddress info of None \<Rightarrow> [] | Some m \<Rightarrow> m)])\<rparr>)"
  using assms by (simp add: container_port_def Let_def run_defs)

lemma other_family_simps [simp]:
  "other_family Iprange = Ip6range" "other_family Ip6range = Iprange"
  by (simp_all add: other_family_def)

lemmas ipv4_defs = ipv4_hosts_def ipv4_network_def ipv4_interface_def split_on_def parse_ipv4_def
  parse_octet_def parse_decimal_def parse_prefixlen_def is_digit_def show_ipv4_def show_octet_def

lemma hosts_28:
  "ipv4_hosts ''10.0.0.0/28'' = HostGenerator
     [''10.0.0.1'', ''10.0.0.2'', ''10.0.0.3'', ''10.0.0.4'', ''10.0.0.5'',
      ''10.0.0.6'', ''10.0.0.7'', ''10.0.0.8'', ''10.0.0.9'', ''10.0.0.10'',
      ''10.0.0.11'', ''10.0.0.12'', ''10.0.0.13'', ''10.0.0.14'']"
  by (simp add: ipv4_defs)

lemma hosts_30:
  "ipv4_hosts ''10.0.0.0/30'' = HostGenerator [''10.0.0.1'', ''10.0.0.2'']"
  by (simp add: ipv4_defs)

lemma skip_28:
  "skip_hosts ipv4_lib ''10.0.0.0/28'' =
     Inr [''10.0.0.6'', ''10.0.0.7'', ''10.0.0.8'', ''10.0.0.9'', ''10.0.0.10'',
          ''10.0.0.11'', ''10.0.0.12'', ''10.0.0.13'', ''10.0.0.14'']"
  by (simp add: skip_hosts_def ipv4_lib_def hosts_28)

lemma prefix_28: "with_prefix ''10.0.0.0/28'' h = h @ ''/28''"
  by (simp add: with_prefix_def split_on_def)

lemmas container_eval = add_iface_to_container_def container_addresses.simps container_address_def
  container_port_def container_vlans_def info_address_def info_gateway_def ip_idx_def gw_idx_def
  docker_util_def auto_allocate_def strip_def is_space_def

lemmas example_nets = net_of_def eth1_on_br0_def fresh_def empty_db_def example_host_def done_ok_def
  is_port_of_def empty_bridge_cache_def

lemma small_net_first_pass:
  "reconcile False ipv4_lib (example_host [''c1'']) small_net fresh = (Inr (), after_small_net)"
  by (simp add: reconcile_def small_net_def after_small_net_def model_eval container_eval
        example_nets skip_28 prefix_28)

lemma find_first_index:
  "find P xs = Some a \<longleftrightarrow> (\<exists>i<length xs. a = xs ! i \<and> P a \<and> (\<forall>j<i. \<not> P (xs ! j)))"
  by (auto simp: find_Some_iff)

lemma auto_allocate_find:
  "auto_allocate cn cands h = (Inr a, h') \<longleftrightarrow>
     find (\<lambda>a. a \<notin> set (map snd h)) cands = Some a \<and> h' = AList.update cn a h"
  by (auto simp: auto_allocate_def split: option.splits)

lemma auto_allocate_first_free:
  "auto_allocate cn cands h = (Inr a, h') \<longleftrightarrow>
     (\<exists>i<length cands. a = cands ! i \<and> a \<notin> set (map snd h)
         \<and> (\<forall>j<i. cands ! j \<in> set (map snd h)))
     \<and> h' = AList.update cn a h"
  by (simp only: auto_allocate_find find_first_index not_not)

lemma auto_allocate_exhausted:
  "fst (auto_allocate cn cands h) = Inl (IndexError SubnetExhausted) \<longleftrightarrow>
     set cands \<subseteq> set (map snd h)"
proof (cases "find (\<lambda>a. a \<notin> set (map snd h)) cands")
  case None
  then have "set cands \<subseteq> set (map snd h)" by (auto simp: find_None_iff)
  with None show ?thesis by (simp add: auto_allocate_def)
next
  case (Some a)
  then have "a \<in> set cands" "a \<notin> set (map snd h)"
    by (auto simp: find_Some_iff)
  with Some show ?thesis by (auto simp: auto_allocate_def)
qed

lemma skipped_never_returned:
  assumes "distinct hs" and "i < length (drop 5 hs)"
  shows "drop 5 hs ! i \<notin> set (take 5 hs)"
proof -
  from assms(2) have "drop 5 hs ! i \<in> set (drop 5 hs)" by (rule nth_mem)
  moreover from assms(1) have "set (take 5 hs) \<inter> set (drop 5 hs) = {}"
    by (rule set_take_disj_set_drop_if_distinct) simp
  ultimately show ?thesis by auto
qed

text \<open>
  What the auto-allocation of lines 501 to 526 does, case by case, for a container
  without an address of its own on a bridge with a cached range and host map. A range
  of five hosts or more gives the first candidate that is no value of the map, or
  \<^verbatim>\<open>IndexError\<close> when every candidate is one. A range of fewer than five hosts never
  reaches that loop: \<^verbatim>\<open>next\<close> runs out while skipping and raises \<^verbatim>\<open>StopIteration\<close>.
\<close>

lemma auto_allocation_outcomes:
  assumes "\<not> truthy (info_address k info)" and "bridge_entry (c_bridge info) (db s) = Some c"
    and "cache_range k c = Some r" and "r \<noteq> []" and "cache_hosts k c = Some h"
  shows "fst (container_address lib cn info opts k s) =
     (case network_hosts lib r of
        InvalidNetwork \<Rightarrow> Inl (ValueError InvalidAddress)
      | HostList hs \<Rightarrow> Inl TypeError
      | HostGenerator hs \<Rightarrow>
          if length hs < 5 then Inl StopIteration
          else (case find (\<lambda>a. a \<notin> set (map snd h)) (map (with_prefix r) (drop 5 hs)) of
                  None \<Rightarrow> Inl (IndexError SubnetExhausted)
                | Some a \<Rightarrow>
                    Inr ((case info_gateway k info of
                            None \<Rightarrow> opts
                          | Some g \<Rightarrow> if g \<noteq> [] then opts @ [(gw_idx k, g)] else opts)
                         @ [(ip_idx k, a)])))"
proof (cases "network_hosts lib r")
  case InvalidNetwork
  with assms show ?thesis
    by (simp add: container_address_def Let_def run_defs truthy_def py_str_def skip_hosts_def)
next
  case (HostList hs)
  with assms show ?thesis
    by (simp add: container_address_def Let_def run_defs truthy_def py_str_def skip_hosts_def)
next
  case (HostGenerator hs)
  show ?thesis
  proof (cases "drop 5 hs")
    case Nil
    with assms HostGenerator show ?thesis
      by (auto simp: container_address_def Let_def run_defs truthy_def py_str_def skip_hosts_def)
  next
    case (Cons x xs)
    with assms HostGenerator show ?thesis
      by (auto simp: container_address_def Let_def run_defs truthy_def py_str_def skip_hosts_def
            on_hosts_def auto_allocate_def split: option.splits)
  qed
qed

lemma example_startup_running:
  "startup False (example_host rs) s = (None, s\<lparr>issued := issued s @ [Lsmod, GrepOpenvswitch]\<rparr>)"
  by (simp add: startup_def run_command_def Let_def example_host_def done_ok_def)

lemma skip_30: "skip_hosts ipv4_lib ''10.0.0.0/30'' = Inl StopIteration"
  by (simp add: skip_hosts_def ipv4_lib_def hosts_30)

text \<open>
  Claim C5 at a range of two hosts. \<^verbatim>\<open>10.0.0.0/30\<close> has the hosts \<^verbatim>\<open>10.0.0.1\<close> and
  \<^verbatim>\<open>10.0.0.2\<close>; no address is left behind the first five, so the claim (and the docstring
  of \<^verbatim>\<open>add_iface_to_container\<close>) has the allocation fail with \<^verbatim>\<open>IndexError\<close>, which \<^verbatim>\<open>main\<close>
  catches and counts. The code raises \<^verbatim>\<open>StopIteration\<close> on line 507 instead: the exception
  leaves \<^verbatim>\<open>main\<close> uncaught and the failure counter stays where it was.
\<close>

theorem small_range_raises_stop_iteration:
  "ipv4_hosts ''10.0.0.0/30'' = HostGenerator [''10.0.0.1'', ''10.0.0.2'']
   \<and> ending (main True False ipv4_lib (example_host [''c1'']) tiny_net fresh) = Uncaught StopIteration
   \<and> dumped (main True False ipv4_lib (example_host [''c1'']) tiny_net fresh)
       = Some \<lparr>bridges = [(''br0'', \<lparr>iprange = Some ''10.0.0.0/30'', ip6range = None,
                                       iprange_hosts = Some [], ip6range_hosts = Some [],
                                       parents = []\<rparr>)],
               failed = Some 0\<rparr>
   \<and> issued (final (main True False ipv4_lib (example_host [''c1'']) tiny_net fresh))
       = [Lsmod, GrepOpenvswitch, OvsAddBr ''br0'', IpLinkSetUp ''br0'', IpAddrFlush ''-4'' ''br0'',
          IpAddrFlush ''-6'' ''br0'', DockerPs ''c1'']"
  by (simp add: hosts_30 main_def example_startup_running MAX_FAIL_COUNT_def reconcile_def
        tiny_net_def model_eval container_eval example_nets skip_30)

lemma hosts_24:
  "ipv4_hosts ''192.168.0.0/24'' = HostGenerator (map show_ipv4 [3232235521..<3232235775])"
  by (simp add: ipv4_hosts_def ipv4_network_def ipv4_interface_def split_on_def parse_ipv4_def
        parse_octet_def parse_decimal_def parse_prefixlen_def is_digit_def del: upt_rec_numeral)

lemma skip_24:
  "\<exists>rest. skip_hosts ipv4_lib ''192.168.0.0/24'' = Inr (''192.168.0.6'' # ''192.168.0.7'' # rest)"
proof -
  have e6: "show_ipv4 3232235526 = ''192.168.0.6''" and e7: "show_ipv4 3232235527 = ''192.168.0.7''"
    by (simp_all add: show_ipv4_def show_octet_def)
  have "drop 5 (map show_ipv4 [3232235521..<3232235775]) = map show_ipv4 [3232235526..<3232235775]"
    by (simp add: drop_map del: upt_rec_numeral)
  also have "[3232235526..<3232235775] = 3232235526 # 3232235527 # [3232235528..<3232235775]"
    by (simp add: upt_conv_Cons del: upt_rec_numeral)
  finally have "drop 5 (map show_ipv4 [3232235521..<3232235775]) =
      ''192.168.0.6'' # ''192.168.0.7'' # map show_ipv4 [3232235528..<3232235775]"
    by (simp add: e6 e7 del: upt_rec_numeral)
  then show ?thesis
    by (simp add: skip_hosts_def ipv4_lib_def hosts_24 del: upt_rec_numeral)
qed

lemma prefix_24: "with_prefix ''192.168.0.0/24'' h = h @ ''/24''"
  by (simp add: with_prefix_def split_on_def)

text \<open>
  The scenario of the specification: on a bridge with the range \<^verbatim>\<open>192.168.0.0/24\<close> and an
  empty host map, the first container that asks for no address gets \<^verbatim>\<open>192.168.0.6/24\<close>
  and the next one \<^verbatim>\<open>192.168.0.7/24\<close>.
\<close>

lemma home_net_allocations:
  "\<exists>s'. reconcile False ipv4_lib (example_host [''c1'', ''c2'']) home_net fresh = (Inr (), s')
        \<and> hosts_of Iprange ''br0'' s' = Some [(''c1'', ''192.168.0.6/24''), (''c2'', ''192.168.0.7/24'')]"
proof -
  from skip_24 obtain rest where
    "skip_hosts ipv4_lib ''192.168.0.0/24'' = Inr (''192.168.0.6'' # ''192.168.0.7'' # rest)" ..
  then show ?thesis
    by (simp add: reconcile_def home_net_def model_eval container_eval example_nets prefix_24
          hosts_of_def)
qed

section \<open>What a completed pass leaves in the cache\<close>






lemma parent_record_lease_ops [simp]:
  "parent_record b n (update_bridge b' (refresh_range k r) d) = parent_record b n d"
  "parent_record b n (update_bridge b' (set_cache_hosts k h) d) = parent_record b n d"
  by (auto simp: parent_record_def bridge_entry_update split: option.splits)

lemma parent_record_setdefault [simp]:
  "parent_record b n (d\<lparr>bridges := setdefault b' empty_bridge_cache (bridges d)\<rparr>) = parent_record b n d"
  by (auto simp: parent_record_def bridge_entry_def setdefault_def update_conv'
        empty_bridge_cache_def split: option.splits)





























lemma unchanged_entry_parent:
  "unchanged (\<lambda>d. bridge_entry b d \<noteq> None) (add_iface_to_bridge linux host b' p)"
  unfolding add_iface_to_bridge_def add_iface_to_ovs_bridge_def add_iface_to_linux_bridge_def
    apply_vlan_setting_def note_vlan_def Let_def
  by (intro unchanged_intros unchanged_modify_db unchanged_resolve_parent)
     (simp_all add: setdefault_parent_def write_parent_def)












section \<open>A second pass over what the first one left\<close>




lemma settledI:
  assumes "\<And>s. P s \<Longrightarrow> applied_run lib host cfg n (issued (snd (m s))) \<Longrightarrow> Q (fst (m s)) (snd (m s))"
  shows "settled lib host cfg n P m Q"
  using assms by (simp add: settled_def triple_def)











lemma settled_read_db:
  "settled lib host cfg n (on_course cfg base D) (read_db g)
     (\<lambda>r s. on_course cfg base D s \<and> (\<exists>d. D d \<and> r = Inr (g d)))"
  by (intro settledI) (auto simp: read_db_def on_course_def)



lemma emits_on_hosts: "emits P (on_hosts b k f)"
  by (auto simp: emits_def on_hosts_def split: option.splits prod.splits)

lemma emits_case_option:
  "emits P a \<Longrightarrow> (\<And>x. emits P (f x)) \<Longrightarrow> emits P (case v of None \<Rightarrow> a | Some x \<Rightarrow> f x)"
  by (cases v) simp_all

lemma emits_case_prod: "(\<And>x y. emits P (f x y)) \<Longrightarrow> emits P (case p of (x, y) \<Rightarrow> f x y)"
  by (cases p) simp

lemma emits_case_list:
  "emits P a \<Longrightarrow> (\<And>x xs. emits P (f x xs)) \<Longrightarrow> emits P (case l of [] \<Rightarrow> a | x # xs \<Rightarrow> f x xs)"
  by (cases l) simp_all

lemma emits_case_sum:
  "(\<And>x. emits P (f x)) \<Longrightarrow> (\<And>y. emits P (g y)) \<Longrightarrow> emits P (case v of Inl x \<Rightarrow> f x | Inr y \<Rightarrow> g y)"
  by (cases v) simp_all









lemma emits_container_address: "emits P (container_address lib cn info opts k)"
  unfolding container_address_def Let_def
  by (intro emits_intros emits_on_hosts emits_case_option emits_case_prod emits_case_list
        emits_case_sum)














































lemma recorded_failed [simp]: "recorded cfg (d\<lparr>failed := x\<rparr>) = recorded cfg d"
  by (simp add: recorded_def bridge_recorded_def own_def lease_def parent_record_def bridge_entry_def)












lemma lab_shown:
  "stdout (example_host rs (lab_first_commands @ take 4 lab_second_commands) (IpAddrShow ''br0''))
     = ''2: br0    inet 10.0.0.1/24 scope global br0'' @ [CHR 0x0A]"
  by (simp add: example_host_def address_step_def lab_first_commands_def lab_second_commands_def)

lemma lab_live:
  "findall_inet (strip (''2: br0    inet 10.0.0.1/24 scope global br0'' @ [CHR 0x0A])) = [''10.0.0.1/24'']"
  by (simp add: findall_inet_def match_inet_def strip_def is_space_def is_digit_def Let_def)









section \<open>The allocator runs before the interface is looked at\<close>

lemma isl_and_then_succeed: "isl (fst (and_then m (\<lambda>x. succeed (g x)) s)) = isl (fst (m s))"
  by (cases "m s") (auto simp: and_then_def succeed_def split: sum.splits)

lemma isl_on_hosts:
  "isl (fst (on_hosts b k f s)) =
     (case snd (lease k b (db s)) of None \<Rightarrow> True | Some h \<Rightarrow> isl (fst (f h)))"
  by (auto simp: on_hosts_def lease_def split: option.splits prod.splits)

lemma cached_range_lease:
  "(case bridge_entry b d of None \<Rightarrow> None | Some c \<Rightarrow> cache_range k c) = fst (lease k b d)"
  by (simp add: lease_def split: option.splits)

lemma container_address_raises:
  assumes "lease k (c_bridge info) (db s) = lease k (c_bridge info) (db s')"
  shows "isl (fst (container_address lib cn info opts k s))
           = isl (fst (container_address lib cn info opts' k s'))"
proof -
  have look: "and_then (read_db g) f t = f (g (db t)) t" for g :: "lease_db \<Rightarrow> string option"
    and f :: "string option \<Rightarrow> (string \<times> string) list run" and t
    by (simp add: and_then_def read_db_def)
  have leaf: "isl (fst (succeed x t)) = False" "isl (fst (raise e t)) = True"
    for x :: "(string \<times> string) list" and e t
    by (simp_all add: succeed_def raise_def)
  show ?thesis
    unfolding container_address_def Let_def cached_range_lease
    by (simp add: look leaf isl_and_then_succeed isl_on_hosts assms
          split: option.splits sum.splits list.splits)
qed

lemma unchanged_lease_container_address:
  "k \<noteq> k' \<Longrightarrow> unchanged (lease k b) (container_address lib cn info opts k')"
  unfolding container_address_def Let_def
  by (intro unchanged_intros unchanged_on_hosts) simp_all

lemma container_address_silent:
  "issued (snd (container_address lib cn info opts k s)) = issued s"
proof -
  obtain cs where "issued (snd (container_address lib cn info opts k s)) = issued s @ cs"
    and "list_all (\<lambda>_. False) cs"
    using emits_container_address[of "\<lambda>_. False" lib cn info opts k]
    unfolding emits_def by blast
  then show ?thesis by (cases cs) simp_all
qed

lemma lease_entry_exists:
  assumes "lease k b d = (Some r, Some h)"
  obtains c where "bridge_entry b d = Some c" "cache_range k c = Some r" "cache_hosts k c = Some h"
  using assms by (auto simp: lease_def split: option.splits)

lemma other_family_differs [simp]: "other_family k \<noteq> k" "k \<noteq> other_family k"
  by (cases k; simp)+

lemma container_addresses_rebind:
  assumes noaddr: "\<not> truthy (info_address k info)"
    and entry: "bridge_entry (c_bridge info) (db s) = Some c"
    and range: "cache_range k c = Some r" "r \<noteq> []" and hosts: "cache_hosts k c = Some h"
    and other: "\<not> isl (fst (container_address lib cn info [] (other_family k) s))"
    and cands: "skip_hosts lib r = Inr cands"
    and free: "find (\<lambda>a. a \<notin> set (map snd h)) (map (with_prefix r) cands) = Some new"
  shows "\<exists>opts' s'. container_addresses lib cn info opts [Iprange, Ip6range] s = (Inr opts', s')
           \<and> issued s' = issued s
           \<and> hosts_of k (c_bridge info) s' = Some (AList.update cn new h)"
proof -
  let ?b = "c_bridge info"
  let ?k' = "other_family k"
  let ?s2 = "s\<lparr>db := update_bridge ?b (set_cache_hosts k (Some (AList.update cn new h))) (db s)\<rparr>"
  have bound: "hosts_of k ?b ?s2 = Some (AList.update cn new h)"
    using entry by (simp add: hosts_of_def bridge_entry_update)
  show ?thesis
  proof (cases k)
    case Iprange
    from container_address_auto[OF noaddr entry range hosts cands free, of cn opts]
    obtain o1 where 1: "container_address lib cn info opts Iprange s = (Inr o1, ?s2)"
      using Iprange by auto
    have "lease ?k' ?b (db ?s2) = lease ?k' ?b (db s)" by simp
    from container_address_raises[OF this, of lib cn o1 "[]"] other
    obtain o2 s3 where 2: "container_address lib cn info o1 ?k' ?s2 = (Inr o2, s3)"
      by (cases "container_address lib cn info o1 ?k' ?s2"; cases "fst (container_address lib cn info o1 ?k' ?s2)") auto
    have "unchanged (lease k ?b) (container_address lib cn info o1 ?k')"
      by (rule unchanged_lease_container_address) simp
    from unchangedD[OF this 2] have "lease k ?b (db s3) = lease k ?b (db ?s2)" .
    with bound have "hosts_of k ?b s3 = Some (AList.update cn new h)"
      by (simp add: hosts_of_def lease_def split: option.splits)
    moreover from container_address_silent[of lib cn info o1 ?k' ?s2] 2 have "issued s3 = issued s"
      by simp
    ultimately show ?thesis
      using 1 2 Iprange by (simp add: and_then_def succeed_def)
  next
    case Ip6range
    from container_address_raises[of ?k' info s s lib cn opts "[]"] other
    obtain o1' s2' where first: "container_address lib cn info opts ?k' s = (Inr o1', s2')"
      by (cases "container_address lib cn info opts ?k' s"; cases "fst (container_address lib cn info opts ?k' s)") auto
    have "unchanged (lease k ?b) (container_address lib cn info opts ?k')"
      by (rule unchanged_lease_container_address) simp
    from unchangedD[OF this first] entry range(1) hosts
    have "lease k ?b (db s2') = (Some r, Some h)"
      by (simp add: lease_def)
    then obtain c' where c': "bridge_entry ?b (db s2') = Some c'" "cache_range k c' = Some r"
      "cache_hosts k c' = Some h"
      by (rule lease_entry_exists)
    from container_address_auto[OF noaddr c'(1,2) range(2) c'(3) cands free, of cn o1']
    obtain o2 where 2: "container_address lib cn info o1' k s2' =
        (Inr o2, s2'\<lparr>db := update_bridge ?b (set_cache_hosts k (Some (AList.update cn new h))) (db s2')\<rparr>)"
      by auto
    from container_address_silent[of lib cn info opts ?k' s] first have "issued s2' = issued s"
      by simp
    moreover have "hosts_of k ?b (s2'\<lparr>db := update_bridge ?b (set_cache_hosts k (Some (AList.update cn new h))) (db s2')\<rparr>)
                     = Some (AList.update cn new h)"
      using c'(1) by (simp add: hosts_of_def bridge_entry_update)
    ultimately show ?thesis
      using first 2 Ip6range by (simp add: and_then_def succeed_def)
  qed
qed

lemma container_address_no_ip:
  "info_address k info = Some ''No-IP'' \<Longrightarrow> \<not> isl (fst (container_address lib cn info opts k s))"
  by (simp add: container_address_def Let_def truthy_def py_str_def succeed_def)

lemma container_address_nothing_asked:
  "\<not> truthy (info_address k info) \<Longrightarrow> \<not> truthy (fst (lease k (c_bridge info) (db s))) \<Longrightarrow>
   \<not> isl (fst (container_address lib cn info opts k s))"
  by (simp add: container_address_def Let_def cached_range_lease and_then_def read_db_def succeed_def)

text \<open>
  Claim C10. Take a running container with no address of its own for one family, on a
  bridge whose cache holds a range for that family and a host map that already binds
  the container, and let the interface exist in the container and be known to the
  switch. Of the other family the code needs one thing only: that its own step of the
  loop over the two families raises no exception, whatever it asks for (nothing,
  \<^verbatim>\<open>No-IP\<close>, an address of its own, or an allocation from a range of its own).
  \<^verbatim>\<open>add_iface_to_container\<close> then returns without creating anything: it runs the four
  queries and at most the repair of the MAC address. But the allocator has run before
  the queries: the container's entry of the host map is now \<open>new\<close>, the first address of
  the range behind the first five that was no value of the map, and since the entry's
  old address was such a value, \<open>new\<close> differs from it.
\<close>

theorem rerun_rebinds_auto_address:
  assumes running: "strip (stdout (host (issued s) (DockerPs cn))) \<noteq> []"
    and entry: "bridge_entry (c_bridge info) (db s) = Some c"
    and noaddr: "\<not> truthy (info_address k info)"
    and range: "cache_range k c = Some r" "r \<noteq> []"
    and hosts: "cache_hosts k c = Some h" "map_of h cn = Some old"
    and other: "\<not> isl (fst (container_address lib cn info [] (other_family k) s))"
    and cands: "skip_hosts lib r = Inr cands"
    and free: "find (\<lambda>a. a \<notin> set (map snd h)) (map (with_prefix r) cands) = Some new"
    and in_container:
      "returncode (host (issued s @ [DockerPs cn]) (DockerExecLinkShow cn (c_iface info))) = 0"
    and known:
      "strip (stdout (host (issued s @ [DockerPs cn, DockerExecLinkShow cn (c_iface info)])
                        (DockerGetPort (docker_util linux) cn (c_iface info)))) \<noteq> []"
  shows "new \<noteq> old
    \<and> fst (add_iface_to_container linux lib host cn info s) = Inr ()
    \<and> hosts_of k (c_bridge info) (snd (add_iface_to_container linux lib host cn info s))
        = Some (AList.update cn new h)
    \<and> map_of (AList.update cn new h) cn = Some new
    \<and> (\<exists>cs. issued (snd (add_iface_to_container linux lib host cn info s))
              = issued s @ [DockerPs cn, DockerExecLinkShow cn (c_iface info),
                            DockerGetPort (docker_util linux) cn (c_iface info),
                            DockerExecLinkShowDev cn (c_iface info)] @ cs
           \<and> (cs = [] \<or> (\<exists>mac. cs = [DockerExecLinkSetAddr cn (c_iface info) mac])))"
proof -
  let ?s1 = "s\<lparr>issued := issued s @ [DockerPs cn]\<rparr>"
  let ?tail = "\<lambda>t. [DockerExecLinkShow cn (c_iface info),
                     DockerGetPort (docker_util linux) cn (c_iface info),
                     DockerExecLinkShowDev cn (c_iface info)]
             @ (if contains (lower (case c_macaddress info of None \<Rightarrow> [] | Some m \<Rightarrow> m))
                     (stdout (host (issued t @ [DockerExecLinkShow cn (c_iface info),
                                       DockerGetPort (docker_util linux) cn (c_iface info)])
                                (DockerExecLinkShowDev cn (c_iface info))))
                then []
                else [DockerExecLinkSetAddr cn (c_iface info)
                        (case c_macaddress info of None \<Rightarrow> [] | Some m \<Rightarrow> m)])"
  from free have "new \<notin> set (map snd h)"
    by (auto simp: find_Some_iff)
  moreover from hosts(2) have "old \<in> set (map snd h)"
    by (force dest: map_of_SomeD)
  ultimately have ne: "new \<noteq> old" by auto
  from entry have entry1: "bridge_entry (c_bridge info) (db ?s1) = Some c" by simp
  have "lease (other_family k) (c_bridge info) (db ?s1) = lease (other_family k) (c_bridge info) (db s)"
    by simp
  from container_address_raises[OF this, of lib cn "[]" "[]"] other
  have other1: "\<not> isl (fst (container_address lib cn info [] (other_family k) ?s1))"
    by simp
  from container_addresses_rebind[OF noaddr entry1 range hosts(1) other1 cands free, of "[]"]
  obtain opts t where addrs: "container_addresses lib cn info [] [Iprange, Ip6range] ?s1 = (Inr opts, t)"
    and trace: "issued t = issued s @ [DockerPs cn]"
    and bound: "hosts_of k (c_bridge info) t = Some (AList.update cn new h)"
    by auto
  from in_container known
  have port: "container_port linux host cn info opts t = (Inr False, t\<lparr>issued := issued t @ ?tail t\<rparr>)"
    by (intro container_port_present) (simp_all add: trace)
  have run: "add_iface_to_container linux lib host cn info s = (Inr (), t\<lparr>issued := issued t @ ?tail t\<rparr>)"
    using running entry addrs port
    by (simp add: add_iface_to_container_def run_defs Let_def)
  have h': "hosts_of k (c_bridge info) (snd (add_iface_to_container linux lib host cn info s))
        = Some (AList.update cn new h)"
    using bound by (simp add: run hosts_of_def)
  show ?thesis
    using ne h' by (simp add: run update_conv' trace)
qed

theorem rerun_rebinds_auto_address_witness:
  "hosts_of Iprange ''br0'' after_small_net = Some [(''c1'', ''10.0.0.6/28'')]
   \<and> fst (add_iface_to_container False ipv4_lib (example_host [''c1'']) ''c1'' eth1_on_br0 after_small_net)
       = Inr ()
   \<and> hosts_of Iprange ''br0''
        (snd (add_iface_to_container False ipv4_lib (example_host [''c1'']) ''c1'' eth1_on_br0 after_small_net))
       = Some [(''c1'', ''10.0.0.7/28'')]"
proof -
  have before: "hosts_of Iprange ''br0'' after_small_net = Some [(''c1'', ''10.0.0.6/28'')]"
    by (simp add: hosts_of_def bridge_entry_def after_small_net_def cache_hosts_def)
  have "new \<noteq> old
    \<and> fst (add_iface_to_container False ipv4_lib (example_host [''c1'']) ''c1'' eth1_on_br0 after_small_net) = Inr ()
    \<and> hosts_of Iprange (c_bridge eth1_on_br0)
         (snd (add_iface_to_container False ipv4_lib (example_host [''c1'']) ''c1'' eth1_on_br0 after_small_net))
        = Some (AList.update ''c1'' new [(''c1'', ''10.0.0.6/28'')])
    \<and> map_of (AList.update ''c1'' new [(''c1'', ''10.0.0.6/28'')]) ''c1'' = Some new
    \<and> (\<exists>cs. issued (snd (add_iface_to_container False ipv4_lib (example_host [''c1'']) ''c1'' eth1_on_br0 after_small_net))
              = issued after_small_net @ [DockerPs ''c1'', DockerExecLinkShow ''c1'' (c_iface eth1_on_br0),
                            DockerGetPort (docker_util False) ''c1'' (c_iface eth1_on_br0),
                            DockerExecLinkShowDev ''c1'' (c_iface eth1_on_br0)] @ cs
           \<and> (cs = [] \<or> (\<exists>mac. cs = [DockerExecLinkSetAddr ''c1'' (c_iface eth1_on_br0) mac])))"
    if "new = ''10.0.0.7/28''" and "old = ''10.0.0.6/28''" for new old
    by (rule rerun_rebinds_auto_address[where k = Iprange and r = "''10.0.0.0/28''"
          and c = "\<lparr>iprange = Some ''10.0.0.0/28'', ip6range = None,
                    iprange_hosts = Some [(''c1'', ''10.0.0.6/28'')],
                    ip6range_hosts = Some [], parents = []\<rparr>"
          and cands = "[''10.0.0.6'', ''10.0.0.7'', ''10.0.0.8'', ''10.0.0.9'', ''10.0.0.10'',
                        ''10.0.0.11'', ''10.0.0.12'', ''10.0.0.13'', ''10.0.0.14'']"])
       (simp_all add: that after_small_net_def example_nets strip_def is_space_def bridge_entry_def
          truthy_def info_address_def cache_range_def cache_hosts_def skip_28 prefix_28 docker_util_def
          container_address_def Let_def read_db_def and_then_def succeed_def info_gateway_def)
  from this[of "''10.0.0.7/28''" "''10.0.0.6/28''"] before show ?thesis
    by (simp add: eth1_on_br0_def)
qed

section \<open>Explicit reservations and the values of a host map\<close>






lemma distinct_hosts_iff:
  "distinct_hosts c \<longleftrightarrow> (\<forall>k h. cache_hosts k c = Some h \<longrightarrow> distinct (map snd h))"
proof -
  have "(\<forall>k. P k) \<longleftrightarrow> P Iprange \<and> P Ip6range" for P
    by (metis (full_types) range_key.exhaust)
  then show ?thesis
    by (auto simp: distinct_hosts_def split: option.splits)
qed



lemma distinct_hosts_parents [simp]: "distinct_hosts (c\<lparr>parents := x\<rparr>) = distinct_hosts c"
  by (simp add: distinct_hosts_iff)

lemma distinct_hosts_empty [simp]: "distinct_hosts empty_bridge_cache"
  by (simp add: distinct_hosts_def empty_bridge_cache_def cache_hosts_def)




lemma distinct_leases_failed [simp]: "distinct_leases (d\<lparr>failed := x\<rparr>) = distinct_leases d"
  by (simp add: distinct_leases_def)










lemma distinct_leases_parent [simp]:
  "distinct_leases (setdefault_parent b p d) = distinct_leases d"
  "distinct_leases (write_parent b p key v d) = distinct_leases d"
proof -
  have "list_all (\<lambda>(b, c). distinct_hosts c) (AList.map_entry b (\<lambda>c. c\<lparr>parents := g (parents c)\<rparr>) al)
          = list_all (\<lambda>(b, c). distinct_hosts c) al" for g al
    by (induction al) auto
  then show "distinct_leases (setdefault_parent b p d) = distinct_leases d"
    and "distinct_leases (write_parent b p key v d) = distinct_leases d"
    by (simp_all add: distinct_leases_def setdefault_parent_def write_parent_def update_bridge_def)
qed











end
